(* ===== verification/Poll_Prelude.thy ===== *)
theory Poll_Prelude
  imports Main "HOL-Library.Word"
begin

text \<open>
  Shared vocabulary of the development: fixed-width integers, the Go idioms that
  occur in several components (building a lookup map from a slice, scanning a slice
  with a set of values already seen), and the list and word lemmas the component
  proofs use.
\<close>

type_synonym int32 = "32 word"
type_synonym int64 = "64 word"

section \<open>Lookup maps built from a slice\<close>

text \<open>
  The loop \<open>for _, x := range xs { m[key(x)] = x }\<close>: a later element with the same
  key replaces an earlier one.
\<close>

fun index_by :: "('a \<Rightarrow> 'k) \<Rightarrow> 'a list \<Rightarrow> ('k \<rightharpoonup> 'a) \<Rightarrow> ('k \<rightharpoonup> 'a)" where
  "index_by key [] m = m"
| "index_by key (x # xs) m = index_by key xs (m(key x \<mapsto> x))"

lemma index_by_eq_None_iff:
  "index_by key xs m k = None \<longleftrightarrow> m k = None \<and> k \<notin> key ` set xs"
  by (induction xs arbitrary: m) auto

lemma index_by_SomeD:
  "index_by key xs m k = Some x \<Longrightarrow> m k = Some x \<or> (x \<in> set xs \<and> key x = k)"
  by (induction xs arbitrary: m) (fastforce split: if_splits)+

lemma index_by_notin: "k \<notin> key ` set xs \<Longrightarrow> index_by key xs m k = m k"
  by (induction xs arbitrary: m) auto

lemma index_by_distinct:
  "distinct (map key xs) \<Longrightarrow> x \<in> set xs \<Longrightarrow> index_by key xs m (key x) = Some x"
  by (induction xs arbitrary: m) (auto simp: index_by_notin)

lemma distinct_key_unique:
  "distinct (map key xs) \<Longrightarrow> x \<in> set xs \<Longrightarrow> y \<in> set xs \<Longrightarrow> key x = key y \<Longrightarrow> x = y"
  by (simp add: distinct_map inj_on_def)

lemma index_by_map_of:
  "index_by key xs m = m ++ map_of (rev (map (\<lambda>x. (key x, x)) xs))"
  by (induction xs arbitrary: m) (auto simp: map_add_assoc[symmetric] map_add_def fun_eq_iff
      split: option.splits)

lemma index_by_empty_SomeD:
  "index_by key xs Map.empty k = Some x \<Longrightarrow> x \<in> set xs \<and> key x = k"
  by (auto dest: index_by_SomeD)

lemma index_by_empty_eq_None_iff:
  "index_by key xs Map.empty k = None \<longleftrightarrow> k \<notin> key ` set xs"
  by (simp add: index_by_eq_None_iff)

section \<open>Updating every element that carries a key\<close>

text \<open>
  Mutating, through a pointer, the element of a slice at the position of a key is the
  same as mapping over the slice when the keys are distinct.
\<close>

lemma list_update_eq_map_key:
  assumes "distinct (map key xs)" and "i < length xs"
  shows "xs[i := f (xs ! i)] = map (\<lambda>x. if key x = key (xs ! i) then f x else x) xs"
proof (rule nth_equalityI)
  show "length (xs[i := f (xs ! i)])
      = length (map (\<lambda>x. if key x = key (xs ! i) then f x else x) xs)"
    by simp
next
  fix j assume "j < length (xs[i := f (xs ! i)])"
  then have j: "j < length xs" by simp
  then have "key (xs ! j) = key (xs ! i) \<longleftrightarrow> j = i"
    using assms nth_eq_iff_index_eq[of "map key xs" j i] by simp
  then show "xs[i := f (xs ! i)] ! j
      = map (\<lambda>x. if key x = key (xs ! i) then f x else x) xs ! j"
    using j by (auto simp: nth_list_update)
qed

lemma map_list_update_same: "f y = f (xs ! i) \<Longrightarrow> map f (xs[i := y]) = map f xs"
  by (cases "i < length xs") (simp_all add: map_update list_update_same_conv list_update_beyond)

section \<open>Counting\<close>

lemma count_list_filter: "count_list xs x = length (filter (\<lambda>y. x = y) xs)"
  by (induction xs) auto

lemma count_list_distinct: "distinct xs \<Longrightarrow> count_list xs x = (if x \<in> set xs then 1 else 0)"
  by (induction xs) auto

lemma sum_count_list_distinct:
  "distinct ys \<Longrightarrow> set xs \<subseteq> set ys \<Longrightarrow> sum_list (map (count_list xs) ys) = length xs"
proof (induction xs)
  case Nil
  then show ?case by simp
next
  case (Cons x xs)
  have "sum_list (map (count_list (x # xs)) ys)
      = sum_list (map (\<lambda>y. count_list xs y + (if x = y then 1 else 0)) ys)"
    by (rule arg_cong[where f = sum_list]) simp
  also have "\<dots> = sum_list (map (count_list xs) ys)
      + sum_list (map (\<lambda>y. if x = y then 1 else 0) ys)"
    by (simp add: sum_list_addf)
  also have "sum_list (map (\<lambda>y. if x = y then 1 else 0) ys) = count_list ys x"
    by (induction ys) auto
  also have "count_list ys x = 1"
    using Cons.prems by (simp add: count_list_distinct)
  finally show ?case
    using Cons by simp
qed

lemma sum_list_of_nat_word:
  "sum_list (map (\<lambda>x. (of_nat (f x) :: 'a :: len word)) xs) = of_nat (sum_list (map f xs))"
  by (induction xs) auto

section \<open>Reading a 32-bit counter\<close>

lemma sint_of_nat_int32:
  "n < 2 ^ 31 \<Longrightarrow> sint (of_nat n :: int32) = int n"
  by (simp add: signed_of_nat signed_take_bit_int_eq_self)

lemma unat_of_nat_int32: "unat (of_nat n :: int32) = n mod 2 ^ 32"
  by (simp add: unat_of_nat)

end
