(* ===== verification/Go_Runtime.thy ===== *)
theory Go_Runtime
  imports Poll_Prelude "HOL-Library.Sublist" "HOL-Library.List_Lexorder" "HOL-Library.Char_ord"
begin

text \<open>
  The part of Go's standard library that the program computes with: \<open>time.Time\<close>
  values (\<open>Before\<close>, \<open>Equal\<close>, \<open>time.Until\<close>, \<open>Format(time.RFC3339)\<close>),
  \<open>strings.TrimSpace\<close>, \<open>strings.Compare\<close>, and the \<open>%q\<close> and \<open>%d\<close> verbs of
  \<open>fmt.Sprintf\<close>. A Go string is a byte sequence, here a list of 8-bit characters,
  so \<open>length\<close> is Go's \<open>len\<close>. The only data left open is the table behind
  \<open>strconv.IsPrint\<close> for code points from U+0100 up, an argument \<open>pr\<close> of \<open>goQuote\<close>.
\<close>

section \<open>Time\<close>

text \<open>
  An instant in nanoseconds since the Unix epoch and the offset, in seconds, of the
  location it is displayed in. Comparisons look at the instant only.
\<close>

record gotime =
  unixNano :: int
  zoneOffset :: int

definition time_Before :: "gotime \<Rightarrow> gotime \<Rightarrow> bool" where
  "time_Before t u \<longleftrightarrow> unixNano t < unixNano u"

definition time_Equal :: "gotime \<Rightarrow> gotime \<Rightarrow> bool" where
  "time_Equal t u \<longleftrightarrow> unixNano t = unixNano u"

text \<open>\<open>time.Until\<close>: a \<open>time.Duration\<close> is an \<open>int64\<close>, and \<open>Sub\<close> saturates.\<close>

definition time_Until :: "gotime \<Rightarrow> gotime \<Rightarrow> int" where
  "time_Until t now = max (- (2 ^ 63)) (min (2 ^ 63 - 1) (unixNano t - unixNano now))"

lemma time_Until_pos_iff: "0 < time_Until t now \<longleftrightarrow> time_Before now t"
  by (auto simp: time_Until_def time_Before_def)

lemma time_Equal_refl [simp]: "time_Equal t t"
  by (simp add: time_Equal_def)

section \<open>Decimal output\<close>

definition digit_char :: "nat \<Rightarrow> char" where
  "digit_char n = char_of (48 + n)"

fun show_nat :: "nat \<Rightarrow> string" where
  "show_nat n = (if n < 10 then [digit_char n] else show_nat (n div 10) @ [digit_char (n mod 10)])"

declare show_nat.simps [simp del]

definition show_int :: "int \<Rightarrow> string" where
  "show_int i = (if i < 0 then ''-'' @ show_nat (nat (- i)) else show_nat (nat i))"

definition show_int32 :: "int32 \<Rightarrow> string" where
  "show_int32 w = show_int (sint w)"

definition pad :: "nat \<Rightarrow> nat \<Rightarrow> string" where
  "pad width n = (let s = show_nat n in replicate (width - length s) (CHR ''0'') @ s)"

section \<open>RFC 3339\<close>

text \<open>Proleptic Gregorian date of a day number counted from 1970-01-01.\<close>

definition civil_from_days :: "int \<Rightarrow> int \<times> nat \<times> nat" where
  "civil_from_days days =
     (let z = days + 719468;
          era = z div 146097;
          doe = z mod 146097;
          yoe = (doe - doe div 1460 + doe div 36524 - doe div 146096) div 365;
          doy = doe - (365 * yoe + yoe div 4 - yoe div 100);
          mp = (5 * doy + 2) div 153;
          d = doy - (153 * mp + 2) div 5 + 1;
          m = (if mp < 10 then mp + 3 else mp - 9);
          y = yoe + era * 400 + (if m \<le> 2 then 1 else 0)
      in (y, nat m, nat d))"

text \<open>The layout \<open>2006-01-02T15:04:05Z07:00\<close>: \<open>Z\<close> at offset zero.\<close>

definition format_offset :: "int \<Rightarrow> string" where
  "format_offset off =
     (if off = 0 then ''Z''
      else let m = nat (\<bar>off\<bar> div 60)
           in (if off \<le> -60 then ''-'' else ''+'') @ pad 2 (m div 60) @ '':'' @ pad 2 (m mod 60))"

definition format_RFC3339 :: "gotime \<Rightarrow> string" where
  "format_RFC3339 t =
     (let secs = unixNano t div 1000000000 + zoneOffset t;
          sod = nat (secs mod 86400)
      in case civil_from_days (secs div 86400) of (y, m, d) \<Rightarrow>
           (if y < 0 then ''-'' else '''') @ pad 4 (nat \<bar>y\<bar>) @ ''-'' @ pad 2 m @ ''-'' @ pad 2 d
           @ ''T'' @ pad 2 (sod div 3600) @ '':'' @ pad 2 (sod mod 3600 div 60)
           @ '':'' @ pad 2 (sod mod 60) @ format_offset (zoneOffset t))"

section \<open>UTF-8\<close>

definition byte_of :: "char \<Rightarrow> nat" where
  "byte_of c = of_char c"

definition is_cont :: "nat \<Rightarrow> bool" where
  "is_cont b \<longleftrightarrow> 0x80 \<le> b \<and> b \<le> 0xBF"

text \<open>
  \<open>utf8.DecodeRuneInString\<close> on a non-empty string: the rune and its width; an invalid
  encoding is \<open>(RuneError, 1)\<close>.
\<close>

definition decode_rune :: "nat list \<Rightarrow> nat \<times> nat" where
  "decode_rune bs =
     (case bs of
        [] \<Rightarrow> (0xFFFD, 0)
      | b0 # r1 \<Rightarrow>
        if b0 < 0x80 then (b0, 1)
        else case r1 of
          [] \<Rightarrow> (0xFFFD, 1)
        | b1 # r2 \<Rightarrow>
          if 0xC2 \<le> b0 \<and> b0 \<le> 0xDF \<and> is_cont b1
          then ((b0 - 0xC0) * 64 + (b1 - 0x80), 2)
          else case r2 of
            [] \<Rightarrow> (0xFFFD, 1)
          | b2 # r3 \<Rightarrow>
            if 0xE0 \<le> b0 \<and> b0 \<le> 0xEF \<and> is_cont b1 \<and> is_cont b2
               \<and> (b0 = 0xE0 \<longrightarrow> 0xA0 \<le> b1) \<and> (b0 = 0xED \<longrightarrow> b1 \<le> 0x9F)
            then ((b0 - 0xE0) * 4096 + (b1 - 0x80) * 64 + (b2 - 0x80), 3)
            else case r3 of
              [] \<Rightarrow> (0xFFFD, 1)
            | b3 # _ \<Rightarrow>
              if 0xF0 \<le> b0 \<and> b0 \<le> 0xF4 \<and> is_cont b1 \<and> is_cont b2 \<and> is_cont b3
                 \<and> (b0 = 0xF0 \<longrightarrow> 0x90 \<le> b1) \<and> (b0 = 0xF4 \<longrightarrow> b1 \<le> 0x8F)
              then ((b0 - 0xF0) * 262144 + (b1 - 0x80) * 4096 + (b2 - 0x80) * 64 + (b3 - 0x80), 4)
              else (0xFFFD, 1))"

lemma decode_rune_width_pos: "bs \<noteq> [] \<Longrightarrow> 0 < snd (decode_rune bs)"
  by (auto simp: decode_rune_def split: list.splits if_splits)

text \<open>\<open>utf8.RuneCountInString\<close>: what a reader calls the characters of a text.\<close>

function rune_count :: "string \<Rightarrow> nat" where
  "rune_count [] = 0"
| "rune_count (c # cs) =
     Suc (rune_count (drop (snd (decode_rune (map byte_of (c # cs))) - 1) cs))"
  by pat_completeness auto
termination
  by (relation "measure length") auto

section \<open>The verb \<open>%q\<close>\<close>

definition hex_char :: "nat \<Rightarrow> char" where
  "hex_char n = (if n < 10 then digit_char n else char_of (87 + n))"

fun hex_digits :: "nat \<Rightarrow> nat \<Rightarrow> string" where
  "hex_digits 0 n = []"
| "hex_digits (Suc w) n = hex_digits w (n div 16) @ [hex_char (n mod 16)]"

text \<open>\<open>strconv.IsPrint\<close>: exact below U+0100, the argument \<open>pr\<close> from there up.\<close>

definition is_print :: "(nat \<Rightarrow> bool) \<Rightarrow> nat \<Rightarrow> bool" where
  "is_print pr r =
     (if r \<le> 0xFF then (0x20 \<le> r \<and> r < 0x7F) \<or> (0xA1 \<le> r \<and> r \<noteq> 0xAD) else pr r)"

definition escape_rune :: "(nat \<Rightarrow> bool) \<Rightarrow> nat \<Rightarrow> string \<Rightarrow> string" where
  "escape_rune pr r raw =
     (if r = 34 \<or> r = 92 then char_of (92 :: nat) # raw
      else if is_print pr r then raw
      else if r = 7 then char_of (92 :: nat) # ''a''
      else if r = 8 then char_of (92 :: nat) # ''b''
      else if r = 12 then char_of (92 :: nat) # ''f''
      else if r = 10 then char_of (92 :: nat) # ''n''
      else if r = 13 then char_of (92 :: nat) # ''r''
      else if r = 9 then char_of (92 :: nat) # ''t''
      else if r = 11 then char_of (92 :: nat) # ''v''
      else if r < 32 \<or> r = 0x7F then char_of (92 :: nat) # ''x'' @ hex_digits 2 r
      else if r < 0x10000 then char_of (92 :: nat) # ''u'' @ hex_digits 4 r
      else char_of (92 :: nat) # ''U'' @ hex_digits 8 r)"

function quote_body :: "(nat \<Rightarrow> bool) \<Rightarrow> string \<Rightarrow> string" where
  "quote_body pr [] = []"
| "quote_body pr (c # cs) =
     (case decode_rune (map byte_of (c # cs)) of (r, w) \<Rightarrow>
        (if w = 1 \<and> r = 0xFFFD then char_of (92 :: nat) # ''x'' @ hex_digits 2 (byte_of c)
         else escape_rune pr r (take w (c # cs)))
        @ quote_body pr (drop (w - 1) cs))"
  by pat_completeness auto
termination
  by (relation "measure (\<lambda>(pr, s). length s)") auto

definition goQuote :: "(nat \<Rightarrow> bool) \<Rightarrow> string \<Rightarrow> string" where
  "goQuote pr s = char_of (34 :: nat) # quote_body pr s @ [char_of (34 :: nat)]"

section \<open>\<open>strings.TrimSpace\<close> and \<open>strings.Compare\<close>\<close>

text \<open>
  The UTF-8 encodings of the runes that \<open>unicode.IsSpace\<close> accepts. Trimming a valid
  encoding off either end is what \<open>TrimSpace\<close> does rune by rune.
\<close>

definition space_encodings :: "string list" where
  "space_encodings = map (map char_of)
     ([[9], [10], [11], [12], [13], [32], [0xC2, 0x85], [0xC2, 0xA0], [0xE1, 0x9A, 0x80],
       [0xE2, 0x80, 0xA8], [0xE2, 0x80, 0xA9], [0xE2, 0x80, 0xAF], [0xE2, 0x81, 0x9F],
       [0xE3, 0x80, 0x80]] @ map (\<lambda>b. [0xE2, 0x80, b]) [0x80 ..< 0x8B] :: nat list list)"

text \<open>Drop the given non-empty prefixes from the front as long as one of them is there.\<close>

function trim_front :: "string list \<Rightarrow> string \<Rightarrow> string" where
  "trim_front es s =
     (case find (\<lambda>e. e \<noteq> [] \<and> prefix e s) es of
        None \<Rightarrow> s
      | Some e \<Rightarrow> trim_front es (drop (length e) s))"
  by pat_completeness auto
termination
  by (relation "measure (\<lambda>(es, s). length s)")
    (auto simp: find_Some_iff prefix_def)

declare trim_front.simps [simp del]

definition TrimSpace :: "string \<Rightarrow> string" where
  "TrimSpace s = rev (trim_front (map rev space_encodings) (rev (trim_front space_encodings s)))"

lemma trim_front_suffix: "suffix (trim_front es s) s"
proof (induction es s rule: trim_front.induct)
  case (1 es s)
  show ?case
  proof (cases "find (\<lambda>e. e \<noteq> [] \<and> prefix e s) es")
    case None
    then show ?thesis by (subst trim_front.simps) simp
  next
    case (Some e)
    then have "suffix (trim_front es (drop (length e) s)) (drop (length e) s)"
      using 1 by simp
    then have "suffix (trim_front es (drop (length e) s)) s"
      using suffix_drop suffix_order.trans by blast
    with Some show ?thesis by (subst trim_front.simps) simp
  qed
qed

lemma trim_front_done: "find (\<lambda>e. e \<noteq> [] \<and> prefix e (trim_front es s)) es = None"
proof (induction es s rule: trim_front.induct)
  case (1 es s)
  show ?case
  proof (cases "find (\<lambda>e. e \<noteq> [] \<and> prefix e s) es")
    case None
    then show ?thesis by (subst trim_front.simps) simp
  next
    case (Some e)
    then show ?thesis using 1 by (subst trim_front.simps) simp
  qed
qed

lemma trim_front_fixed:
  "find (\<lambda>e. e \<noteq> [] \<and> prefix e s) es = None \<Longrightarrow> trim_front es s = s"
  by (subst trim_front.simps) simp

lemma TrimSpace_idem: "TrimSpace (TrimSpace s) = TrimSpace s"
proof -
  let ?l = "trim_front space_encodings s"
  let ?r = "trim_front (map rev space_encodings) (rev ?l)"
  have "prefix (rev ?r) ?l"
    using trim_front_suffix[of "map rev space_encodings" "rev ?l"]
    by (simp add: suffix_to_prefix)
  then have "find (\<lambda>e. e \<noteq> [] \<and> prefix e (rev ?r)) space_encodings = None"
    using trim_front_done[of space_encodings s] prefix_order.trans
    by (fastforce simp: find_None_iff)
  then have "trim_front space_encodings (rev ?r) = rev ?r"
    by (rule trim_front_fixed)
  moreover have "trim_front (map rev space_encodings) ?r = ?r"
    by (rule trim_front_fixed) (rule trim_front_done)
  ultimately show ?thesis
    by (simp add: TrimSpace_def)
qed

lemma length_TrimSpace_le: "length (TrimSpace s) \<le> length s"
  unfolding TrimSpace_def length_rev
  by (rule order_trans[OF suffix_length_le[OF trim_front_suffix]])
    (simp add: suffix_length_le[OF trim_front_suffix])

lemma TrimSpace_Nil [simp]: "TrimSpace [] = []"
  by (simp add: TrimSpace_def trim_front_fixed find_None_iff)

text \<open>A string that begins and ends with visible ASCII characters is left alone.\<close>

definition visible_byte :: "char \<Rightarrow> bool" where
  "visible_byte c \<longleftrightarrow> 33 \<le> byte_of c \<and> byte_of c < 127"

lemma space_encoding_ends:
  "list_all (\<lambda>e. e \<noteq> [] \<and> \<not> visible_byte (hd e) \<and> \<not> visible_byte (last e)) space_encodings"
  by code_simp

lemma trim_front_visible:
  assumes "list_all (\<lambda>e. e \<noteq> [] \<and> \<not> visible_byte (hd e)) es" and "s = [] \<or> visible_byte (hd s)"
  shows "trim_front es s = s"
proof (rule trim_front_fixed)
  show "find (\<lambda>e. e \<noteq> [] \<and> prefix e s) es = None"
    using assms by (auto simp: find_None_iff list_all_iff prefix_def)
qed

lemma TrimSpace_visible:
  assumes "s = [] \<or> (visible_byte (hd s) \<and> visible_byte (last s))"
  shows "TrimSpace s = s"
proof -
  have "trim_front space_encodings s = s"
    using assms space_encoding_ends by (intro trim_front_visible) (auto simp: list_all_iff)
  moreover have "trim_front (map rev space_encodings) (rev s) = rev s"
    using assms space_encoding_ends
    by (intro trim_front_visible) (auto simp: list_all_iff hd_rev)
  ultimately show ?thesis by (simp add: TrimSpace_def)
qed

text \<open>\<open>strings.Compare\<close>: bytewise lexicographic order as \<open>-1\<close>, \<open>0\<close>, \<open>+1\<close>.\<close>

definition strings_Compare :: "string \<Rightarrow> string \<Rightarrow> int" where
  "strings_Compare a b = (if a = b then 0 else if a < b then -1 else 1)"

lemma strings_Compare_le_0 [simp]: "strings_Compare a b \<le> 0 \<longleftrightarrow> a \<le> b"
  by (auto simp: strings_Compare_def)

lemma strings_Compare_eq_0 [simp]: "strings_Compare a b = 0 \<longleftrightarrow> a = b"
  by (auto simp: strings_Compare_def)

end
