(* ===== verification/Poll_Types.thy ===== *)
theory Poll_Types
  imports Go_Runtime
begin

text \<open>
  The API types of \<open>api/v1\<close> (\<open>poll_types.go\<close>, \<open>pollresponse_types.go\<close>) and the part
  of \<open>metav1.ObjectMeta\<close> and \<open>metav1.Condition\<close> that the program reads and writes. A Go
  pointer is an \<open>option\<close>, a string enumeration stays a string with its constants (the
  code has branches for other values), an \<open>int32\<close> counter is a 32-bit word. On
  these values the generated \<open>DeepCopy\<close> functions are the identity, as \<open>Deep_Copy_Laws\<close> proves
  over a heap.
\<close>

section \<open>Metadata shared by the objects\<close>

record owner_reference =
  or_kind :: string
  or_name :: string
  or_uid :: string
  or_controller :: bool

record object_meta =
  m_name :: string
  m_generateName :: string
  m_namespace :: string
  m_uid :: string
  m_generation :: int64
  m_deletionTimestamp :: "gotime option"
  m_ownerReferences :: "owner_reference list"

text \<open>\<open>metav1.Condition\<close>; a zero \<open>LastTransitionTime\<close> is \<open>None\<close>.\<close>

record condition =
  c_type :: string
  c_status :: string
  c_observedGeneration :: int64
  c_lastTransitionTime :: "gotime option"
  c_reason :: string
  c_message :: string

definition ConditionTrue :: string where "ConditionTrue = ''True''"
definition ConditionFalse :: string where "ConditionFalse = ''False''"
definition ConditionUnknown :: string where "ConditionUnknown = ''Unknown''"

section \<open>Poll\<close>

type_synonym PollPhase = string

definition PollPhasePending :: PollPhase where "PollPhasePending = ''Pending''"
definition PollPhaseOpen :: PollPhase where "PollPhaseOpen = ''Open''"
definition PollPhaseClosed :: PollPhase where "PollPhaseClosed = ''Closed''"

type_synonym QuestionType = string

definition QuestionTypeChoice :: QuestionType where "QuestionTypeChoice = ''Choice''"
definition QuestionTypeFreeText :: QuestionType where "QuestionTypeFreeText = ''FreeText''"

record ChoiceQuestion =
  cq_options :: "string list"
  cq_allowMultipleChoices :: bool

record FreeTextQuestion =
  fq_maxResponseLength :: int32

record PollQuestion =
  q_id :: string
  q_prompt :: string
  q_type :: QuestionType
  q_choice :: "ChoiceQuestion option"
  q_freeText :: "FreeTextQuestion option"

record PollSpec =
  ps_title :: string
  ps_questions :: "PollQuestion list"
  ps_closesAt :: "gotime option"

record OptionResult =
  opt_option :: string
  opt_votes :: int32

record QuestionResult =
  qr_questionID :: string
  qr_options :: "OptionResult list"
  qr_responses :: int32

record PollStatus =
  st_conditions :: "condition list"
  st_phase :: PollPhase
  st_openedAt :: "gotime option"
  st_closedAt :: "gotime option"
  st_results :: "QuestionResult list"
  st_totalResponses :: int32

record Poll =
  p_meta :: object_meta
  p_spec :: PollSpec
  p_status :: PollStatus

section \<open>PollResponse\<close>

type_synonym PollResponsePhase = string

definition PollResponsePhasePending :: PollResponsePhase where
  "PollResponsePhasePending = ''Pending''"
definition PollResponsePhaseAccepted :: PollResponsePhase where
  "PollResponsePhaseAccepted = ''Accepted''"
definition PollResponsePhaseRejected :: PollResponsePhase where
  "PollResponsePhaseRejected = ''Rejected''"

record PollAnswer =
  a_questionID :: string
  a_selectedOptions :: "string list"
  a_text :: string

record PollReference =
  ref_name :: string

record PollResponseSpec =
  rs_pollRef :: PollReference
  rs_respondent :: string
  rs_answers :: "PollAnswer list"
  rs_submittedAt :: "gotime option"

record PollResponseStatus =
  rst_conditions :: "condition list"
  rst_phase :: PollResponsePhase
  rst_observedPollGeneration :: int64
  rst_acceptedAt :: "gotime option"

record PollResponse =
  r_meta :: object_meta
  r_spec :: PollResponseSpec
  r_status :: PollResponseStatus

section \<open>Constants are distinct\<close>

lemmas phase_defs =
  PollPhasePending_def PollPhaseOpen_def PollPhaseClosed_def
  PollResponsePhasePending_def PollResponsePhaseAccepted_def PollResponsePhaseRejected_def

lemmas question_type_defs = QuestionTypeChoice_def QuestionTypeFreeText_def

lemmas condition_status_defs = ConditionTrue_def ConditionFalse_def ConditionUnknown_def

lemma question_types_distinct [simp]:
  "QuestionTypeChoice \<noteq> QuestionTypeFreeText" "QuestionTypeFreeText \<noteq> QuestionTypeChoice"
  by (simp_all add: question_type_defs)

lemma poll_phases_distinct [simp]:
  "PollPhaseOpen \<noteq> PollPhaseClosed" "PollPhaseClosed \<noteq> PollPhaseOpen"
  "PollPhaseOpen \<noteq> PollPhasePending" "PollPhasePending \<noteq> PollPhaseOpen"
  "PollPhaseClosed \<noteq> PollPhasePending" "PollPhasePending \<noteq> PollPhaseClosed"
  by (simp_all add: phase_defs)

lemma response_phases_distinct [simp]:
  "PollResponsePhaseAccepted \<noteq> PollResponsePhaseRejected"
  "PollResponsePhaseRejected \<noteq> PollResponsePhaseAccepted"
  by (simp_all add: phase_defs)

lemma condition_statuses_distinct [simp]:
  "ConditionTrue \<noteq> ConditionFalse" "ConditionFalse \<noteq> ConditionTrue"
  by (simp_all add: condition_status_defs)

section \<open>Well-formed polls\<close>

text \<open>
  What the CRD schema's list-map key on \<open>spec.questions\<close> and the Poll webhook together
  guarantee about a stored Poll, as far as the controllers rely on it: question ids are
  unique, and so are the options of a question with a choice configuration.
\<close>

definition question_options :: "PollQuestion \<Rightarrow> string list" where
  "question_options q = (case q_choice q of None \<Rightarrow> [] | Some c \<Rightarrow> cq_options c)"

definition wf_questions :: "PollQuestion list \<Rightarrow> bool" where
  "wf_questions qs \<longleftrightarrow> distinct (map q_id qs) \<and> list_all (\<lambda>q. distinct (question_options q)) qs"

section \<open>Names of objects, ordered by namespace and then name\<close>

text \<open>\<open>types.NamespacedName\<close> (also spelt \<open>client.ObjectKey\<close>).\<close>

datatype NamespacedName = NamespacedName (nn_namespace: string) (nn_name: string)

instantiation NamespacedName :: linorder
begin

definition less_eq_NamespacedName :: "NamespacedName \<Rightarrow> NamespacedName \<Rightarrow> bool" where
  "less_eq_NamespacedName x y \<longleftrightarrow> nn_namespace x < nn_namespace y
     \<or> (nn_namespace x = nn_namespace y \<and> nn_name x \<le> nn_name y)"

definition less_NamespacedName :: "NamespacedName \<Rightarrow> NamespacedName \<Rightarrow> bool" where
  "less_NamespacedName x y \<longleftrightarrow> x \<le> y \<and> \<not> y \<le> (x :: NamespacedName)"

instance
  by standard (auto simp: less_eq_NamespacedName_def less_NamespacedName_def
      NamespacedName.expand intro: NamespacedName.expand)

end

definition poll_key :: "Poll \<Rightarrow> NamespacedName" where
  "poll_key p = NamespacedName (m_namespace (p_meta p)) (m_name (p_meta p))"

definition response_key :: "PollResponse \<Rightarrow> NamespacedName" where
  "response_key r = NamespacedName (m_namespace (r_meta r)) (m_name (r_meta r))"

end
