(* ===== verification/Kube_Api.thy ===== *)
theory Kube_Api
  imports Poll_Types
begin

text \<open>
  The boundary to code that is not part of the repository: the controller-runtime client
  and the API server behind it, \<open>controllerutil.SetControllerReference\<close>,
  \<open>meta.SetStatusCondition\<close>, \<open>field.Error\<close> and \<open>apierrors.NewInvalid\<close>. The client,
  the clock and the library functions with a result of their own are fields of the record
  \<open>kube_env\<close>, an argument of every definition that calls them; nothing is assumed
  about them here. Error constructors are recorded as the call the source makes. The
  documented contract of \<open>SetStatusCondition\<close> is the locale \<open>status_condition_setter\<close>.
\<close>

section \<open>Errors\<close>

datatype status_reason = ReasonNotFound | ReasonConflict | ReasonOther string

datatype go_error = ApiError (err_reason: status_reason) (err_message: string)

definition IsNotFound :: "go_error \<Rightarrow> bool" where
  "IsNotFound e \<longleftrightarrow> err_reason e = ReasonNotFound"

definition IsConflict :: "go_error \<Rightarrow> bool" where
  "IsConflict e \<longleftrightarrow> err_reason e = ReasonConflict"

text \<open>\<open>fmt.Errorf("<prefix>: %w", err)\<close>.\<close>

datatype wrapped_error = Errorf string go_error

section \<open>Field errors of the admission webhooks\<close>

datatype path_element = Field string | Index nat

type_synonym field_path = "path_element list"

text \<open>The value a \<open>field.Error\<close> carries: a string, or the answer that is at fault.\<close>

datatype bad_value = BadString string | BadAnswer PollAnswer

datatype field_error =
    ErrRequired field_path string
  | ErrForbidden field_path string
  | ErrInvalid field_path bad_value string
  | ErrDuplicate field_path string
  | ErrNotSupported field_path string "string list"

fun error_path :: "field_error \<Rightarrow> field_path" where
  "error_path (ErrRequired p _) = p"
| "error_path (ErrForbidden p _) = p"
| "error_path (ErrInvalid p _ _) = p"
| "error_path (ErrDuplicate p _) = p"
| "error_path (ErrNotSupported p _ _) = p"

text \<open>\<open>schema.GroupKind\<close> and \<open>apierrors.NewInvalid(gk, name, errs)\<close>.\<close>

datatype group_kind = GroupKind (gk_group: string) (gk_kind: string)

datatype invalid_error = NewInvalid group_kind string "field_error list"

section \<open>The environment of a reconciler or request handler\<close>

text \<open>
  Every call on the client and every reading of the clock takes the state of the world
  and returns the next one, so what other actors do between two calls is part of the
  parameter. \<open>env_patch...\<close> take the base of the merge patch and the modified object, and
  on success return the object as the server stored it. \<open>env_setStatusCondition\<close> takes the
  clock reading it may use for an unset transition time.
\<close>

record 's kube_env =
  env_isPrint :: "nat \<Rightarrow> bool"
  env_now :: "'s \<Rightarrow> gotime \<times> 's"
  env_getPoll :: "NamespacedName \<Rightarrow> 's \<Rightarrow> (go_error + Poll) \<times> 's"
  env_listPolls :: "'s \<Rightarrow> (go_error + Poll list) \<times> 's"
  env_patchPollStatus :: "Poll \<Rightarrow> Poll \<Rightarrow> 's \<Rightarrow> (go_error + Poll) \<times> 's"
  env_getResponse :: "NamespacedName \<Rightarrow> 's \<Rightarrow> (go_error + PollResponse) \<times> 's"
  env_listResponses :: "string \<Rightarrow> 's \<Rightarrow> (go_error + PollResponse list) \<times> 's"
  env_patchResponse :: "PollResponse \<Rightarrow> PollResponse \<Rightarrow> 's \<Rightarrow> (go_error + PollResponse) \<times> 's"
  env_patchResponseStatus ::
    "PollResponse \<Rightarrow> PollResponse \<Rightarrow> 's \<Rightarrow> (go_error + PollResponse) \<times> 's"
  env_createResponse :: "PollResponse \<Rightarrow> 's \<Rightarrow> (go_error + PollResponse) \<times> 's"
  env_setControllerReference :: "Poll \<Rightarrow> PollResponse \<Rightarrow> go_error + PollResponse"
  env_setStatusCondition :: "gotime \<Rightarrow> condition \<Rightarrow> condition list \<Rightarrow> condition list"

text \<open>\<open>ctrl.Result\<close>.\<close>

record ctrl_result =
  Requeue :: bool
  RequeueAfter :: int

definition empty_result :: ctrl_result where
  "empty_result = \<lparr>Requeue = False, RequeueAfter = 0\<rparr>"

definition requeue_now :: ctrl_result where
  "requeue_now = \<lparr>Requeue = True, RequeueAfter = 0\<rparr>"

definition requeue_after :: "int \<Rightarrow> ctrl_result" where
  "requeue_after d = \<lparr>Requeue = False, RequeueAfter = d\<rparr>"

section \<open>Conditions\<close>

text \<open>A condition without its transition time: what the program compares.\<close>

definition cond_core :: "condition \<Rightarrow> condition" where
  "cond_core c = c\<lparr>c_lastTransitionTime := None\<rparr>"

lemma cond_core_simps [simp]:
  "c_type (cond_core c) = c_type c"
  "c_status (cond_core c) = c_status c"
  "c_observedGeneration (cond_core c) = c_observedGeneration c"
  "c_reason (cond_core c) = c_reason c"
  "c_message (cond_core c) = c_message c"
  "c_lastTransitionTime (cond_core c) = None"
  "cond_core (cond_core c) = cond_core c"
  by (simp_all add: cond_core_def)

lemma cond_core_eq_iff:
  "cond_core a = cond_core b \<longleftrightarrow> c_type a = c_type b \<and> c_status a = c_status b
     \<and> c_observedGeneration a = c_observedGeneration b \<and> c_reason a = c_reason b
     \<and> c_message a = c_message b"
  by (cases a; cases b) (auto simp: cond_core_def)

lemma map_cond_core_types: "map c_type (map cond_core cs) = map c_type cs"
  by simp

fun upsert_condition :: "condition \<Rightarrow> condition list \<Rightarrow> condition list" where
  "upsert_condition c [] = [c]"
| "upsert_condition c (x # xs) =
     (if c_type x = c_type c then c # xs else x # upsert_condition c xs)"

definition find_condition :: "string \<Rightarrow> condition list \<Rightarrow> condition option" where
  "find_condition ty cs = find (\<lambda>c. c_type c = ty) cs"

lemma find_condition_simps [simp]:
  "find_condition ty [] = None"
  "find_condition ty (c # cs) = (if c_type c = ty then Some c else find_condition ty cs)"
  by (simp_all add: find_condition_def)

lemma find_condition_upsert [simp]:
  "find_condition ty (upsert_condition c cs)
     = (if ty = c_type c then Some c else find_condition ty cs)"
  by (induction cs) auto

lemma upsert_condition_idem [simp]:
  "upsert_condition c (upsert_condition c cs) = upsert_condition c cs"
  by (induction cs) auto

lemma upsert_condition_present:
  "find_condition (c_type c) cs = Some c \<Longrightarrow> upsert_condition c cs = cs"
  by (induction cs) (auto split: if_splits)

lemma upsert_two_conditions_idem:
  assumes "c_type c1 \<noteq> c_type c2"
  shows "upsert_condition c2 (upsert_condition c1 (upsert_condition c2 (upsert_condition c1 cs)))
    = upsert_condition c2 (upsert_condition c1 cs)"
proof -
  let ?x = "upsert_condition c2 (upsert_condition c1 cs)"
  have "find_condition (c_type c1) ?x = Some c1" "find_condition (c_type c2) ?x = Some c2"
    using assms by simp_all
  then show ?thesis by (simp only: upsert_condition_present)
qed

lemma upsert_condition_types:
  "set (map c_type (upsert_condition c cs)) = insert (c_type c) (set (map c_type cs))"
  by (induction cs) auto

lemma upsert_condition_distinct:
  "distinct (map c_type cs) \<Longrightarrow> distinct (map c_type (upsert_condition c cs))"
proof (induction cs)
  case Nil
  then show ?case by simp
next
  case (Cons x xs)
  then show ?case using upsert_condition_types[of c xs] by auto
qed

lemma find_condition_map_core:
  "find_condition ty (map cond_core cs) = map_option cond_core (find_condition ty cs)"
  by (induction cs) auto

lemma find_condition_SomeD:
  "find_condition ty cs = Some c \<Longrightarrow> c \<in> set cs \<and> c_type c = ty"
  by (induction cs) (auto split: if_splits)

lemma find_condition_distinct:
  "distinct (map c_type cs) \<Longrightarrow> x \<in> set cs \<Longrightarrow> find_condition (c_type x) cs = Some x"
  by (induction cs) auto

section \<open>The contract of \<open>meta.SetStatusCondition\<close>\<close>

text \<open>
  Documented behaviour: the existing condition of the new one's type takes over all its
  fields, and its transition time moves only when the status changes; without one, the
  new condition is appended; an unset transition time is filled in from the clock. The
  conditions of other types stay as they are.
\<close>

locale status_condition_setter =
  fixes ssc :: "gotime \<Rightarrow> condition \<Rightarrow> condition list \<Rightarrow> condition list"
  assumes sets_core:
      "map cond_core (ssc t c cs) = upsert_condition (cond_core c) (map cond_core cs)"
    and keeps_time:
      "find_condition (c_type c) cs = Some old \<Longrightarrow> c_status old = c_status c \<Longrightarrow>
       find_condition (c_type c) (ssc t c cs) = Some new \<Longrightarrow>
       c_lastTransitionTime new = c_lastTransitionTime old"
    and moves_time:
      "(\<And>old. find_condition (c_type c) cs = Some old \<Longrightarrow> c_status old \<noteq> c_status c) \<Longrightarrow>
       find_condition (c_type c) (ssc t c cs) = Some new \<Longrightarrow>
       c_lastTransitionTime new
         = (case c_lastTransitionTime c of None \<Rightarrow> Some t | Some u \<Rightarrow> Some u)"
    and keeps_others:
      "ty \<noteq> c_type c \<Longrightarrow> find_condition ty (ssc t c cs) = find_condition ty cs"
begin

lemma sets_types: "set (map c_type (ssc t c cs)) = insert (c_type c) (set (map c_type cs))"
  using upsert_condition_types[of "cond_core c" "map cond_core cs"]
    arg_cong[OF sets_core, of "\<lambda>xs. set (map c_type xs)" t c cs]
  by (simp add: image_image)

lemma sets_distinct:
  assumes "distinct (map c_type cs)"
  shows "distinct (map c_type (ssc t c cs))"
proof -
  have "distinct (map c_type (map cond_core cs))"
    using assms by (simp add: comp_def)
  then have "distinct (map c_type (map cond_core (ssc t c cs)))"
    unfolding sets_core by (rule upsert_condition_distinct)
  then show ?thesis by (simp add: comp_def)
qed

lemma sets_find:
  "map_option cond_core (find_condition ty (ssc t c cs))
     = (if ty = c_type c then Some (cond_core c) else map_option cond_core (find_condition ty cs))"
  by (simp add: sets_core flip: find_condition_map_core)

lemma sets_again:
  assumes "find_condition (c_type c) (map cond_core cs) = Some (cond_core c)"
  shows "map cond_core (ssc t c cs) = map cond_core cs"
  using assms by (simp add: sets_core upsert_condition_present)

text \<open>
  A property of conditions that includes a transition time and holds of the new condition
  with one keeps holding of the whole list.
\<close>

lemma sets_all:
  assumes types: "distinct (map c_type cs)" and old: "\<forall>x\<in>set cs. P x"
    and timed: "\<And>x. P x \<Longrightarrow> c_lastTransitionTime x \<noteq> None"
    and new: "\<And>x. cond_core x = cond_core c \<Longrightarrow> c_lastTransitionTime x \<noteq> None \<Longrightarrow> P x"
  shows "\<forall>x\<in>set (ssc t c cs). P x"
proof
  fix x
  assume x: "x \<in> set (ssc t c cs)"
  have found: "find_condition (c_type x) (ssc t c cs) = Some x"
    using find_condition_distinct[OF sets_distinct[OF types] x] .
  show "P x"
  proof (cases "c_type x = c_type c")
    case False
    then have "find_condition (c_type x) cs = Some x" using found keeps_others by simp
    then show ?thesis using old find_condition_SomeD by blast
  next
    case True
    note found = found[unfolded True]
    have core: "cond_core x = cond_core c"
      using sets_find[of "c_type c" t c cs] found by simp
    have "c_lastTransitionTime x \<noteq> None"
    proof (cases "find_condition (c_type c) cs")
      case None
      then show ?thesis using moves_time[OF _ found] by (simp split: option.splits)
    next
      case (Some y)
      have "c_lastTransitionTime y \<noteq> None" using Some old timed find_condition_SomeD by blast
      then show ?thesis
        using keeps_time[OF Some _ found] moves_time[OF _ found] Some
        by (cases "c_status y = c_status c") (auto split: option.splits)
    qed
    with core new show ?thesis by blast
  qed
qed

end

text \<open>
  A function that behaves as documented: the contract can be met, and this is the
  instance at which the witnesses evaluate.
\<close>

fun documented_SetStatusCondition ::
    "gotime \<Rightarrow> condition \<Rightarrow> condition list \<Rightarrow> condition list" where
  "documented_SetStatusCondition t c [] =
     [c\<lparr>c_lastTransitionTime :=
        (case c_lastTransitionTime c of None \<Rightarrow> Some t | Some u \<Rightarrow> Some u)\<rparr>]"
| "documented_SetStatusCondition t c (x # xs) =
     (if c_type x = c_type c
      then c\<lparr>c_lastTransitionTime :=
             (if c_status x = c_status c then c_lastTransitionTime x
              else case c_lastTransitionTime c of None \<Rightarrow> Some t | Some u \<Rightarrow> Some u)\<rparr> # xs
      else x # documented_SetStatusCondition t c xs)"

lemma cond_core_time [simp]: "cond_core (c\<lparr>c_lastTransitionTime := t\<rparr>) = cond_core c"
  by (simp add: cond_core_def)

lemma documented_core:
  "map cond_core (documented_SetStatusCondition t c cs)
     = upsert_condition (cond_core c) (map cond_core cs)"
  by (induction cs) auto

lemma documented_keeps_time:
  "find_condition (c_type c) cs = Some old \<Longrightarrow> c_status old = c_status c \<Longrightarrow>
   find_condition (c_type c) (documented_SetStatusCondition t c cs) = Some new \<Longrightarrow>
   c_lastTransitionTime new = c_lastTransitionTime old"
  by (induction cs) (auto split: if_splits)

lemma documented_moves_time:
  "(\<And>old. find_condition (c_type c) cs = Some old \<Longrightarrow> c_status old \<noteq> c_status c) \<Longrightarrow>
   find_condition (c_type c) (documented_SetStatusCondition t c cs) = Some new \<Longrightarrow>
   c_lastTransitionTime new
     = (case c_lastTransitionTime c of None \<Rightarrow> Some t | Some u \<Rightarrow> Some u)"
  by (induction cs) (auto split: if_splits)

lemma documented_keeps_others:
  "ty \<noteq> c_type c \<Longrightarrow> find_condition ty (documented_SetStatusCondition t c cs) = find_condition ty cs"
  by (induction cs) auto

interpretation documented: status_condition_setter documented_SetStatusCondition
  by unfold_locales
    (fact documented_core documented_keeps_time documented_moves_time documented_keeps_others)+

end
