(* ===== verification/Status_Compare.thy ===== *)
theory Status_Compare
  imports Kube_Api
begin

text \<open>
  The comparisons shared by both reconcilers (\<open>timePtrEqual\<close> and
  \<open>conditionsEqualIgnoringTransition\<close> in \<open>poll_controller.go\<close>): on condition lists with one
  entry per type they decide equality up to order and transition times.
\<close>

fun timePtrEqual :: "gotime option \<Rightarrow> gotime option \<Rightarrow> bool" where
  "timePtrEqual None None = True"
| "timePtrEqual (Some a) (Some b) = time_Equal a b"
| "timePtrEqual _ _ = False"

lemma timePtrEqual_refl [simp]: "timePtrEqual t t"
  by (cases t) simp_all

lemma timePtrEqual_iff:
  "timePtrEqual a b \<longleftrightarrow> map_option unixNano a = map_option unixNano b"
  by (cases a; cases b) (auto simp: time_Equal_def)

definition conditionsEqualIgnoringTransition :: "condition list \<Rightarrow> condition list \<Rightarrow> bool" where
  "conditionsEqualIgnoringTransition a b \<longleftrightarrow>
     (if length a \<noteq> length b then False
      else let byType = index_by c_type a Map.empty
           in list_all (\<lambda>bc. case byType (c_type bc) of
                  None \<Rightarrow> False
                | Some ac \<Rightarrow> c_status ac = c_status bc \<and> c_reason ac = c_reason bc
                    \<and> c_message ac = c_message bc
                    \<and> c_observedGeneration ac = c_observedGeneration bc) b)"

lemma same_condition_iff:
  assumes "\<And>ac. m = Some ac \<Longrightarrow> c_type ac = c_type bc"
  shows "(case m of None \<Rightarrow> False
          | Some ac \<Rightarrow> c_status ac = c_status bc \<and> c_reason ac = c_reason bc
              \<and> c_message ac = c_message bc
              \<and> c_observedGeneration ac = c_observedGeneration bc)
    \<longleftrightarrow> map_option cond_core m = Some (cond_core bc)"
  using assms by (cases m) (auto simp: cond_core_eq_iff)

lemma conditionsEqual_list_all:
  "conditionsEqualIgnoringTransition a b \<longleftrightarrow> length a = length b
     \<and> list_all (\<lambda>bc. map_option cond_core (index_by c_type a Map.empty (c_type bc))
                        = Some (cond_core bc)) b"
proof -
  have "\<And>bc ac. index_by c_type a Map.empty (c_type bc) = Some ac \<Longrightarrow> c_type ac = c_type bc"
    by (blast dest: index_by_empty_SomeD)
  from same_condition_iff[OF this] show ?thesis
    unfolding conditionsEqualIgnoringTransition_def Let_def by simp
qed

lemma index_by_core:
  assumes "distinct (map c_type a)"
  shows "map_option cond_core (index_by c_type a Map.empty ty) = Some c
    \<longleftrightarrow> c \<in> set (map cond_core a) \<and> c_type c = ty"
proof
  assume "map_option cond_core (index_by c_type a Map.empty ty) = Some c"
  then obtain x where x: "index_by c_type a Map.empty ty = Some x" "cond_core x = c" by auto
  from index_by_empty_SomeD[OF x(1)] x(2) show "c \<in> set (map cond_core a) \<and> c_type c = ty"
    by auto
next
  assume "c \<in> set (map cond_core a) \<and> c_type c = ty"
  then obtain x where x: "x \<in> set a" "c = cond_core x" "c_type x = ty"
    by (metis cond_core_simps(1) imageE list.set_map)
  from index_by_distinct[OF assms x(1), of Map.empty]
  show "map_option cond_core (index_by c_type a Map.empty ty) = Some c"
    unfolding x(2,3) by (simp only: option.map)
qed

text \<open>With one condition per type on both sides, order is the only freedom left.\<close>

lemma conditionsEqual_iff_set:
  assumes "distinct (map c_type a)" and "distinct (map c_type b)"
  shows "conditionsEqualIgnoringTransition a b
    \<longleftrightarrow> set (map cond_core a) = set (map cond_core b)"
proof -
  have da: "distinct (map cond_core a)" and db: "distinct (map cond_core b)"
    using assms by (simp_all add: distinct_map inj_on_def cond_core_eq_iff)
  have sub: "conditionsEqualIgnoringTransition a b
      \<longleftrightarrow> length a = length b \<and> set (map cond_core b) \<subseteq> set (map cond_core a)"
    unfolding conditionsEqual_list_all list_all_iff index_by_core[OF assms(1)] by auto
  have cards: "card (set (map cond_core a)) = length a" "card (set (map cond_core b)) = length b"
    using da db distinct_card by fastforce+
  show ?thesis
    unfolding sub
  proof
    assume "length a = length b \<and> set (map cond_core b) \<subseteq> set (map cond_core a)"
    then show "set (map cond_core a) = set (map cond_core b)"
      using card_subset_eq[of "set (map cond_core a)" "set (map cond_core b)"] cards by simp
  next
    assume "set (map cond_core a) = set (map cond_core b)"
    then show "length a = length b \<and> set (map cond_core b) \<subseteq> set (map cond_core a)"
      using cards by simp
  qed
qed

lemma conditionsEqual_same_core:
  assumes "distinct (map c_type a)" and "map cond_core a = map cond_core b"
  shows "conditionsEqualIgnoringTransition a b"
proof -
  have "map c_type b = map c_type a"
    using map_cond_core_types[of b] map_cond_core_types[of a] assms(2) by metis
  then have "distinct (map c_type b)" using assms(1) by simp
  then show ?thesis
    using assms conditionsEqual_iff_set by metis
qed

section \<open>Writing a status only when it changed\<close>

text \<open>
  Both reconcilers derive a desired status from what they observe and from the stored
  status, and send a patch only if the two differ. \<open>patches\<close> counts the patches of a run
  of reconciles in which every patch succeeds.
\<close>

fun patches :: "('obs \<Rightarrow> 'st \<Rightarrow> 'st) \<Rightarrow> ('st \<Rightarrow> 'st \<Rightarrow> bool) \<Rightarrow> 'obs list \<Rightarrow> 'st \<Rightarrow> nat" where
  "patches desired same [] st = 0"
| "patches desired same (ob # obs) st =
     (if same st (desired ob st) then patches desired same obs st
      else Suc (patches desired same obs (desired ob st)))"

text \<open>
  The contract: on acceptable stored statuses, observations that agree ask for the same
  status, up to the comparison. Then a world that has stopped changing costs one patch
  at most, however often it is reconciled.
\<close>

locale status_writer =
  fixes desired :: "'obs \<Rightarrow> 'st \<Rightarrow> 'st"
    and same :: "'st \<Rightarrow> 'st \<Rightarrow> bool"
    and agree :: "'obs \<Rightarrow> 'obs \<Rightarrow> bool"
    and stored_ok :: "'st \<Rightarrow> bool"
  assumes settles: "stored_ok st \<Longrightarrow> agree ob ob' \<Longrightarrow> same (desired ob st) (desired ob' (desired ob st))"
begin

lemma no_patch_after_write:
  "stored_ok st \<Longrightarrow> list_all (agree ob) obs \<Longrightarrow> patches desired same obs (desired ob st) = 0"
  by (induction obs) (auto simp: settles)

lemma at_most_one_patch:
  assumes "stored_ok st" and "\<And>x y. x \<in> set obs \<Longrightarrow> y \<in> set obs \<Longrightarrow> agree x y"
  shows "patches desired same obs st \<le> 1"
  using assms(2)
proof (induction obs)
  case Nil
  then show ?case by simp
next
  case (Cons ob obs)
  then have "patches desired same obs (desired ob st) = 0"
    by (intro no_patch_after_write[OF assms(1)]) (auto simp: list_all_iff)
  with Cons show ?case by auto
qed

end

end
