(* ===== verification/Poll_Tally.thy ===== *)
theory Poll_Tally
  imports Poll_Types
begin

text \<open>
  \<open>aggregateResults\<close> of \<open>internal/controller/poll_controller.go\<close>: one result row per
  question, two lookup maps of pointers into the rows, and the nested loops that
  increment \<open>int32\<close> counters through those pointers. A pointer to a row is its position in
  the slice, a pointer to an option the pair of positions. The second half gives the
  declarative tally and proves that the pointer code computes it.
\<close>

section \<open>The code\<close>

text \<open>The options a question gets result rows for.\<close>

definition talliedOptions :: "PollQuestion \<Rightarrow> string list" where
  "talliedOptions q =
     (if q_type q = QuestionTypeChoice
      then (case q_choice q of None \<Rightarrow> [] | Some c \<Rightarrow> cq_options c)
      else [])"

definition initResult :: "PollQuestion \<Rightarrow> QuestionResult" where
  "initResult q =
     \<lparr>qr_questionID = q_id q,
      qr_options = map (\<lambda>opt. \<lparr>opt_option = opt, opt_votes = 0\<rparr>) (talliedOptions q),
      qr_responses = 0\<rparr>"

type_synonym optionPtrs = "string \<rightharpoonup> nat \<times> nat"
type_synonym indices = "(string \<rightharpoonup> nat) \<times> (string \<rightharpoonup> optionPtrs)"

fun indexOptions :: "nat \<Rightarrow> nat \<Rightarrow> OptionResult list \<Rightarrow> optionPtrs \<Rightarrow> optionPtrs" where
  "indexOptions i j [] m = m"
| "indexOptions i j (opt # opts) m = indexOptions i (Suc j) opts (m(opt_option opt \<mapsto> (i, j)))"

fun buildIndices :: "nat \<Rightarrow> QuestionResult list \<Rightarrow> indices \<Rightarrow> indices" where
  "buildIndices i [] ix = ix"
| "buildIndices i (qr # qrs) (byID, optIdx) =
     buildIndices (Suc i) qrs
       (byID(qr_questionID qr \<mapsto> i),
        if 0 < length (qr_options qr)
        then optIdx(qr_questionID qr \<mapsto> indexOptions i 0 (qr_options qr) Map.empty)
        else optIdx)"

definition incResponses :: "nat \<Rightarrow> QuestionResult list \<Rightarrow> QuestionResult list" where
  "incResponses i results =
     results[i := (results ! i)\<lparr>qr_responses := qr_responses (results ! i) + 1\<rparr>]"

definition incVotes :: "nat \<times> nat \<Rightarrow> QuestionResult list \<Rightarrow> QuestionResult list" where
  "incVotes ptr results =
     (case ptr of (i, j) \<Rightarrow>
        let opts = qr_options (results ! i)
        in results[i := (results ! i)\<lparr>qr_options :=
             opts[j := (opts ! j)\<lparr>opt_votes := opt_votes (opts ! j) + 1\<rparr>]\<rparr>])"

fun tallySelections :: "optionPtrs \<Rightarrow> string list \<Rightarrow> QuestionResult list \<Rightarrow> QuestionResult list" where
  "tallySelections opts [] results = results"
| "tallySelections opts (sel # sels) results =
     tallySelections opts sels
       (case opts sel of None \<Rightarrow> results | Some ptr \<Rightarrow> incVotes ptr results)"

definition tallyAnswer :: "indices \<Rightarrow> PollAnswer \<Rightarrow> QuestionResult list \<Rightarrow> QuestionResult list" where
  "tallyAnswer ix ans results =
     (case fst ix (a_questionID ans) of
        None \<Rightarrow> results
      | Some i \<Rightarrow>
          let results = incResponses i results
          in case snd ix (a_questionID ans) of
               None \<Rightarrow> results
             | Some opts \<Rightarrow> tallySelections opts (a_selectedOptions ans) results)"

fun tallyAnswers :: "indices \<Rightarrow> PollAnswer list \<Rightarrow> QuestionResult list \<Rightarrow> QuestionResult list" where
  "tallyAnswers ix [] results = results"
| "tallyAnswers ix (ans # rest) results = tallyAnswers ix rest (tallyAnswer ix ans results)"

definition counted :: "Poll \<Rightarrow> PollResponse \<Rightarrow> bool" where
  "counted poll resp \<longleftrightarrow> rst_phase (r_status resp) = PollResponsePhaseAccepted
     \<and> ref_name (rs_pollRef (r_spec resp)) = m_name (p_meta poll)"

fun tallyResponses ::
    "Poll \<Rightarrow> indices \<Rightarrow> PollResponse list \<Rightarrow> QuestionResult list \<Rightarrow> int32 \<Rightarrow> QuestionResult list \<times> int32"
where
  "tallyResponses poll ix [] results totalResponses = (results, totalResponses)"
| "tallyResponses poll ix (resp # rest) results totalResponses =
     (if rst_phase (r_status resp) \<noteq> PollResponsePhaseAccepted
      then tallyResponses poll ix rest results totalResponses
      else if ref_name (rs_pollRef (r_spec resp)) \<noteq> m_name (p_meta poll)
      then tallyResponses poll ix rest results totalResponses
      else tallyResponses poll ix rest (tallyAnswers ix (rs_answers (r_spec resp)) results) (totalResponses + 1))"

definition aggregateResults :: "Poll \<Rightarrow> PollResponse list \<Rightarrow> QuestionResult list \<times> int32" where
  "aggregateResults poll responses =
     (let results = map initResult (ps_questions (p_spec poll));
          ix = buildIndices 0 results (Map.empty, Map.empty)
      in tallyResponses poll ix responses results 0)"

section \<open>The declarative tally\<close>

definition answersTo :: "string \<Rightarrow> PollAnswer list \<Rightarrow> PollAnswer list" where
  "answersTo qid answers = filter (\<lambda>a. a_questionID a = qid) answers"

definition selectionsFor :: "string \<Rightarrow> PollAnswer list \<Rightarrow> string list" where
  "selectionsFor qid answers = concat (map a_selectedOptions (answersTo qid answers))"

definition countedAnswers :: "Poll \<Rightarrow> PollResponse list \<Rightarrow> PollAnswer list" where
  "countedAnswers poll responses =
     concat (map (\<lambda>r. rs_answers (r_spec r)) (filter (counted poll) responses))"

definition specResult :: "PollAnswer list \<Rightarrow> PollQuestion \<Rightarrow> QuestionResult" where
  "specResult answers q =
     \<lparr>qr_questionID = q_id q,
      qr_options = map (\<lambda>opt. \<lparr>opt_option = opt,
          opt_votes = of_nat (count_list (selectionsFor (q_id q) answers) opt)\<rparr>) (talliedOptions q),
      qr_responses = of_nat (length (answersTo (q_id q) answers))\<rparr>"

section \<open>The indices point at the right rows\<close>

definition shape :: "QuestionResult list \<Rightarrow> (string \<times> string list) list" where
  "shape results = map (\<lambda>r. (qr_questionID r, map opt_option (qr_options r))) results"

lemma shape_simps [simp]:
  "shape [] = []"
  "shape (r # rs) = (qr_questionID r, map opt_option (qr_options r)) # shape rs"
  by (simp_all add: shape_def)

lemma shape_length: "shape rs = shape rs' \<Longrightarrow> length rs = length rs'"
  unfolding shape_def by (rule map_eq_imp_length_eq)

lemma indexOptions_cong:
  "map opt_option os = map opt_option os' \<Longrightarrow> indexOptions i j os m = indexOptions i j os' m"
proof (induction os arbitrary: os' j m)
  case Nil
  then show ?case by simp
next
  case (Cons a os)
  from Cons.prems obtain a' ot where os': "os' = a' # ot"
    and same: "opt_option a = opt_option a'" "map opt_option os = map opt_option ot"
    by (cases os') auto
  show ?case
    unfolding os' indexOptions.simps same(1) by (rule Cons.IH[OF same(2)])
qed

lemma buildIndices_cong:
  "shape rs = shape rs' \<Longrightarrow> buildIndices i rs ix = buildIndices i rs' ix"
proof (induction rs arbitrary: rs' i ix)
  case Nil
  then show ?case by (simp add: shape_def)
next
  case (Cons r rs)
  then obtain r' rt where rs': "rs' = r' # rt"
    by (cases rs') auto
  obtain byID optIdx where ix: "ix = (byID, optIdx)" by fastforce
  have same: "qr_questionID r = qr_questionID r'"
      "map opt_option (qr_options r) = map opt_option (qr_options r')" "shape rs = shape rt"
    using Cons.prems rs' by auto
  then have "length (qr_options r) = length (qr_options r')"
    by (metis length_map)
  then have step: "buildIndices i (r # rs) ix
      = buildIndices (Suc i) rs (byID(qr_questionID r' \<mapsto> i),
          if 0 < length (qr_options r')
          then optIdx(qr_questionID r' \<mapsto> indexOptions i 0 (qr_options r') Map.empty)
          else optIdx)"
    unfolding ix buildIndices.simps same(1) indexOptions_cong[OF same(2)] by simp
  have "buildIndices i rs' ix
      = buildIndices (Suc i) rt (byID(qr_questionID r' \<mapsto> i),
          if 0 < length (qr_options r')
          then optIdx(qr_questionID r' \<mapsto> indexOptions i 0 (qr_options r') Map.empty)
          else optIdx)"
    unfolding rs' ix by simp
  then show ?case by (simp only: step Cons.IH[OF same(3)])
qed

lemma indexOptions_notin:
  "s \<notin> opt_option ` set os \<Longrightarrow> indexOptions i j os m s = m s"
  by (induction os arbitrary: j m) auto

lemma indexOptions_nth:
  "distinct (map opt_option os) \<Longrightarrow> k < length os \<Longrightarrow>
   indexOptions i j os m (opt_option (os ! k)) = Some (i, j + k)"
proof (induction os arbitrary: j k m)
  case Nil
  then show ?case by simp
next
  case (Cons a os)
  show ?case
  proof (cases k)
    case 0
    with Cons.prems show ?thesis by (simp add: indexOptions_notin)
  next
    case (Suc k')
    with Cons.prems Cons.IH[of k' "Suc j"] show ?thesis by simp
  qed
qed

lemma buildIndices_notin:
  "qid \<notin> qr_questionID ` set rs \<Longrightarrow>
   fst (buildIndices i rs ix) qid = fst ix qid \<and> snd (buildIndices i rs ix) qid = snd ix qid"
proof (induction rs arbitrary: i ix)
  case Nil
  then show ?case by simp
next
  case (Cons r rs)
  then show ?case by (cases ix) auto
qed

lemma buildIndices_nth:
  "distinct (map qr_questionID rs) \<Longrightarrow> k < length rs \<Longrightarrow>
   snd ix (qr_questionID (rs ! k)) = None \<Longrightarrow>
   fst (buildIndices i rs ix) (qr_questionID (rs ! k)) = Some (i + k) \<and>
   snd (buildIndices i rs ix) (qr_questionID (rs ! k)) =
     (if qr_options (rs ! k) = [] then None
      else Some (indexOptions (i + k) 0 (qr_options (rs ! k)) Map.empty))"
proof (induction rs arbitrary: i k ix)
  case Nil
  then show ?case by simp
next
  case (Cons r rs)
  obtain byID optIdx where ix: "ix = (byID, optIdx)" by fastforce
  show ?case
  proof (cases k)
    case 0
    with Cons.prems show ?thesis
      by (auto simp: ix buildIndices_notin)
  next
    case (Suc k')
    then have "qr_questionID (rs ! k') \<noteq> qr_questionID r"
      using Cons.prems by (metis Suc_less_eq distinct.simps(2) image_eqI length_Cons list.set_map
          list.simps(9) nth_mem)
    with Suc Cons.prems Cons.IH[of k' "(byID(qr_questionID r \<mapsto> i),
        if 0 < length (qr_options r)
        then optIdx(qr_questionID r \<mapsto> indexOptions i 0 (qr_options r) Map.empty) else optIdx)" "Suc i"]
    show ?thesis by (simp add: ix)
  qed
qed

section \<open>One answer\<close>

definition addSelections :: "string list \<Rightarrow> QuestionResult \<Rightarrow> QuestionResult" where
  "addSelections sels r = r\<lparr>qr_options :=
     map (\<lambda>opt. opt\<lparr>opt_votes := opt_votes opt + of_nat (count_list sels (opt_option opt))\<rparr>)
       (qr_options r)\<rparr>"

definition addAnswer :: "PollAnswer \<Rightarrow> QuestionResult \<Rightarrow> QuestionResult" where
  "addAnswer ans r =
     (if qr_questionID r = a_questionID ans
      then addSelections (a_selectedOptions ans) (r\<lparr>qr_responses := qr_responses r + 1\<rparr>)
      else r)"

lemma addSelections_simps [simp]:
  "qr_questionID (addSelections sels r) = qr_questionID r"
  "qr_responses (addSelections sels r) = qr_responses r"
  "map opt_option (qr_options (addSelections sels r)) = map opt_option (qr_options r)"
  by (simp_all add: addSelections_def comp_def)

lemma addSelections_Nil [simp]: "addSelections [] r = r"
  by (simp add: addSelections_def)

lemma addSelections_Cons: "addSelections sels (addSelections [s] r) = addSelections (s # sels) r"
  by (simp add: addSelections_def comp_def add.assoc)

lemma addSelections_no_options: "qr_options r = [] \<Longrightarrow> addSelections sels r = r"
  by (simp add: addSelections_def)

lemma addSelections_unknown:
  "s \<notin> set (map opt_option (qr_options r)) \<Longrightarrow> addSelections [s] r = r"
  by (simp add: addSelections_def image_iff cong: map_cong)

lemma incVotes_eq:
  assumes "i < length rs" and "k < length (qr_options (rs ! i))"
    and "distinct (map opt_option (qr_options (rs ! i)))"
  shows "incVotes (i, k) rs = rs[i := addSelections [opt_option (qr_options (rs ! i) ! k)] (rs ! i)]"
proof -
  let ?os = "qr_options (rs ! i)"
  have "?os[k := (?os ! k)\<lparr>opt_votes := opt_votes (?os ! k) + 1\<rparr>]
      = map (\<lambda>opt. if opt_option opt = opt_option (?os ! k)
               then opt\<lparr>opt_votes := opt_votes opt + 1\<rparr> else opt) ?os"
    using list_update_eq_map_key[OF assms(3,2), of "\<lambda>opt. opt\<lparr>opt_votes := opt_votes opt + 1\<rparr>"] .
  also have "\<dots> = map (\<lambda>opt. opt\<lparr>opt_votes := opt_votes opt
               + of_nat (count_list [opt_option (?os ! k)] (opt_option opt))\<rparr>) ?os"
    by (rule map_cong) auto
  finally show ?thesis
    by (simp add: incVotes_def addSelections_def Let_def)
qed

text \<open>The votes of one answer, through the option pointers of its question.\<close>

lemma tallySelections_eq:
  assumes "i < length rs" and "distinct names" and "map opt_option (qr_options (rs ! i)) = names"
    and "\<And>k. k < length names \<Longrightarrow> opts (names ! k) = Some (i, k)"
    and "\<And>s. s \<notin> set names \<Longrightarrow> opts s = None"
  shows "tallySelections opts sels rs = rs[i := addSelections sels (rs ! i)]"
  using assms(1,3)
proof (induction sels arbitrary: rs)
  case Nil
  then show ?case by simp
next
  case (Cons s sels)
  let ?rs' = "rs[i := addSelections [s] (rs ! i)]"
  have step: "(case opts s of None \<Rightarrow> rs | Some ptr \<Rightarrow> incVotes ptr rs) = ?rs'"
  proof (cases "s \<in> set names")
    case True
    then obtain k where k: "k < length names" "names ! k = s"
      by (auto simp: in_set_conv_nth)
    have len: "k < length (qr_options (rs ! i))"
      using k(1) Cons.prems(2) by (metis length_map)
    then have "opt_option (qr_options (rs ! i) ! k) = s"
      using k(2) Cons.prems(2) by (metis nth_map)
    moreover have "distinct (map opt_option (qr_options (rs ! i)))"
      using Cons.prems(2) assms(2) by simp
    ultimately show ?thesis
      using incVotes_eq[OF Cons.prems(1) len] assms(4)[OF k(1)] k(2) by simp
  next
    case False
    then show ?thesis
      using assms(5) Cons.prems addSelections_unknown[of s "rs ! i"] by simp
  qed
  have "tallySelections opts sels ?rs' = ?rs'[i := addSelections sels (?rs' ! i)]"
    using Cons.prems by (intro Cons.IH) simp_all
  then show ?case
    using Cons.prems(1) by (simp add: step addSelections_Cons)
qed

definition wf_rows :: "QuestionResult list \<Rightarrow> bool" where
  "wf_rows rs \<longleftrightarrow> distinct (map fst (shape rs)) \<and> list_all (\<lambda>x. distinct (snd x)) (shape rs)"

lemma wf_rowsD:
  assumes "wf_rows rs"
  shows "distinct (map qr_questionID rs)"
    and "k < length rs \<Longrightarrow> distinct (map opt_option (qr_options (rs ! k)))"
  using assms by (auto simp: wf_rows_def shape_def comp_def list_all_length)

lemma tallyAnswer_eq:
  assumes wf: "wf_rows rs"
  shows "tallyAnswer (buildIndices 0 rs (Map.empty, Map.empty)) ans rs = map (addAnswer ans) rs"
proof (cases "a_questionID ans \<in> qr_questionID ` set rs")
  case False
  then have "qr_questionID r \<noteq> a_questionID ans" if "r \<in> set rs" for r
    using that by (metis imageI)
  then have "map (addAnswer ans) rs = rs"
    by (intro map_idI) (simp add: addAnswer_def)
  with False show ?thesis
    using buildIndices_notin[OF False, of 0 "(Map.empty, Map.empty)"] by (simp add: tallyAnswer_def)
next
  case True
  let ?ix = "buildIndices 0 rs (Map.empty, Map.empty)"
  from True obtain k where k: "k < length rs" "qr_questionID (rs ! k) = a_questionID ans"
    by (metis imageE in_set_conv_nth)
  let ?r = "rs ! k" and ?f = "\<lambda>r. addSelections (a_selectedOptions ans) (r\<lparr>qr_responses := qr_responses r + 1\<rparr>)"
  let ?rs' = "incResponses k rs"
  have row: "?rs' ! k = ?r\<lparr>qr_responses := qr_responses ?r + 1\<rparr>" and len: "k < length ?rs'"
    using k by (simp_all add: incResponses_def)
  have ids: "fst ?ix (a_questionID ans) = Some k"
    and ptrs: "snd ?ix (a_questionID ans) =
      (if qr_options ?r = [] then None else Some (indexOptions k 0 (qr_options ?r) Map.empty))"
    using buildIndices_nth[OF wf_rowsD(1)[OF wf] k(1), of "(Map.empty, Map.empty)" 0] k(2) by auto
  have "tallyAnswer ?ix ans rs = rs[k := ?f ?r]"
  proof (cases "qr_options ?r = []")
    case True
    then show ?thesis
      by (simp add: tallyAnswer_def ids ptrs incResponses_def addSelections_no_options)
  next
    case False
    let ?names = "map opt_option (qr_options ?r)"
    let ?opts = "indexOptions k 0 (qr_options ?r) Map.empty"
    have "tallySelections ?opts (a_selectedOptions ans) ?rs'
        = ?rs'[k := addSelections (a_selectedOptions ans) (?rs' ! k)]"
    proof (rule tallySelections_eq[OF len wf_rowsD(2)[OF wf k(1)]])
      show "map opt_option (qr_options (?rs' ! k)) = ?names" by (simp add: row)
      show "?opts (?names ! j) = Some (k, j)" if "j < length ?names" for j
        using that indexOptions_nth[OF wf_rowsD(2)[OF wf k(1)], of j k 0 Map.empty] by simp
      show "?opts s = None" if "s \<notin> set ?names" for s
        using that indexOptions_notin[of s "qr_options ?r" k 0 Map.empty] by simp
    qed
    with False show ?thesis
      unfolding row by (simp add: tallyAnswer_def ids ptrs incResponses_def)
  qed
  also have "\<dots> = map (addAnswer ans) rs"
    using list_update_eq_map_key[OF wf_rowsD(1)[OF wf] k(1), of ?f]
    unfolding k(2) by (simp add: addAnswer_def[abs_def])
  finally show ?thesis .
qed

section \<open>All answers\<close>

definition addAnswers :: "PollAnswer list \<Rightarrow> QuestionResult \<Rightarrow> QuestionResult" where
  "addAnswers answers r = r
     \<lparr>qr_options := map (\<lambda>opt. opt\<lparr>opt_votes := opt_votes opt
          + of_nat (count_list (selectionsFor (qr_questionID r) answers) (opt_option opt))\<rparr>)
          (qr_options r),
      qr_responses := qr_responses r + of_nat (length (answersTo (qr_questionID r) answers))\<rparr>"

lemma answersTo_simps [simp]:
  "answersTo qid [] = []"
  "answersTo qid (a # as) = (if a_questionID a = qid then a # answersTo qid as else answersTo qid as)"
  "answersTo qid (as @ bs) = answersTo qid as @ answersTo qid bs"
  by (simp_all add: answersTo_def)

lemma selectionsFor_simps [simp]:
  "selectionsFor qid [] = []"
  "selectionsFor qid (a # as) =
     (if a_questionID a = qid then a_selectedOptions a @ selectionsFor qid as else selectionsFor qid as)"
  "selectionsFor qid (as @ bs) = selectionsFor qid as @ selectionsFor qid bs"
  by (simp_all add: selectionsFor_def)

lemma addAnswers_Nil [simp]: "addAnswers [] r = r"
  by (simp add: addAnswers_def)

lemma addAnswers_id [simp]: "qr_questionID (addAnswers answers r) = qr_questionID r"
  by (simp add: addAnswers_def)

lemma addAnswers_append: "addAnswers bs (addAnswers as r) = addAnswers (as @ bs) r"
  by (simp add: addAnswers_def comp_def add.assoc)

lemma addAnswers_Cons: "addAnswers as (addAnswer a r) = addAnswers (a # as) r"
proof -
  have "addAnswer a r = addAnswers [a] r"
    by (auto simp: addAnswer_def addAnswers_def addSelections_def)
  then show ?thesis by (simp add: addAnswers_append)
qed

lemma shape_map_addAnswer [simp]: "shape (map (addAnswer a) rs) = shape rs"
  by (auto simp: shape_def addAnswer_def)

lemma shape_map_addAnswers [simp]: "shape (map (addAnswers as) rs) = shape rs"
  by (auto simp: shape_def addAnswers_def comp_def)

lemma tallyAnswers_eq:
  assumes "wf_rows rs0" and "shape rs = shape rs0"
  shows "tallyAnswers (buildIndices 0 rs0 (Map.empty, Map.empty)) answers rs
    = map (addAnswers answers) rs"
  using assms(2)
proof (induction answers arbitrary: rs)
  case Nil
  then show ?case by (simp add: map_idI)
next
  case (Cons a as)
  have "wf_rows rs" using assms(1) Cons.prems by (simp add: wf_rows_def)
  then have "tallyAnswer (buildIndices 0 rs0 (Map.empty, Map.empty)) a rs = map (addAnswer a) rs"
    unfolding buildIndices_cong[OF Cons.prems, symmetric] by (rule tallyAnswer_eq)
  then show ?case
    using Cons.IH[of "map (addAnswer a) rs"] Cons.prems by (simp add: addAnswers_Cons)
qed

lemma countedAnswers_simps [simp]:
  "countedAnswers poll [] = []"
  "countedAnswers poll (r # rs) =
     (if counted poll r then rs_answers (r_spec r) @ countedAnswers poll rs else countedAnswers poll rs)"
  by (simp_all add: countedAnswers_def)

lemma tallyResponses_eq:
  assumes "wf_rows rs0" and "shape rs = shape rs0"
  shows "tallyResponses poll (buildIndices 0 rs0 (Map.empty, Map.empty)) responses rs n
    = (map (addAnswers (countedAnswers poll responses)) rs,
       n + of_nat (length (filter (counted poll) responses)))"
  using assms(2)
proof (induction responses arbitrary: rs n)
  case Nil
  then show ?case by (simp add: map_idI)
next
  case (Cons r responses)
  let ?ix = "buildIndices 0 rs0 (Map.empty, Map.empty)"
  show ?case
  proof (cases "counted poll r")
    case True
    let ?rs' = "map (addAnswers (rs_answers (r_spec r))) rs"
    have "tallyResponses poll ?ix (r # responses) rs n = tallyResponses poll ?ix responses ?rs' (n + 1)"
      using True tallyAnswers_eq[OF assms(1) Cons.prems] by (simp add: counted_def)
    then show ?thesis
      using True Cons.IH[of ?rs' "n + 1"] Cons.prems by (simp add: addAnswers_append add.assoc)
  next
    case False
    then have "tallyResponses poll ?ix (r # responses) rs n = tallyResponses poll ?ix responses rs n"
      by (auto simp: counted_def)
    with False show ?thesis using Cons.IH[OF Cons.prems, of n] by simp
  qed
qed

lemma talliedOptions_distinct: "distinct (question_options q) \<Longrightarrow> distinct (talliedOptions q)"
  by (simp add: talliedOptions_def question_options_def split: option.splits)

lemma wf_rows_init: "wf_questions qs \<Longrightarrow> wf_rows (map initResult qs)"
  by (simp add: wf_rows_def wf_questions_def shape_def initResult_def comp_def list_all_iff
      talliedOptions_distinct)

lemma addAnswers_initResult: "addAnswers answers (initResult q) = specResult answers q"
  by (simp add: addAnswers_def initResult_def specResult_def comp_def)

lemma aggregateResults_eq:
  assumes "wf_questions (ps_questions (p_spec poll))"
  shows "aggregateResults poll responses
    = (map (specResult (countedAnswers poll responses)) (ps_questions (p_spec poll)),
       of_nat (length (filter (counted poll) responses)))"
  using tallyResponses_eq[OF wf_rows_init[OF assms] refl, of poll responses 0]
  by (simp add: aggregateResults_def Let_def addAnswers_initResult comp_def)

section \<open>Consequences for the counts\<close>

lemma sum_votes_selections:
  assumes "distinct opts" and "set sels \<subseteq> set opts"
  shows "sum_list (map (\<lambda>opt. of_nat (count_list sels opt) :: int32) opts) = of_nat (length sels)"
  using sum_count_list_distinct[OF assms] by (simp add: sum_list_of_nat_word)

lemma length_selections_single:
  assumes "\<forall>a \<in> set (answersTo qid answers). length (a_selectedOptions a) = 1"
  shows "length (selectionsFor qid answers) = length (answersTo qid answers)"
  using assms by (induction answers) (auto split: if_splits)

lemma count_selections_le:
  assumes "\<forall>a \<in> set (answersTo qid answers). distinct (a_selectedOptions a)"
  shows "count_list (selectionsFor qid answers) opt \<le> length (answersTo qid answers)"
  using assms
proof (induction answers)
  case Nil
  then show ?case by simp
next
  case (Cons a as)
  show ?case
  proof (cases "a_questionID a = qid")
    case True
    then have "count_list (a_selectedOptions a) opt \<le> 1"
      using Cons.prems by (simp add: count_list_distinct)
    with True Cons show ?thesis by simp
  next
    case False
    with Cons show ?thesis by simp
  qed
qed

lemma set_selections_subset:
  assumes "\<forall>a \<in> set (answersTo qid answers). set (a_selectedOptions a) \<subseteq> S"
  shows "set (selectionsFor qid answers) \<subseteq> S"
  using assms by (auto simp: selectionsFor_def)

lemma answersTo_countedAnswers:
  "a \<in> set (answersTo qid (countedAnswers poll responses)) \<longleftrightarrow>
   (\<exists>r \<in> set responses. counted poll r \<and> a \<in> set (rs_answers (r_spec r)) \<and> a_questionID a = qid)"
  by (auto simp: answersTo_def countedAnswers_def)

text \<open>Without uniqueness of ids or options the rows still are the questions, in order.\<close>

lemma shape_incResponses [simp]: "shape (incResponses i rs) = shape rs"
  unfolding incResponses_def shape_def by (rule map_list_update_same) simp

lemma shape_incVotes [simp]: "shape (incVotes p rs) = shape rs"
proof (cases p)
  case (Pair i j)
  show ?thesis
    unfolding Pair incVotes_def shape_def Let_def prod.case
    by (rule map_list_update_same) (simp add: map_list_update_same)
qed

lemma shape_tallySelections [simp]: "shape (tallySelections opts sels rs) = shape rs"
  by (induction sels arbitrary: rs) (simp_all split: option.splits)

lemma shape_tallyAnswer [simp]: "shape (tallyAnswer ix ans rs) = shape rs"
  by (simp add: tallyAnswer_def Let_def split: option.splits)

lemma shape_tallyAnswers [simp]: "shape (tallyAnswers ix answers rs) = shape rs"
  by (induction answers arbitrary: rs) simp_all

lemma tallyResponses_shape_total:
  "shape (fst (tallyResponses poll ix responses rs n)) = shape rs
   \<and> snd (tallyResponses poll ix responses rs n) = n + of_nat (length (filter (counted poll) responses))"
proof (induction responses arbitrary: rs n)
  case Nil
  then show ?case by simp
next
  case (Cons r responses)
  show ?case
  proof (cases "counted poll r")
    case True
    then show ?thesis
      using Cons.IH[of "tallyAnswers ix (rs_answers (r_spec r)) rs" "n + 1"]
      by (simp add: counted_def add.assoc)
  next
    case False
    then show ?thesis using Cons.IH[of rs n] by (auto simp: counted_def)
  qed
qed

lemma shape_initResult:
  "shape (map initResult qs) = map (\<lambda>q. (q_id q, talliedOptions q)) qs"
  by (simp add: shape_def initResult_def comp_def)

lemma aggregateResults_shape:
  "shape (fst (aggregateResults poll responses))
     = map (\<lambda>q. (q_id q, talliedOptions q)) (ps_questions (p_spec poll))"
  by (simp add: aggregateResults_def Let_def tallyResponses_shape_total shape_initResult)

lemma aggregateResults_total:
  "snd (aggregateResults poll responses) = of_nat (length (filter (counted poll) responses))"
  by (simp add: aggregateResults_def Let_def tallyResponses_shape_total)

end
