(* ===== verification/Poll_Lifecycle.thy ===== *)
theory Poll_Lifecycle
  imports Poll_Types
begin

text \<open>
  \<open>computePhase\<close> of \<open>internal/controller/poll_controller.go\<close> and the life of a Poll's
  status under repeated reconciliation: a step relation whose steps are calls of
  \<open>computePhase\<close> at non-decreasing clock readings, with the Poll's spec free to change
  between them.
\<close>

section \<open>The code\<close>

definition computePhase :: "Poll \<Rightarrow> PollStatus \<Rightarrow> gotime \<Rightarrow> PollPhase \<times> PollStatus" where
  "computePhase poll status now =
     (if (case ps_closesAt (p_spec poll) of None \<Rightarrow> False | Some t \<Rightarrow> \<not> time_Before now t)
      then let status = (if st_closedAt status = None
                         then status\<lparr>st_closedAt := Some now\<rparr> else status);
               status = (if st_openedAt status = None
                         then status\<lparr>st_openedAt := st_closedAt status\<rparr> else status)
           in (PollPhaseClosed, status)
      else let status = (if st_openedAt status = None
                         then status\<lparr>st_openedAt := Some now\<rparr> else status);
               status = status\<lparr>st_closedAt := None\<rparr>
           in (PollPhaseOpen, status))"

text \<open>The Poll's closing time has passed.\<close>

definition pollClosed :: "Poll \<Rightarrow> gotime \<Rightarrow> bool" where
  "pollClosed poll now \<longleftrightarrow>
     (case ps_closesAt (p_spec poll) of None \<Rightarrow> False | Some t \<Rightarrow> unixNano t \<le> unixNano now)"

lemma not_before_iff: "\<not> time_Before now t \<longleftrightarrow> unixNano t \<le> unixNano now"
  by (auto simp: time_Before_def)

lemma closed_guard [simp]:
  "(case ps_closesAt (p_spec poll) of None \<Rightarrow> False | Some t \<Rightarrow> \<not> time_Before now t)
     = pollClosed poll now"
  by (simp add: pollClosed_def not_before_iff split: option.splits)

lemma computePhase_phase:
  "fst (computePhase poll status now) = (if pollClosed poll now then PollPhaseClosed else PollPhaseOpen)"
  by (simp add: computePhase_def Let_def)

lemma computePhase_openedAt:
  "st_openedAt (snd (computePhase poll status now)) =
     (case st_openedAt status of
        Some t \<Rightarrow> Some t
      | None \<Rightarrow> if pollClosed poll now \<and> st_closedAt status \<noteq> None then st_closedAt status else Some now)"
  by (auto simp: computePhase_def Let_def split: option.splits)

lemma computePhase_closedAt:
  "st_closedAt (snd (computePhase poll status now)) =
     (if pollClosed poll now
      then (case st_closedAt status of None \<Rightarrow> Some now | Some t \<Rightarrow> Some t) else None)"
  by (auto simp: computePhase_def Let_def split: option.splits)

lemma computePhase_frame:
  "st_conditions (snd (computePhase poll status now)) = st_conditions status"
  "st_phase (snd (computePhase poll status now)) = st_phase status"
  "st_results (snd (computePhase poll status now)) = st_results status"
  "st_totalResponses (snd (computePhase poll status now)) = st_totalResponses status"
  by (auto simp: computePhase_def Let_def)

lemmas computePhase_fields =
  computePhase_phase computePhase_openedAt computePhase_closedAt computePhase_frame

section \<open>A Poll over time\<close>

text \<open>
  A configuration is the stored status and the last clock reading. Each reconcile sees
  some spec of the Poll (users may move or drop \<open>closesAt\<close>) and a clock that has not gone
  back, and stores the phase with the timestamps.
\<close>

inductive lifecycle_step :: "PollStatus \<times> gotime \<Rightarrow> PollStatus \<times> gotime \<Rightarrow> bool" where
  observe: "unixNano t \<le> unixNano now \<Longrightarrow> computePhase poll st now = (phase, st') \<Longrightarrow>
    lifecycle_step (st, t) (st'\<lparr>st_phase := phase\<rparr>, now)"

inductive_cases lifecycle_stepE: "lifecycle_step (st, t) c"

text \<open>The status of a Poll that was just created.\<close>

definition fresh_status :: PollStatus where
  "fresh_status = \<lparr>st_conditions = [], st_phase = '''', st_openedAt = None, st_closedAt = None,
     st_results = [], st_totalResponses = 0\<rparr>"

inductive lifecycle_reachable :: "PollStatus \<times> gotime \<Rightarrow> bool" where
  created: "lifecycle_reachable (fresh_status, t)"
| step: "lifecycle_reachable c \<Longrightarrow> lifecycle_step c d \<Longrightarrow> lifecycle_reachable d"

definition lifecycle_inv :: "PollStatus \<times> gotime \<Rightarrow> bool" where
  "lifecycle_inv c \<longleftrightarrow> (case c of (st, t) \<Rightarrow>
     (st_phase st = '''' \<and> st_openedAt st = None \<and> st_closedAt st = None)
   \<or> (st_phase st = PollPhaseOpen \<and> st_closedAt st = None
        \<and> (\<exists>o'. st_openedAt st = Some o' \<and> unixNano o' \<le> unixNano t))
   \<or> (st_phase st = PollPhaseClosed
        \<and> (\<exists>o' c'. st_openedAt st = Some o' \<and> st_closedAt st = Some c'
             \<and> unixNano o' \<le> unixNano c' \<and> unixNano c' \<le> unixNano t)))"

lemma lifecycle_step_inv:
  assumes "lifecycle_step c d" and "lifecycle_inv c"
  shows "lifecycle_inv d"
  using assms
proof (induction rule: lifecycle_step.induct)
  case (observe t now poll st phase st')
  have ph: "phase = (if pollClosed poll now then PollPhaseClosed else PollPhaseOpen)"
    and st': "st' = snd (computePhase poll st now)"
    using computePhase_phase[of poll st now] observe.hyps(2) by simp_all
  show ?case
    using observe.hyps(1) observe.prems
    by (cases "st_openedAt st"; cases "st_closedAt st"; cases "pollClosed poll now")
      (auto simp: lifecycle_inv_def ph st' computePhase_fields)
qed

lemma lifecycle_reachable_inv: "lifecycle_reachable c \<Longrightarrow> lifecycle_inv c"
proof (induction rule: lifecycle_reachable.induct)
  case (created t)
  then show ?case by (simp add: lifecycle_inv_def fresh_status_def)
next
  case (step c d)
  then show ?case by (blast intro: lifecycle_step_inv)
qed

lemma lifecycle_step_openedAt:
  assumes "lifecycle_step (st, t) (st', t')" and "st_openedAt st = Some o'"
  shows "st_openedAt st' = Some o'"
proof -
  from assms(1) obtain poll phase st'' where step: "computePhase poll st t' = (phase, st'')"
    "st' = st''\<lparr>st_phase := phase\<rparr>"
    by (elim lifecycle_stepE) auto
  have "st'' = snd (computePhase poll st t')"
    using step(1) by simp
  then show ?thesis
    using assms(2) by (simp add: step(2) computePhase_openedAt)
qed

lemma lifecycle_steps_openedAt:
  assumes "lifecycle_step\<^sup>*\<^sup>* c d" and "st_openedAt (fst c) = Some o'"
  shows "st_openedAt (fst d) = Some o'"
  using assms
proof (induction rule: rtranclp_induct)
  case base
  then show ?case .
next
  case (step d e)
  then show ?case
    by (cases d; cases e) (auto intro: lifecycle_step_openedAt)
qed

text \<open>A second call at a later time changes nothing unless the phase does.\<close>

lemma computePhase_noop:
  assumes "st_openedAt st \<noteq> None" and "pollClosed poll now \<longleftrightarrow> st_closedAt st \<noteq> None"
  shows "snd (computePhase poll st now) = st"
  using assms by (cases st) (auto simp: computePhase_def Let_def)

lemma computePhase_stable:
  assumes "pollClosed poll now' = pollClosed poll now"
  shows "snd (computePhase poll (snd (computePhase poll st now)) now') = snd (computePhase poll st now)"
  using assms
  by (intro computePhase_noop) (auto simp: computePhase_fields split: option.splits)

end
