(* ===== verification/Poll_Status.thy ===== *)
theory Poll_Status
  imports Status_Compare Poll_Tally Poll_Lifecycle
begin

text \<open>
  The rest of the status computation in \<open>internal/controller/poll_controller.go\<close>: the
  Ready condition and \<open>statusEqual\<close>, which decides whether a patch is sent. The key
  lemmas say what equality the comparison decides and that a status computed from an
  unchanged world compares equal to itself.
\<close>

section \<open>The Ready condition\<close>

definition pollReadyCondition :: string where
  "pollReadyCondition = ''Ready''"

definition readyCondition :: "PollPhase \<Rightarrow> int64 \<Rightarrow> gotime \<Rightarrow> condition" where
  "readyCondition phase generation t =
     (let cond = \<lparr>c_type = pollReadyCondition, c_status = '''',
                  c_observedGeneration = generation, c_lastTransitionTime = Some t,
                  c_reason = '''', c_message = ''''\<rparr>
      in if phase = PollPhaseOpen
         then cond\<lparr>c_status := ConditionTrue, c_reason := ''Open'',
                   c_message := ''Poll is accepting responses''\<rparr>
         else if phase = PollPhaseClosed
         then cond\<lparr>c_status := ConditionFalse, c_reason := ''Closed'',
                   c_message := ''Poll is no longer accepting responses''\<rparr>
         else cond\<lparr>c_status := ConditionUnknown, c_reason := ''Pending'',
                   c_message := ''Poll has not yet been opened''\<rparr>)"

definition setReadyCondition ::
    "(gotime \<Rightarrow> condition \<Rightarrow> condition list \<Rightarrow> condition list) \<Rightarrow>
     PollStatus \<Rightarrow> PollPhase \<Rightarrow> int64 \<Rightarrow> gotime \<Rightarrow> PollStatus" where
  "setReadyCondition ssc status phase generation t =
     status\<lparr>st_conditions := ssc t (readyCondition phase generation t) (st_conditions status)\<rparr>"

lemma readyCondition_type [simp]: "c_type (readyCondition phase gen t) = pollReadyCondition"
  by (simp add: readyCondition_def Let_def)

lemma readyCondition_core:
  "cond_core (readyCondition phase gen t) = cond_core (readyCondition phase gen u)"
  by (simp add: readyCondition_def Let_def cond_core_def)

section \<open>Comparing two statuses\<close>

definition resultEqual :: "QuestionResult \<Rightarrow> QuestionResult \<Rightarrow> bool" where
  "resultEqual ar br \<longleftrightarrow>
     (if qr_responses ar \<noteq> qr_responses br \<or> length (qr_options ar) \<noteq> length (qr_options br)
      then False
      else let aOpts = index_by opt_option (qr_options ar) Map.empty
           in list_all (\<lambda>bo. (case aOpts (opt_option bo) of None \<Rightarrow> 0 | Some ao \<Rightarrow> opt_votes ao)
                             = opt_votes bo) (qr_options br))"

definition statusEqual :: "PollStatus \<Rightarrow> PollStatus \<Rightarrow> bool" where
  "statusEqual a b \<longleftrightarrow>
     (if st_phase a \<noteq> st_phase b \<or> st_totalResponses a \<noteq> st_totalResponses b
         \<or> \<not> timePtrEqual (st_openedAt a) (st_openedAt b)
         \<or> \<not> timePtrEqual (st_closedAt a) (st_closedAt b)
      then False
      else if length (st_results a) \<noteq> length (st_results b) then False
      else let aByID = index_by qr_questionID (st_results a) Map.empty
           in if \<not> list_all (\<lambda>br. case aByID (qr_questionID br) of
                                None \<Rightarrow> False | Some ar \<Rightarrow> resultEqual ar br) (st_results b)
              then False
              else conditionsEqualIgnoringTransition (st_conditions a) (st_conditions b))"

section \<open>What \<open>statusEqual\<close> accepts\<close>

lemma resultEqual_refl:
  assumes "distinct (map opt_option (qr_options r))"
  shows "resultEqual r r"
  using index_by_distinct[OF assms, of _ Map.empty]
  by (simp add: resultEqual_def list_all_iff)

text \<open>Every vote the new row reports is in the old one; only options without votes can differ.\<close>

lemma resultEqual_votes:
  assumes "resultEqual ar br" and "bo \<in> set (qr_options br)" and "opt_votes bo \<noteq> 0"
  shows "bo \<in> set (qr_options ar)"
proof -
  let ?ao = "index_by opt_option (qr_options ar) Map.empty (opt_option bo)"
  have "(case ?ao of None \<Rightarrow> 0 | Some ao \<Rightarrow> opt_votes ao) = opt_votes bo"
    using assms(1,2) by (auto simp: resultEqual_def Let_def list_all_iff split: if_splits)
  with assms(3) obtain ao where ao: "?ao = Some ao" "opt_votes ao = opt_votes bo"
    by (cases ?ao) auto
  from index_by_empty_SomeD[OF ao(1)] ao(2) show ?thesis
    by (metis (full_types) OptionResult.equality unit.exhaust)
qed

lemma statusEqual_fields:
  assumes "statusEqual a b"
  shows "st_phase a = st_phase b" and "st_totalResponses a = st_totalResponses b"
    and "timePtrEqual (st_openedAt a) (st_openedAt b)"
    and "timePtrEqual (st_closedAt a) (st_closedAt b)"
    and "length (st_results a) = length (st_results b)"
    and "conditionsEqualIgnoringTransition (st_conditions a) (st_conditions b)"
  using assms by (auto simp: statusEqual_def Let_def split: if_splits)

lemma statusEqual_results:
  assumes "statusEqual a b" and "br \<in> set (st_results b)"
  shows "\<exists>ar \<in> set (st_results a). qr_questionID ar = qr_questionID br \<and> resultEqual ar br"
proof -
  let ?ar = "index_by qr_questionID (st_results a) Map.empty (qr_questionID br)"
  have "case ?ar of None \<Rightarrow> False | Some ar \<Rightarrow> resultEqual ar br"
    using assms by (auto simp: statusEqual_def Let_def list_all_iff split: if_splits)
  then obtain ar where "?ar = Some ar" "resultEqual ar br"
    by (cases ?ar) auto
  then show ?thesis by (blast dest: index_by_empty_SomeD)
qed

lemma statusEqual_same_rows:
  assumes "st_phase a = st_phase b" and "st_totalResponses a = st_totalResponses b"
    and "st_openedAt a = st_openedAt b" and "st_closedAt a = st_closedAt b"
    and "st_results a = st_results b" and "wf_rows (st_results b)"
    and "conditionsEqualIgnoringTransition (st_conditions a) (st_conditions b)"
  shows "statusEqual a b"
proof -
  have "index_by qr_questionID (st_results b) Map.empty (qr_questionID r) = Some r \<and> resultEqual r r"
    if r: "r \<in> set (st_results b)" for r
  proof -
    from r obtain k where "k < length (st_results b)" "st_results b ! k = r"
      by (auto simp: in_set_conv_nth)
    then have "distinct (map opt_option (qr_options r))"
      using wf_rowsD(2)[OF assms(6)] by blast
    then show ?thesis
      using index_by_distinct[OF wf_rowsD(1)[OF assms(6)] r] resultEqual_refl by blast
  qed
  then show ?thesis
    using assms by (simp add: statusEqual_def Let_def list_all_iff)
qed

section \<open>The status a reconcile wants\<close>

text \<open>Serialising a status may round its times and nothing else.\<close>

definition same_poll_status :: "PollStatus \<Rightarrow> PollStatus \<Rightarrow> bool" where
  "same_poll_status a b \<longleftrightarrow> st_phase a = st_phase b
     \<and> (st_openedAt a = None \<longleftrightarrow> st_openedAt b = None)
     \<and> (st_closedAt a = None \<longleftrightarrow> st_closedAt b = None)
     \<and> st_results a = st_results b \<and> st_totalResponses a = st_totalResponses b
     \<and> map cond_core (st_conditions a) = map cond_core (st_conditions b)"

lemma same_poll_status_refl [simp]: "same_poll_status st st"
  by (simp add: same_poll_status_def)

definition desiredPollStatus ::
    "(gotime \<Rightarrow> condition \<Rightarrow> condition list \<Rightarrow> condition list) \<Rightarrow>
     Poll \<Rightarrow> PollResponse list \<Rightarrow> gotime \<Rightarrow> gotime \<Rightarrow> PollStatus" where
  "desiredPollStatus ssc poll responses now t =
     (case computePhase poll (p_status poll) now of (phase, desired) \<Rightarrow>
      case aggregateResults poll responses of (results, totalResponses) \<Rightarrow>
        setReadyCondition ssc
          (desired\<lparr>st_phase := phase, st_results := results, st_totalResponses := totalResponses\<rparr>)
          phase (m_generation (p_meta poll)) t)"

lemma desiredPollStatus_fields:
  "st_phase (desiredPollStatus ssc poll responses now t) = fst (computePhase poll (p_status poll) now)"
  "st_openedAt (desiredPollStatus ssc poll responses now t)
     = st_openedAt (snd (computePhase poll (p_status poll) now))"
  "st_closedAt (desiredPollStatus ssc poll responses now t)
     = st_closedAt (snd (computePhase poll (p_status poll) now))"
  "st_results (desiredPollStatus ssc poll responses now t) = fst (aggregateResults poll responses)"
  "st_totalResponses (desiredPollStatus ssc poll responses now t) = snd (aggregateResults poll responses)"
  "st_conditions (desiredPollStatus ssc poll responses now t)
     = ssc t (readyCondition (fst (computePhase poll (p_status poll) now)) (m_generation (p_meta poll)) t)
         (st_conditions (p_status poll))"
  by (simp_all add: desiredPollStatus_def setReadyCondition_def computePhase_frame split: prod.splits)
    (metis computePhase_frame(1) snd_conv)

lemma aggregateResults_status [simp]:
  "aggregateResults (poll\<lparr>p_status := st\<rparr>) responses = aggregateResults poll responses"
proof -
  have "counted (poll\<lparr>p_status := st\<rparr>) = counted poll"
    by (simp add: counted_def fun_eq_iff)
  have "tallyResponses (poll\<lparr>p_status := st\<rparr>) ix rs results n = tallyResponses poll ix rs results n"
    for ix rs results n
    by (induction rs arbitrary: results n) simp_all
  then show ?thesis by (simp add: aggregateResults_def)
qed

lemma pollClosed_status [simp]: "pollClosed (poll\<lparr>p_status := st\<rparr>) now = pollClosed poll now"
  by (simp add: pollClosed_def)

lemma computePhase_status [simp]:
  "computePhase (poll\<lparr>p_status := st'\<rparr>) st now = computePhase poll st now"
  by (simp add: computePhase_def)

lemma wf_rows_aggregate:
  assumes "wf_questions (ps_questions (p_spec poll))"
  shows "wf_rows (fst (aggregateResults poll responses))"
proof -
  have "shape (fst (aggregateResults poll responses)) = shape (map initResult (ps_questions (p_spec poll)))"
    by (simp add: aggregateResults_shape shape_initResult)
  then show ?thesis
    using wf_rows_init[OF assms] by (simp add: wf_rows_def)
qed

context status_condition_setter
begin

lemma desired_conditions_distinct:
  assumes "distinct (map c_type (st_conditions (p_status poll)))"
  shows "distinct (map c_type (st_conditions (desiredPollStatus ssc poll responses now t)))"
  unfolding desiredPollStatus_fields by (rule sets_distinct[OF assms])

lemma desired_ready:
  "\<exists>c. find_condition pollReadyCondition
         (st_conditions (desiredPollStatus ssc poll responses now t)) = Some c
     \<and> c_status c = (if pollClosed poll now then ConditionFalse else ConditionTrue)
     \<and> c_reason c = (if pollClosed poll now then ''Closed'' else ''Open'')
     \<and> c_observedGeneration c = m_generation (p_meta poll)"
proof -
  let ?ph = "fst (computePhase poll (p_status poll) now)"
  have "map_option cond_core (find_condition pollReadyCondition
        (st_conditions (desiredPollStatus ssc poll responses now t)))
      = Some (cond_core (readyCondition ?ph (m_generation (p_meta poll)) t))"
    by (simp add: desiredPollStatus_fields sets_find)
  then obtain c where c: "find_condition pollReadyCondition
      (st_conditions (desiredPollStatus ssc poll responses now t)) = Some c"
    "cond_core c = cond_core (readyCondition ?ph (m_generation (p_meta poll)) t)"
    by auto
  then show ?thesis
    by (auto simp: cond_core_eq_iff readyCondition_def Let_def computePhase_phase)
qed

text \<open>
  The patched status is a fixed point: while spec, responses and phase stay the same, the
  next reconcile finds nothing to write, whatever the clock says and however the server
  rounded the times.
\<close>

lemma written_fixed_point:
  assumes wf: "wf_questions (ps_questions (p_spec poll))"
    and types: "distinct (map c_type (st_conditions (p_status poll)))"
    and phase: "pollClosed poll now' = pollClosed poll now"
    and st: "same_poll_status (desiredPollStatus ssc poll responses now t) st"
  shows "statusEqual st (desiredPollStatus ssc (poll\<lparr>p_status := st\<rparr>) responses now' t')"
proof -
  let ?st = "desiredPollStatus ssc poll responses now t"
  let ?d = "desiredPollStatus ssc (poll\<lparr>p_status := st\<rparr>) responses now' t'"
  let ?ph = "fst (computePhase poll (p_status poll) now)"
  note same = st[unfolded same_poll_status_def]
  have same_phase: "fst (computePhase poll st' now') = ?ph" for st'
    using phase by (simp add: computePhase_phase)
  have "st_openedAt ?st \<noteq> None" "pollClosed poll now' \<longleftrightarrow> st_closedAt ?st \<noteq> None"
    using phase by (auto simp: desiredPollStatus_fields computePhase_fields split: option.splits)
  then have noop: "snd (computePhase poll st now') = st"
    using same by (intro computePhase_noop) simp_all
  have cores: "map cond_core (st_conditions st) = map cond_core (st_conditions ?st)" using same by simp
  then have dist: "distinct (map c_type (st_conditions st))"
    using desired_conditions_distinct[OF types] map_cond_core_types by metis
  have "find_condition pollReadyCondition (map cond_core (st_conditions st))
      = Some (cond_core (readyCondition ?ph (m_generation (p_meta poll)) t))"
    unfolding cores desiredPollStatus_fields find_condition_map_core sets_find by simp
  then have "map cond_core (st_conditions st) = map cond_core (st_conditions ?d)"
    unfolding desiredPollStatus_fields
    by (simp add: same_phase sets_again readyCondition_core[of _ _ t' t])
  then have conds: "conditionsEqualIgnoringTransition (st_conditions st) (st_conditions ?d)"
    by (rule conditionsEqual_same_core[OF dist])
  show ?thesis
  proof (rule statusEqual_same_rows)
    show "st_phase st = st_phase ?d"
      using same by (simp add: desiredPollStatus_fields same_phase)
    show "st_openedAt st = st_openedAt ?d" "st_closedAt st = st_closedAt ?d"
      by (simp_all add: desiredPollStatus_fields noop)
    show "st_results st = st_results ?d" "st_totalResponses st = st_totalResponses ?d"
      using same by (simp_all add: desiredPollStatus_fields)
    show "wf_rows (st_results ?d)"
      using wf_rows_aggregate[OF wf] by (simp add: desiredPollStatus_fields)
  qed (fact conds)
qed

lemmas desired_fixed_point = written_fixed_point[OF _ _ _ same_poll_status_refl]

end

section \<open>Reconciling a Poll as a status writer\<close>

text \<open>What one reconcile of a Poll observes: the object, the responses listed, two clock readings.\<close>

type_synonym poll_view = "Poll \<times> PollResponse list \<times> gotime \<times> gotime"

definition poll_desired ::
    "(gotime \<Rightarrow> condition \<Rightarrow> condition list \<Rightarrow> condition list) \<Rightarrow> poll_view \<Rightarrow> PollStatus \<Rightarrow> PollStatus"
where
  "poll_desired ssc v st =
     (case v of (poll, responses, now, t) \<Rightarrow>
        desiredPollStatus ssc (poll\<lparr>p_status := st\<rparr>) responses now t)"

text \<open>Same metadata, spec and responses, and \<open>closesAt\<close> passed in both or in neither.\<close>

definition poll_agree :: "poll_view \<Rightarrow> poll_view \<Rightarrow> bool" where
  "poll_agree v w \<longleftrightarrow>
     (case v of (poll, responses, now, _) \<Rightarrow> case w of (poll', responses', now', _) \<Rightarrow>
        p_meta poll' = p_meta poll \<and> p_spec poll' = p_spec poll \<and> responses' = responses
        \<and> wf_questions (ps_questions (p_spec poll))
        \<and> pollClosed poll' now' = pollClosed poll now)"

definition conditions_ok :: "PollStatus \<Rightarrow> bool" where
  "conditions_ok st \<longleftrightarrow> distinct (map c_type (st_conditions st))"

lemma poll_status_update_eq:
  fixes p p' :: Poll
  assumes "p_meta p' = p_meta p" and "p_spec p' = p_spec p"
  shows "p'\<lparr>p_status := st\<rparr> = p\<lparr>p_status := st\<rparr>"
  using assms by (cases p; cases p') simp

sublocale status_condition_setter \<subseteq> poll_writer: status_writer
  "poll_desired ssc" statusEqual poll_agree conditions_ok
proof unfold_locales
  fix st :: PollStatus and v w :: poll_view
  assume ok: "conditions_ok st" and agree: "poll_agree v w"
  obtain poll responses now t where v: "v = (poll, responses, now, t)" by (cases v)
  obtain poll' responses' now' t' where w: "w = (poll', responses', now', t')" by (cases w)
  let ?st = "desiredPollStatus ssc (poll\<lparr>p_status := st\<rparr>) responses now t"
  have same: "p_meta poll' = p_meta poll" "p_spec poll' = p_spec poll" "responses' = responses"
    and wf: "wf_questions (ps_questions (p_spec poll))"
    and closed: "pollClosed poll' now' = pollClosed poll now"
    using agree by (auto simp: poll_agree_def v w)
  have "pollClosed poll now' = pollClosed poll now"
    using closed same(2) by (simp add: pollClosed_def)
  then have "statusEqual ?st
      (desiredPollStatus ssc ((poll\<lparr>p_status := st\<rparr>)\<lparr>p_status := ?st\<rparr>) responses now' t')"
    using ok wf by (intro desired_fixed_point) (simp_all add: conditions_ok_def)
  then show "statusEqual (poll_desired ssc v st) (poll_desired ssc w (poll_desired ssc v st))"
    by (simp add: poll_desired_def v w same(3) poll_status_update_eq[OF same(1,2)])
qed

context status_condition_setter
begin

lemma poll_patches_at_most_one:
  assumes "conditions_ok st" and "\<And>x y. x \<in> set views \<Longrightarrow> y \<in> set views \<Longrightarrow> poll_agree x y"
  shows "patches (poll_desired ssc) statusEqual views st \<le> 1"
  by (rule poll_writer.at_most_one_patch[OF assms])

end

end
