(* ===== verification/Poll_Reconciler.thy ===== *)
theory Poll_Reconciler
  imports Poll_Status
begin

text \<open>
  \<open>PollReconciler.Reconcile\<close> of \<open>internal/controller/poll_controller.go\<close>: every client call
  and clock reading in the code's order, every early return as a branch. Its outcome is
  then described path by path; the state computation itself is \<open>desiredPollStatus\<close>.
\<close>

section \<open>The code\<close>

text \<open>
  The persist step: no call when nothing changed, a requeue on a conflict, an error
  otherwise; on success the reconciler goes on with the object the server returned.
\<close>

definition persistPollStatus ::
    "'s kube_env \<Rightarrow> Poll \<Rightarrow> PollStatus \<Rightarrow> 's \<Rightarrow> ((wrapped_error + ctrl_result) + Poll) \<times> 's" where
  "persistPollStatus env poll desired s =
     (if \<not> statusEqual (p_status poll) desired
      then (case env_patchPollStatus env poll (poll\<lparr>p_status := desired\<rparr>) s of
              (Inl err, s') \<Rightarrow>
                (Inl (if IsConflict err then Inr requeue_now
                      else Inl (Errorf ''patch Poll status'' err)), s')
            | (Inr poll', s') \<Rightarrow> (Inr poll', s'))
      else (Inr poll, s))"

definition requeueAtClose ::
    "'s kube_env \<Rightarrow> PollPhase \<Rightarrow> Poll \<Rightarrow> 's \<Rightarrow> (wrapped_error + ctrl_result) \<times> 's" where
  "requeueAtClose env phase poll s =
     (if phase = PollPhaseOpen
      then (case ps_closesAt (p_spec poll) of
              None \<Rightarrow> (Inr empty_result, s)
            | Some closesAt \<Rightarrow>
                (case env_now env s of (t, s') \<Rightarrow>
                   let wait = time_Until closesAt t
                   in (Inr (if 0 < wait then requeue_after wait else empty_result), s')))
      else (Inr empty_result, s))"

text \<open>The reconciler's fields are the embedded client and the scheme, together the environment.\<close>

type_synonym 's PollReconciler = "'s kube_env"

definition PollReconcile ::
    "'s PollReconciler \<Rightarrow> NamespacedName \<Rightarrow> 's \<Rightarrow> (wrapped_error + ctrl_result) \<times> 's" where
  "PollReconcile env req s =
     (case env_getPoll env req s of
        (Inl err, s1) \<Rightarrow>
          (if IsNotFound err then Inr empty_result else Inl (Errorf ''get Poll'' err), s1)
      | (Inr poll, s1) \<Rightarrow>
        (case env_now env s1 of (now, s2) \<Rightarrow>
         case computePhase poll (p_status poll) now of (phase, desired) \<Rightarrow>
         let desired = desired\<lparr>st_phase := phase\<rparr>
         in case env_listResponses env (m_namespace (p_meta poll)) s2 of
              (Inl err, s3) \<Rightarrow> (Inl (Errorf ''list PollResponses'' err), s3)
            | (Inr responses, s3) \<Rightarrow>
              (case aggregateResults poll responses of (results, totalResponses) \<Rightarrow>
               let desired = desired\<lparr>st_results := results, st_totalResponses := totalResponses\<rparr>
               in case env_now env s3 of (t, s4) \<Rightarrow>
               let desired = setReadyCondition (env_setStatusCondition env) desired phase
                               (m_generation (p_meta poll)) t
               in case persistPollStatus env poll desired s4 of
                    (Inl early, s5) \<Rightarrow> (early, s5)
                  | (Inr poll', s5) \<Rightarrow> requeueAtClose env phase poll' s5)))"

text \<open>\<open>mapResponseToPoll\<close>: the watch handler from a response to the poll it names.\<close>

definition mapResponseToPoll :: "PollResponse \<Rightarrow> NamespacedName list" where
  "mapResponseToPoll resp =
     (if ref_name (rs_pollRef (r_spec resp)) = '''' then []
      else [NamespacedName (m_namespace (r_meta resp)) (ref_name (rs_pollRef (r_spec resp)))])"

section \<open>The paths\<close>

lemma PollReconcile_get_error:
  assumes "env_getPoll env req s = (Inl err, s1)"
  shows "PollReconcile env req s
    = (if IsNotFound err then Inr empty_result else Inl (Errorf ''get Poll'' err), s1)"
  using assms by (simp add: PollReconcile_def)

lemma PollReconcile_list_error:
  assumes "env_getPoll env req s = (Inr poll, s1)" and "env_now env s1 = (now, s2)"
    and "env_listResponses env (m_namespace (p_meta poll)) s2 = (Inl err, s3)"
  shows "PollReconcile env req s = (Inl (Errorf ''list PollResponses'' err), s3)"
  using assms by (simp add: PollReconcile_def Let_def split: prod.split)

text \<open>Once the reads have succeeded, what remains is to persist the desired status.\<close>

lemma PollReconcile_reads:
  assumes "env_getPoll env req s = (Inr poll, s1)" and "env_now env s1 = (now, s2)"
    and "env_listResponses env (m_namespace (p_meta poll)) s2 = (Inr responses, s3)"
    and "env_now env s3 = (t, s4)"
  shows "PollReconcile env req s
    = (case persistPollStatus env poll
              (desiredPollStatus (env_setStatusCondition env) poll responses now t) s4 of
         (Inl early, s5) \<Rightarrow> (early, s5)
       | (Inr poll', s5) \<Rightarrow>
           requeueAtClose env (fst (computePhase poll (p_status poll) now)) poll' s5)"
proof -
  obtain phase d where ph: "computePhase poll (p_status poll) now = (phase, d)" by fastforce
  obtain results n where ag: "aggregateResults poll responses = (results, n)" by fastforce
  show ?thesis
    unfolding PollReconcile_def desiredPollStatus_def assms(1,2) ph ag Let_def prod.case sum.case
      assms(3,4) fst_conv by simp
qed

lemma PollReconcile_unchanged:
  assumes "env_getPoll env req s = (Inr poll, s1)" and "env_now env s1 = (now, s2)"
    and "env_listResponses env (m_namespace (p_meta poll)) s2 = (Inr responses, s3)"
    and "env_now env s3 = (t, s4)"
    and "statusEqual (p_status poll)
          (desiredPollStatus (env_setStatusCondition env) poll responses now t)"
  shows "PollReconcile env req s
    = requeueAtClose env (fst (computePhase poll (p_status poll) now)) poll s4"
  by (simp add: PollReconcile_reads[OF assms(1-4)] persistPollStatus_def assms(5))

lemma PollReconcile_patched:
  assumes "env_getPoll env req s = (Inr poll, s1)" and "env_now env s1 = (now, s2)"
    and "env_listResponses env (m_namespace (p_meta poll)) s2 = (Inr responses, s3)"
    and "env_now env s3 = (t, s4)"
    and d: "desired = desiredPollStatus (env_setStatusCondition env) poll responses now t"
    and "\<not> statusEqual (p_status poll) desired"
    and "env_patchPollStatus env poll (poll\<lparr>p_status := desired\<rparr>) s4 = (res, s5)"
  shows "PollReconcile env req s
    = (case res of
         Inl err \<Rightarrow> (if IsConflict err then Inr requeue_now
                     else Inl (Errorf ''patch Poll status'' err), s5)
       | Inr poll' \<Rightarrow> requeueAtClose env (fst (computePhase poll (p_status poll) now)) poll' s5)"
  unfolding PollReconcile_reads[OF assms(1-4)] persistPollStatus_def
  using assms(6,7) by (cases res) (simp_all add: d)

section \<open>The requeue\<close>

text \<open>An open Poll with a future \<open>closesAt\<close> is looked at again no later than then.\<close>

lemma requeueAtClose_open:
  assumes "ps_closesAt (p_spec poll) = Some c" and "env_now env s = (t, s')" and "time_Before t c"
  shows "requeueAtClose env PollPhaseOpen poll s = (Inr (requeue_after (time_Until c t)), s')"
    and "0 < time_Until c t" and "unixNano t + time_Until c t \<le> unixNano c"
proof -
  show pos: "0 < time_Until c t"
    using assms(3) by (simp add: time_Until_pos_iff)
  then show "requeueAtClose env PollPhaseOpen poll s = (Inr (requeue_after (time_Until c t)), s')"
    using assms(1,2) by (simp add: requeueAtClose_def Let_def)
  show "unixNano t + time_Until c t \<le> unixNano c"
    using assms(3) by (auto simp: time_Until_def time_Before_def)
qed

lemma requeueAtClose_never_fails: "\<exists>res. fst (requeueAtClose env phase poll s) = Inr res"
  by (simp add: requeueAtClose_def Let_def split: option.split prod.split)

section \<open>Errors\<close>

text \<open>The causes a failed reconcile can have.\<close>

definition poll_failure :: "wrapped_error \<Rightarrow> bool" where
  "poll_failure e \<longleftrightarrow> (case e of Errorf msg err \<Rightarrow>
     (msg = ''get Poll'' \<and> \<not> IsNotFound err) \<or> msg = ''list PollResponses''
       \<or> (msg = ''patch Poll status'' \<and> \<not> IsConflict err))"

lemma persistPollStatus_failure:
  "persistPollStatus env poll desired s = (Inl (Inl e), s') \<Longrightarrow> poll_failure e"
  by (auto simp: persistPollStatus_def poll_failure_def split: if_splits sum.splits prod.splits)

lemma PollReconcile_failure:
  assumes "fst (PollReconcile env req s) = Inl e"
  shows "poll_failure e"
proof -
  obtain got s1 where g: "env_getPoll env req s = (got, s1)" by fastforce
  show ?thesis
  proof (cases got)
    case (Inl err)
    with assms g show ?thesis
      by (auto simp: PollReconcile_get_error poll_failure_def split: if_splits)
  next
    case (Inr poll)
    obtain now s2 where n: "env_now env s1 = (now, s2)" by fastforce
    obtain listed s3 where l: "env_listResponses env (m_namespace (p_meta poll)) s2 = (listed, s3)"
      by fastforce
    obtain t s4 where n3: "env_now env s3 = (t, s4)" by fastforce
    show ?thesis
    proof (cases listed)
      case (Inl err)
      with assms g n l \<open>got = Inr poll\<close> show ?thesis
        by (auto simp: PollReconcile_list_error poll_failure_def)
    next
      case (Inr rs)
      let ?d = "desiredPollStatus (env_setStatusCondition env) poll rs now t"
      note reads = PollReconcile_reads[OF g[unfolded \<open>got = Inr poll\<close>] n l[unfolded Inr] n3]
      obtain out s5 where p: "persistPollStatus env poll ?d s4 = (out, s5)" by fastforce
      show ?thesis
      proof (cases out)
        case (Inl early)
        with assms p have "early = Inl e" by (simp add: reads)
        with persistPollStatus_failure[of env poll ?d s4 e s5] p Inl show ?thesis by simp
      next
        case (Inr poll')
        with assms p requeueAtClose_never_fails[of env _ poll' s5] show ?thesis
          by (auto simp: reads) (metis Inl_Inr_False)
      qed
    qed
  qed
qed

end
