(* ===== verification/Response_Validation.thy ===== *)
theory Response_Validation
  imports Poll_Lifecycle
begin

text \<open>
  \<open>validateResponse\<close> and \<open>validateAnswer\<close> of
  \<open>internal/controller/pollresponse_controller.go\<close>: the checks of a response against its
  Poll, the reason and message of the first failing one, and the declarative condition
  they decide. \<open>pr\<close> is the print table of \<open>%q\<close>.
\<close>

section \<open>Reasons\<close>

definition reasonAccepted :: string where "reasonAccepted = ''Accepted''"
definition reasonPollNotFound :: string where "reasonPollNotFound = ''PollNotFound''"
definition reasonPollClosed :: string where "reasonPollClosed = ''PollClosed''"
definition reasonUnknownQuestion :: string where "reasonUnknownQuestion = ''UnknownQuestion''"
definition reasonWrongAnswerType :: string where "reasonWrongAnswerType = ''WrongAnswerType''"
definition reasonUnknownOption :: string where "reasonUnknownOption = ''UnknownOption''"
definition reasonEmptyAnswer :: string where "reasonEmptyAnswer = ''EmptyAnswer''"
definition reasonTooManyChoices :: string where "reasonTooManyChoices = ''TooManyChoices''"
definition reasonTextTooLong :: string where "reasonTextTooLong = ''TextTooLong''"
definition reasonInvalidQuestion :: string where "reasonInvalidQuestion = ''InvalidQuestion''"

lemmas reason_defs =
  reasonAccepted_def reasonPollNotFound_def reasonPollClosed_def reasonUnknownQuestion_def
  reasonWrongAnswerType_def reasonUnknownOption_def reasonEmptyAnswer_def
  reasonTooManyChoices_def reasonTextTooLong_def reasonInvalidQuestion_def

datatype validationError = ValidationError (ve_reason: string) (ve_message: string)

definition validationError_Error :: "validationError \<Rightarrow> string" where
  "validationError_Error v = ve_reason v @ '': '' @ ve_message v"

section \<open>The code\<close>

fun checkSelections ::
    "(nat \<Rightarrow> bool) \<Rightarrow> string \<Rightarrow> string set \<Rightarrow> string set \<Rightarrow> string list \<Rightarrow> validationError option" where
  "checkSelections pr qid allowed seen [] = None"
| "checkSelections pr qid allowed seen (sel # sels) =
     (if sel \<notin> allowed then
        Some (ValidationError reasonUnknownOption
          (''question '' @ goQuote pr qid @ '': option '' @ goQuote pr sel
           @ '' is not one of the configured choices''))
      else if sel \<in> seen then
        Some (ValidationError reasonTooManyChoices
          (''question '' @ goQuote pr qid @ '': option '' @ goQuote pr sel
           @ '' selected more than once''))
      else checkSelections pr qid allowed (insert sel seen) sels)"

definition validateAnswer ::
    "(nat \<Rightarrow> bool) \<Rightarrow> PollQuestion \<Rightarrow> PollAnswer \<Rightarrow> validationError option" where
  "validateAnswer pr q ans =
     (if q_type q = QuestionTypeChoice then
        (case q_choice q of
           None \<Rightarrow> Some (ValidationError reasonInvalidQuestion
             (''question '' @ goQuote pr (q_id q) @ '' has type Choice but no choice configuration''))
         | Some choice \<Rightarrow>
           if a_text ans \<noteq> '''' then
             Some (ValidationError reasonWrongAnswerType
               (''question '' @ goQuote pr (q_id q) @ '' is Choice; text must be empty''))
           else if length (a_selectedOptions ans) = 0 then
             Some (ValidationError reasonEmptyAnswer
               (''question '' @ goQuote pr (q_id q) @ '' requires at least one selected option''))
           else if \<not> cq_allowMultipleChoices choice \<and> 1 < length (a_selectedOptions ans) then
             Some (ValidationError reasonTooManyChoices
               (''question '' @ goQuote pr (q_id q) @ '' does not allow multiple choices''))
           else checkSelections pr (q_id q) (set (cq_options choice)) {} (a_selectedOptions ans))
      else if q_type q = QuestionTypeFreeText then
        (if 0 < length (a_selectedOptions ans) then
           Some (ValidationError reasonWrongAnswerType
             (''question '' @ goQuote pr (q_id q) @ '' is FreeText; selectedOptions must be empty''))
         else if a_text ans = '''' then
           Some (ValidationError reasonEmptyAnswer
             (''question '' @ goQuote pr (q_id q) @ '' requires a text response''))
         else (case q_freeText q of
                 None \<Rightarrow> None
               | Some ft \<Rightarrow>
                 if 0 < sint (fq_maxResponseLength ft)
                    \<and> sint (fq_maxResponseLength ft) < sint (of_nat (length (a_text ans)) :: int32)
                 then Some (ValidationError reasonTextTooLong
                   (''question '' @ goQuote pr (q_id q) @ '': text exceeds maxResponseLength (''
                    @ show_int32 (fq_maxResponseLength ft) @ '')''))
                 else None))
      else Some (ValidationError reasonInvalidQuestion
        (''question '' @ goQuote pr (q_id q) @ '' has unsupported type '' @ goQuote pr (q_type q))))"

fun validateAnswers ::
    "(nat \<Rightarrow> bool) \<Rightarrow> (string \<rightharpoonup> PollQuestion) \<Rightarrow> PollAnswer list \<Rightarrow> validationError option" where
  "validateAnswers pr questionsByID [] = None"
| "validateAnswers pr questionsByID (ans # rest) =
     (case questionsByID (a_questionID ans) of
        None \<Rightarrow> Some (ValidationError reasonUnknownQuestion
          (''answer references unknown questionID '' @ goQuote pr (a_questionID ans)))
      | Some q \<Rightarrow>
          (case validateAnswer pr q ans of
             Some verr \<Rightarrow> Some verr
           | None \<Rightarrow> validateAnswers pr questionsByID rest))"

definition validateResponse ::
    "(nat \<Rightarrow> bool) \<Rightarrow> Poll \<Rightarrow> PollResponse \<Rightarrow> gotime \<Rightarrow> validationError option" where
  "validateResponse pr poll resp now =
     (case (case ps_closesAt (p_spec poll) of
              None \<Rightarrow> None
            | Some closesAt \<Rightarrow>
                if \<not> time_Before now closesAt
                then Some (ValidationError reasonPollClosed
                  (''Poll closed at '' @ format_RFC3339 closesAt))
                else None) of
        Some verr \<Rightarrow> Some verr
      | None \<Rightarrow>
          let questionsByID = index_by q_id (ps_questions (p_spec poll)) Map.empty
          in validateAnswers pr questionsByID (rs_answers (r_spec resp)))"

section \<open>What is accepted\<close>

definition text_fits :: "PollQuestion \<Rightarrow> string \<Rightarrow> bool" where
  "text_fits q text \<longleftrightarrow>
     (case q_freeText q of
        None \<Rightarrow> True
      | Some ft \<Rightarrow> sint (fq_maxResponseLength ft) \<le> 0
          \<or> sint (of_nat (length text) :: int32) \<le> sint (fq_maxResponseLength ft))"

definition answer_ok :: "PollQuestion \<Rightarrow> PollAnswer \<Rightarrow> bool" where
  "answer_ok q ans \<longleftrightarrow>
     (q_type q = QuestionTypeChoice \<and> a_text ans = '''' \<and> a_selectedOptions ans \<noteq> []
        \<and> distinct (a_selectedOptions ans)
        \<and> (\<exists>c. q_choice q = Some c \<and> set (a_selectedOptions ans) \<subseteq> set (cq_options c)
             \<and> (cq_allowMultipleChoices c \<or> length (a_selectedOptions ans) = 1)))
   \<or> (q_type q = QuestionTypeFreeText \<and> a_selectedOptions ans = [] \<and> a_text ans \<noteq> ''''
        \<and> text_fits q (a_text ans))"

lemma checkSelections_None_iff:
  "checkSelections pr qid allowed seen sels = None
     \<longleftrightarrow> set sels \<subseteq> allowed \<and> distinct sels \<and> set sels \<inter> seen = {}"
  by (induction sels arbitrary: seen) auto

lemma validateAnswer_Choice:
  assumes "q_type q = QuestionTypeChoice"
  shows "validateAnswer pr q ans = None \<longleftrightarrow> answer_ok q ans"
proof (cases "q_choice q")
  case None
  with assms show ?thesis by (simp add: validateAnswer_def answer_ok_def)
next
  case (Some c)
  have len: "\<not> 1 < length xs \<longleftrightarrow> length xs = 1" if "xs \<noteq> []" for xs :: "string list"
    using that by (cases xs) auto
  show ?thesis
  proof (cases "a_selectedOptions ans = []")
    case True
    with assms Some show ?thesis by (simp add: validateAnswer_def answer_ok_def)
  next
    case False
    then have "1 < length (a_selectedOptions ans) \<longleftrightarrow> length (a_selectedOptions ans) \<noteq> 1"
      using len by blast
    with assms Some False show ?thesis
      by (auto simp: validateAnswer_def answer_ok_def checkSelections_None_iff)
  qed
qed

lemma validateAnswer_FreeText:
  assumes "q_type q = QuestionTypeFreeText"
  shows "validateAnswer pr q ans = None \<longleftrightarrow> answer_ok q ans"
  using assms by (auto simp: validateAnswer_def answer_ok_def text_fits_def split: option.splits)

lemma validateAnswer_None_iff: "validateAnswer pr q ans = None \<longleftrightarrow> answer_ok q ans"
proof (cases "q_type q = QuestionTypeChoice \<or> q_type q = QuestionTypeFreeText")
  case True
  then show ?thesis using validateAnswer_Choice validateAnswer_FreeText by blast
next
  case False
  then show ?thesis by (simp add: validateAnswer_def answer_ok_def)
qed

lemma validateAnswers_None_iff:
  "validateAnswers pr m answers = None
     \<longleftrightarrow> list_all (\<lambda>ans. \<exists>q. m (a_questionID ans) = Some q \<and> answer_ok q ans) answers"
proof (induction answers)
  case Nil
  then show ?case by simp
next
  case (Cons ans rest)
  then show ?case
    by (auto simp flip: validateAnswer_None_iff[of pr] split: option.splits)
qed

lemma validateResponse_None:
  "validateResponse pr poll resp now = None \<longleftrightarrow> \<not> pollClosed poll now
     \<and> list_all (\<lambda>ans. \<exists>q. index_by q_id (ps_questions (p_spec poll)) Map.empty (a_questionID ans) = Some q
           \<and> answer_ok q ans) (rs_answers (r_spec resp))"
  by (simp add: validateResponse_def pollClosed_def Let_def validateAnswers_None_iff not_before_iff
      split: option.split)

lemma validateResponse_None_iff:
  assumes "distinct (map q_id (ps_questions (p_spec poll)))"
  shows "validateResponse pr poll resp now = None \<longleftrightarrow> \<not> pollClosed poll now
     \<and> (\<forall>ans \<in> set (rs_answers (r_spec resp)).
          \<exists>q \<in> set (ps_questions (p_spec poll)). q_id q = a_questionID ans \<and> answer_ok q ans)"
proof -
  have "(\<exists>q. index_by q_id (ps_questions (p_spec poll)) Map.empty qid = Some q \<and> P q)
      \<longleftrightarrow> (\<exists>q \<in> set (ps_questions (p_spec poll)). q_id q = qid \<and> P q)" for qid P
    using index_by_distinct[OF assms, of _ Map.empty] index_by_empty_SomeD[of q_id] by metis
  then show ?thesis
    by (simp add: validateResponse_None list_all_iff)
qed

lemma validateResponse_closed:
  assumes "pollClosed poll now" and "ps_closesAt (p_spec poll) = Some c"
  shows "validateResponse pr poll resp now
    = Some (ValidationError reasonPollClosed (''Poll closed at '' @ format_RFC3339 c))"
  using assms by (simp add: validateResponse_def pollClosed_def not_before_iff)

section \<open>The first problem is the one reported\<close>

lemma validateAnswers_first:
  assumes "validateAnswers pr m answers = Some e"
  shows "\<exists>pre ans post. answers = pre @ ans # post
    \<and> list_all (\<lambda>a. \<exists>q. m (a_questionID a) = Some q \<and> answer_ok q a) pre
    \<and> (case m (a_questionID ans) of
         None \<Rightarrow> ve_reason e = reasonUnknownQuestion
       | Some q \<Rightarrow> validateAnswer pr q ans = Some e)"
  using assms
proof (induction answers)
  case Nil
  then show ?case by simp
next
  case (Cons a rest)
  show ?case
  proof (cases "m (a_questionID a)")
    case None
    with Cons.prems show ?thesis by (intro exI[of _ "[]"]) auto
  next
    case (Some q)
    show ?thesis
    proof (cases "validateAnswer pr q a")
      case None
      with Some Cons obtain pre ans post where "rest = pre @ ans # post"
        "list_all (\<lambda>a. \<exists>q. m (a_questionID a) = Some q \<and> answer_ok q a) pre"
        "case m (a_questionID ans) of None \<Rightarrow> ve_reason e = reasonUnknownQuestion
         | Some q \<Rightarrow> validateAnswer pr q ans = Some e"
        by auto
      then show ?thesis
        using Some None validateAnswer_None_iff[of pr q a]
        by (intro exI[of _ "a # pre"] exI[of _ ans] exI[of _ post]) auto
    next
      case (Some e')
      with \<open>m (a_questionID a) = Some q\<close> Cons.prems show ?thesis
        by (intro exI[of _ "[]"]) auto
    qed
  qed
qed

lemma checkSelections_reasons:
  "checkSelections pr qid allowed seen sels = Some e \<Longrightarrow>
   ve_reason e \<in> {reasonUnknownOption, reasonTooManyChoices}"
  by (induction sels arbitrary: seen) (auto split: if_splits)

end
