(* ===== verification/Response_Reconciler.thy ===== *)
theory Response_Reconciler
  imports Response_Validation Status_Compare
begin

text \<open>
  \<open>PollResponseReconciler\<close> of \<open>internal/controller/pollresponse_controller.go\<close>: the owner
  reference, \<open>accept\<close> and \<open>reject\<close> with their conditions and their no-op test, and
  \<open>Reconcile\<close> itself with every early return. The clock readings handed to
  \<open>env_setStatusCondition\<close> are those the library makes for an unset transition time.
\<close>

section \<open>The code: statuses\<close>

definition pollResponseValidatedCondition :: string where
  "pollResponseValidatedCondition = ''Validated''"

definition pollResponseCountedCondition :: string where
  "pollResponseCountedCondition = ''Counted''"

definition setResponseCondition ::
    "(gotime \<Rightarrow> condition \<Rightarrow> condition list \<Rightarrow> condition list) \<Rightarrow> gotime \<Rightarrow>
     PollResponseStatus \<Rightarrow> string \<Rightarrow> string \<Rightarrow> string \<Rightarrow> string \<Rightarrow> int64 \<Rightarrow> PollResponseStatus" where
  "setResponseCondition ssc t status condType s reason message generation =
     status\<lparr>rst_conditions := ssc t
       \<lparr>c_type = condType, c_status = s, c_observedGeneration = generation,
        c_lastTransitionTime = None, c_reason = reason, c_message = message\<rparr>
       (rst_conditions status)\<rparr>"

text \<open>The status \<open>accept\<close> wants; \<open>now\<close> is its \<open>metav1.Now()\<close>.\<close>

definition acceptedStatus ::
    "(gotime \<Rightarrow> condition \<Rightarrow> condition list \<Rightarrow> condition list) \<Rightarrow>
     PollResponse \<Rightarrow> int64 \<Rightarrow> gotime \<Rightarrow> gotime \<Rightarrow> gotime \<Rightarrow> PollResponseStatus" where
  "acceptedStatus ssc resp pollGen now t1 t2 =
     (let desired = r_status resp;
          desired = desired\<lparr>rst_phase := PollResponsePhaseAccepted\<rparr>;
          desired = desired\<lparr>rst_observedPollGeneration := pollGen\<rparr>;
          desired = (if rst_acceptedAt desired = None then desired\<lparr>rst_acceptedAt := Some now\<rparr>
                     else desired);
          desired = setResponseCondition ssc t1 desired pollResponseValidatedCondition ConditionTrue
                      reasonAccepted ''Response passed validation'' (m_generation (r_meta resp));
          desired = setResponseCondition ssc t2 desired pollResponseCountedCondition ConditionTrue
                      reasonAccepted ''Response is included in Poll results'' (m_generation (r_meta resp))
      in desired)"

definition rejectedStatus ::
    "(gotime \<Rightarrow> condition \<Rightarrow> condition list \<Rightarrow> condition list) \<Rightarrow>
     PollResponse \<Rightarrow> int64 \<Rightarrow> string \<Rightarrow> string \<Rightarrow> gotime \<Rightarrow> gotime \<Rightarrow> PollResponseStatus" where
  "rejectedStatus ssc resp pollGen reason message t1 t2 =
     (let desired = r_status resp;
          desired = desired\<lparr>rst_phase := PollResponsePhaseRejected\<rparr>;
          desired = desired\<lparr>rst_observedPollGeneration := pollGen\<rparr>;
          desired = desired\<lparr>rst_acceptedAt := None\<rparr>;
          desired = setResponseCondition ssc t1 desired pollResponseValidatedCondition ConditionFalse
                      reason message (m_generation (r_meta resp));
          desired = setResponseCondition ssc t2 desired pollResponseCountedCondition ConditionFalse
                      reason ''Rejected responses are not counted'' (m_generation (r_meta resp))
      in desired)"

definition responseStatusEqual :: "PollResponseStatus \<Rightarrow> PollResponseStatus \<Rightarrow> bool" where
  "responseStatusEqual a b \<longleftrightarrow>
     (if rst_phase a \<noteq> rst_phase b
         \<or> rst_observedPollGeneration a \<noteq> rst_observedPollGeneration b
         \<or> \<not> timePtrEqual (rst_acceptedAt a) (rst_acceptedAt b)
      then False
      else conditionsEqualIgnoringTransition (rst_conditions a) (rst_conditions b))"

section \<open>The code: writes\<close>

text \<open>The common tail of \<open>accept\<close> and \<open>reject\<close>.\<close>

definition persistResponseStatus ::
    "'s kube_env \<Rightarrow> PollResponse \<Rightarrow> PollResponseStatus \<Rightarrow> 's \<Rightarrow> (wrapped_error + ctrl_result) \<times> 's" where
  "persistResponseStatus env resp desired s =
     (if responseStatusEqual (r_status resp) desired then (Inr empty_result, s)
      else (case env_patchResponseStatus env resp (resp\<lparr>r_status := desired\<rparr>) s of
              (Inl err, s') \<Rightarrow>
                (if IsConflict err then Inr requeue_now
                 else Inl (Errorf ''patch PollResponse status'' err), s')
            | (Inr _, s') \<Rightarrow> (Inr empty_result, s')))"

definition acceptResponse ::
    "'s kube_env \<Rightarrow> PollResponse \<Rightarrow> int64 \<Rightarrow> 's \<Rightarrow> (wrapped_error + ctrl_result) \<times> 's" where
  "acceptResponse env resp pollGen s =
     (case (case rst_acceptedAt (r_status resp) of
              None \<Rightarrow> env_now env s | Some t \<Rightarrow> (t, s)) of (now, s1) \<Rightarrow>
      case env_now env s1 of (t1, s2) \<Rightarrow>
      case env_now env s2 of (t2, s3) \<Rightarrow>
        persistResponseStatus env resp
          (acceptedStatus (env_setStatusCondition env) resp pollGen now t1 t2) s3)"

definition rejectResponse ::
    "'s kube_env \<Rightarrow> PollResponse \<Rightarrow> int64 \<Rightarrow> string \<Rightarrow> string \<Rightarrow> 's \<Rightarrow>
     (wrapped_error + ctrl_result) \<times> 's" where
  "rejectResponse env resp pollGen reason message s =
     (case env_now env s of (t1, s1) \<Rightarrow>
      case env_now env s1 of (t2, s2) \<Rightarrow>
        persistResponseStatus env resp
          (rejectedStatus (env_setStatusCondition env) resp pollGen reason message t1 t2) s2)"

definition ensureOwnerReference ::
    "'s kube_env \<Rightarrow> PollResponse \<Rightarrow> Poll \<Rightarrow> 's \<Rightarrow> (wrapped_error + PollResponse) \<times> 's" where
  "ensureOwnerReference env resp poll s =
     (if list_ex (\<lambda>ref. or_uid ref = m_uid (p_meta poll)) (m_ownerReferences (r_meta resp))
      then (Inr resp, s)
      else (case env_setControllerReference env poll resp of
              Inl err \<Rightarrow> (Inl (Errorf ''set controller reference'' err), s)
            | Inr resp' \<Rightarrow>
                (case env_patchResponse env resp resp' s of
                   (Inl err, s') \<Rightarrow> (Inl (Errorf ''patch owner reference'' err), s')
                 | (Inr resp'', s') \<Rightarrow> (Inr resp'', s'))))"

text \<open>The reconciler's fields are the embedded client and the scheme, together the environment.\<close>

type_synonym 's PollResponseReconciler = "'s kube_env"

definition PollResponseReconcile ::
    "'s PollResponseReconciler \<Rightarrow> NamespacedName \<Rightarrow> 's \<Rightarrow> (wrapped_error + ctrl_result) \<times> 's" where
  "PollResponseReconcile env req s =
     (case env_getResponse env req s of
        (Inl err, s1) \<Rightarrow>
          (if IsNotFound err then Inr empty_result else Inl (Errorf ''get PollResponse'' err), s1)
      | (Inr resp, s1) \<Rightarrow>
        (if m_deletionTimestamp (r_meta resp) \<noteq> None then (Inr empty_result, s1)
         else
           let pollKey = NamespacedName (m_namespace (r_meta resp)) (ref_name (rs_pollRef (r_spec resp)))
           in case env_getPoll env pollKey s1 of
                (Inl err, s2) \<Rightarrow>
                  (if IsNotFound err
                   then rejectResponse env resp 0 reasonPollNotFound
                          (''Poll '' @ goQuote (env_isPrint env) (nn_name pollKey)
                           @ '' not found in namespace ''
                           @ goQuote (env_isPrint env) (nn_namespace pollKey)) s2
                   else (Inl (Errorf ''get Poll'' err), s2))
              | (Inr poll, s2) \<Rightarrow>
                (case ensureOwnerReference env resp poll s2 of
                   (Inl err, s3) \<Rightarrow> (Inl err, s3)
                 | (Inr resp, s3) \<Rightarrow>
                   (case env_now env s3 of (now, s4) \<Rightarrow>
                      case validateResponse (env_isPrint env) poll resp now of
                        Some verr \<Rightarrow>
                          rejectResponse env resp (m_generation (p_meta poll))
                            (ve_reason verr) (ve_message verr) s4
                      | None \<Rightarrow> acceptResponse env resp (m_generation (p_meta poll)) s4))))"

text \<open>\<open>mapPollToResponses\<close>: the watch handler from a Poll to the responses that name it.\<close>

definition mapPollToResponses :: "'s kube_env \<Rightarrow> Poll \<Rightarrow> 's \<Rightarrow> NamespacedName list \<times> 's" where
  "mapPollToResponses env poll s =
     (case env_listResponses env (m_namespace (p_meta poll)) s of
        (Inl err, s') \<Rightarrow> ([], s')
      | (Inr responses, s') \<Rightarrow>
          (map response_key
             (filter (\<lambda>resp. ref_name (rs_pollRef (r_spec resp)) = m_name (p_meta poll)) responses), s'))"

section \<open>The two verdicts\<close>

definition validatedCondition :: "string \<Rightarrow> string \<Rightarrow> string \<Rightarrow> int64 \<Rightarrow> condition" where
  "validatedCondition s reason message generation =
     \<lparr>c_type = pollResponseValidatedCondition, c_status = s, c_observedGeneration = generation,
      c_lastTransitionTime = None, c_reason = reason, c_message = message\<rparr>"

definition countedCondition :: "string \<Rightarrow> string \<Rightarrow> string \<Rightarrow> int64 \<Rightarrow> condition" where
  "countedCondition s reason message generation =
     \<lparr>c_type = pollResponseCountedCondition, c_status = s, c_observedGeneration = generation,
      c_lastTransitionTime = None, c_reason = reason, c_message = message\<rparr>"

lemma verdict_types [simp]:
  "c_type (validatedCondition s r m g) = pollResponseValidatedCondition"
  "c_type (countedCondition s r m g) = pollResponseCountedCondition"
  "c_status (validatedCondition s r m g) = s"
  "c_status (countedCondition s r m g) = s"
  "pollResponseValidatedCondition \<noteq> pollResponseCountedCondition"
  "pollResponseCountedCondition \<noteq> pollResponseValidatedCondition"
  by (simp_all add: validatedCondition_def countedCondition_def
      pollResponseValidatedCondition_def pollResponseCountedCondition_def)

lemma verdict_cores [simp]:
  "cond_core (validatedCondition s r m g) = validatedCondition s r m g"
  "cond_core (countedCondition s r m g) = countedCondition s r m g"
  by (simp_all add: validatedCondition_def countedCondition_def cond_core_def)

lemma acceptedStatus_fields:
  "rst_phase (acceptedStatus ssc resp g now t1 t2) = PollResponsePhaseAccepted"
  "rst_observedPollGeneration (acceptedStatus ssc resp g now t1 t2) = g"
  "rst_acceptedAt (acceptedStatus ssc resp g now t1 t2)
     = (case rst_acceptedAt (r_status resp) of None \<Rightarrow> Some now | Some t \<Rightarrow> Some t)"
  "rst_conditions (acceptedStatus ssc resp g now t1 t2)
     = ssc t2 (countedCondition ConditionTrue reasonAccepted
                ''Response is included in Poll results'' (m_generation (r_meta resp)))
         (ssc t1 (validatedCondition ConditionTrue reasonAccepted
                ''Response passed validation'' (m_generation (r_meta resp)))
           (rst_conditions (r_status resp)))"
  by (auto simp: acceptedStatus_def setResponseCondition_def Let_def validatedCondition_def
      countedCondition_def split: option.splits)

lemma rejectedStatus_fields:
  "rst_phase (rejectedStatus ssc resp g reason message t1 t2) = PollResponsePhaseRejected"
  "rst_observedPollGeneration (rejectedStatus ssc resp g reason message t1 t2) = g"
  "rst_acceptedAt (rejectedStatus ssc resp g reason message t1 t2) = None"
  "rst_conditions (rejectedStatus ssc resp g reason message t1 t2)
     = ssc t2 (countedCondition ConditionFalse reason
                ''Rejected responses are not counted'' (m_generation (r_meta resp)))
         (ssc t1 (validatedCondition ConditionFalse reason message (m_generation (r_meta resp)))
           (rst_conditions (r_status resp)))"
  by (simp_all add: rejectedStatus_def setResponseCondition_def Let_def validatedCondition_def
      countedCondition_def)

lemmas verdict_fields = acceptedStatus_fields rejectedStatus_fields

text \<open>
  What a validated response shows: phase, acceptance time and the two conditions say the
  same thing.
\<close>

definition verdict_consistent :: "PollResponseStatus \<Rightarrow> bool" where
  "verdict_consistent st \<longleftrightarrow>
     (let validated = map_option c_status (find_condition pollResponseValidatedCondition (rst_conditions st));
          counted = map_option c_status (find_condition pollResponseCountedCondition (rst_conditions st))
      in (rst_phase st = PollResponsePhaseAccepted \<and> rst_acceptedAt st \<noteq> None
            \<and> validated = Some ConditionTrue \<and> counted = Some ConditionTrue)
       \<or> (rst_phase st = PollResponsePhaseRejected \<and> rst_acceptedAt st = None
            \<and> validated = Some ConditionFalse \<and> counted = Some ConditionFalse))"

lemma status_of_core:
  "map_option cond_core x = Some (cond_core c) \<Longrightarrow> map_option c_status x = Some (c_status c)"
  by (auto simp: cond_core_eq_iff)

section \<open>A verdict as a status writer\<close>

text \<open>
  An observation of the response reconciler: the response, the generation of the Poll, the
  outcome of validation, and the clock readings.
\<close>

type_synonym response_view =
  "PollResponse \<times> int64 \<times> validationError option \<times> gotime \<times> gotime \<times> gotime"

definition response_desired ::
    "(gotime \<Rightarrow> condition \<Rightarrow> condition list \<Rightarrow> condition list) \<Rightarrow>
     response_view \<Rightarrow> PollResponseStatus \<Rightarrow> PollResponseStatus" where
  "response_desired ssc v st =
     (case v of (resp, pollGen, verdict, now, t1, t2) \<Rightarrow>
        case verdict of
          None \<Rightarrow> acceptedStatus ssc (resp\<lparr>r_status := st\<rparr>) pollGen now t1 t2
        | Some verr \<Rightarrow> rejectedStatus ssc (resp\<lparr>r_status := st\<rparr>) pollGen
                         (ve_reason verr) (ve_message verr) t1 t2)"

definition response_agree :: "response_view \<Rightarrow> response_view \<Rightarrow> bool" where
  "response_agree v w \<longleftrightarrow>
     (case v of (resp, pollGen, verdict, _) \<Rightarrow> case w of (resp', pollGen', verdict', _) \<Rightarrow>
        m_generation (r_meta resp') = m_generation (r_meta resp)
        \<and> pollGen' = pollGen \<and> verdict' = verdict)"

definition response_conditions_ok :: "PollResponseStatus \<Rightarrow> bool" where
  "response_conditions_ok st \<longleftrightarrow> distinct (map c_type (rst_conditions st))"

context status_condition_setter
begin

lemma two_conditions_settle:
  assumes "distinct (map c_type cs)" and "c_type c1 \<noteq> c_type c2"
  shows "conditionsEqualIgnoringTransition (ssc t2 c2 (ssc t1 c1 cs))
    (ssc u2 c2 (ssc u1 c1 (ssc t2 c2 (ssc t1 c1 cs))))"
proof (rule conditionsEqual_same_core)
  show "distinct (map c_type (ssc t2 c2 (ssc t1 c1 cs)))"
    by (intro sets_distinct assms)
  show "map cond_core (ssc t2 c2 (ssc t1 c1 cs))
      = map cond_core (ssc u2 c2 (ssc u1 c1 (ssc t2 c2 (ssc t1 c1 cs))))"
    using upsert_two_conditions_idem[of "cond_core c1" "cond_core c2"] assms(2)
    by (simp add: sets_core)
qed

lemma status_of_two:
  assumes "c_type c1 \<noteq> c_type c2"
  shows "map_option c_status (find_condition (c_type c1) (ssc t2 c2 (ssc t1 c1 cs))) = Some (c_status c1)"
    and "map_option c_status (find_condition (c_type c2) (ssc t2 c2 (ssc t1 c1 cs))) = Some (c_status c2)"
  using assms by (intro status_of_core, simp add: sets_find)+

lemma status_of_verdict:
  "map_option c_status (find_condition pollResponseValidatedCondition
     (ssc t2 (countedCondition s r m g) (ssc t1 (validatedCondition s' r' m' g') cs))) = Some s'"
  "map_option c_status (find_condition pollResponseCountedCondition
     (ssc t2 (countedCondition s r m g) (ssc t1 (validatedCondition s' r' m' g') cs))) = Some s"
  using status_of_two[of "validatedCondition s' r' m' g'" "countedCondition s r m g" t2 t1 cs]
  by simp_all

lemma accepted_consistent: "verdict_consistent (acceptedStatus ssc resp g now t1 t2)"
  unfolding verdict_consistent_def Let_def verdict_fields status_of_verdict
  by (simp split: option.split)

lemma rejected_consistent: "verdict_consistent (rejectedStatus ssc resp g reason message t1 t2)"
  unfolding verdict_consistent_def Let_def verdict_fields status_of_verdict by simp

end

sublocale status_condition_setter \<subseteq> response_writer: status_writer
  "response_desired ssc" responseStatusEqual response_agree response_conditions_ok
proof unfold_locales
  fix st :: PollResponseStatus and v w :: response_view
  assume ok: "response_conditions_ok st" and agree: "response_agree v w"
  obtain resp g verdict now t1 t2 where v: "v = (resp, g, verdict, now, t1, t2)" by (cases v)
  obtain resp' g' verdict' now' u1 u2 where w: "w = (resp', g', verdict', now', u1, u2)" by (cases w)
  have same: "m_generation (r_meta resp') = m_generation (r_meta resp)" "g' = g" "verdict' = verdict"
    using agree by (auto simp: response_agree_def v w)
  show "responseStatusEqual (response_desired ssc v st) (response_desired ssc w (response_desired ssc v st))"
    using ok same
    by (cases verdict)
      (auto simp: response_desired_def v w responseStatusEqual_def verdict_fields
        response_conditions_ok_def two_conditions_settle split: option.splits)
qed

context status_condition_setter
begin

lemma response_patches_at_most_one:
  assumes "response_conditions_ok st" and "\<And>x y. x \<in> set views \<Longrightarrow> y \<in> set views \<Longrightarrow> response_agree x y"
  shows "patches (response_desired ssc) responseStatusEqual views st \<le> 1"
  by (rule response_writer.at_most_one_patch[OF assms])

end

section \<open>The paths of a reconcile\<close>

lemma PollResponseReconcile_get_error:
  assumes "env_getResponse env req s = (Inl err, s1)"
  shows "PollResponseReconcile env req s
    = (if IsNotFound err then Inr empty_result else Inl (Errorf ''get PollResponse'' err), s1)"
  using assms by (simp add: PollResponseReconcile_def)

lemma PollResponseReconcile_deleted:
  assumes "env_getResponse env req s = (Inr resp, s1)"
    and "m_deletionTimestamp (r_meta resp) \<noteq> None"
  shows "PollResponseReconcile env req s = (Inr empty_result, s1)"
  unfolding PollResponseReconcile_def assms(1) prod.case sum.case using assms(2) by simp

text \<open>The Poll a response names.\<close>

definition pollKeyOf :: "PollResponse \<Rightarrow> NamespacedName" where
  "pollKeyOf resp = NamespacedName (m_namespace (r_meta resp)) (ref_name (rs_pollRef (r_spec resp)))"

lemma pollKeyOf_simps [simp]:
  "nn_namespace (pollKeyOf resp) = m_namespace (r_meta resp)"
  "nn_name (pollKeyOf resp) = ref_name (rs_pollRef (r_spec resp))"
  by (simp_all add: pollKeyOf_def)

lemma PollResponseReconcile_live:
  assumes "env_getResponse env req s = (Inr resp, s1)" and "m_deletionTimestamp (r_meta resp) = None"
  shows "PollResponseReconcile env req s =
    (case env_getPoll env (pollKeyOf resp) s1 of
       (Inl err, s2) \<Rightarrow>
         (if IsNotFound err
          then rejectResponse env resp 0 reasonPollNotFound
                 (''Poll '' @ goQuote (env_isPrint env) (ref_name (rs_pollRef (r_spec resp)))
                  @ '' not found in namespace ''
                  @ goQuote (env_isPrint env) (m_namespace (r_meta resp))) s2
          else (Inl (Errorf ''get Poll'' err), s2))
     | (Inr poll, s2) \<Rightarrow>
         (case ensureOwnerReference env resp poll s2 of
            (Inl err, s3) \<Rightarrow> (Inl err, s3)
          | (Inr resp, s3) \<Rightarrow>
              (case env_now env s3 of (now, s4) \<Rightarrow>
                 case validateResponse (env_isPrint env) poll resp now of
                   Some verr \<Rightarrow> rejectResponse env resp (m_generation (p_meta poll))
                                  (ve_reason verr) (ve_message verr) s4
                 | None \<Rightarrow> acceptResponse env resp (m_generation (p_meta poll)) s4)))"
  unfolding PollResponseReconcile_def assms(1) prod.case sum.case Let_def pollKeyOf_def
    NamespacedName.sel
  by (simp only: assms(2) simp_thms if_False)

lemma PollResponseReconcile_poll_missing:
  assumes "env_getResponse env req s = (Inr resp, s1)" and "m_deletionTimestamp (r_meta resp) = None"
    and "env_getPoll env (pollKeyOf resp) s1 = (Inl err, s2)" and "IsNotFound err"
  shows "PollResponseReconcile env req s
    = rejectResponse env resp 0 reasonPollNotFound
        (''Poll '' @ goQuote (env_isPrint env) (ref_name (rs_pollRef (r_spec resp)))
         @ '' not found in namespace '' @ goQuote (env_isPrint env) (m_namespace (r_meta resp))) s2"
  unfolding PollResponseReconcile_live[OF assms(1,2)] assms(3) prod.case sum.case
  using assms(4) by simp

lemma PollResponseReconcile_verdict:
  assumes "env_getResponse env req s = (Inr resp, s1)" and "m_deletionTimestamp (r_meta resp) = None"
    and "env_getPoll env (pollKeyOf resp) s1 = (Inr poll, s2)"
    and "ensureOwnerReference env resp poll s2 = (Inr resp', s3)" and "env_now env s3 = (now, s4)"
  shows "PollResponseReconcile env req s
    = (case validateResponse (env_isPrint env) poll resp' now of
         Some verr \<Rightarrow> rejectResponse env resp' (m_generation (p_meta poll))
                        (ve_reason verr) (ve_message verr) s4
       | None \<Rightarrow> acceptResponse env resp' (m_generation (p_meta poll)) s4)"
  unfolding PollResponseReconcile_live[OF assms(1,2)] assms(3-5) prod.case sum.case ..

lemma ensureOwnerReference_owned:
  assumes "\<exists>ref \<in> set (m_ownerReferences (r_meta resp)). or_uid ref = m_uid (p_meta poll)"
  shows "ensureOwnerReference env resp poll s = (Inr resp, s)"
  using assms by (simp add: ensureOwnerReference_def list_ex_iff)

lemma persistResponseStatus_unchanged:
  "responseStatusEqual (r_status resp) desired
     \<Longrightarrow> persistResponseStatus env resp desired s = (Inr empty_result, s)"
  by (simp add: persistResponseStatus_def)

lemma responseStatusEqual_fields:
  assumes "responseStatusEqual a b"
  shows "rst_phase a = rst_phase b"
    and "rst_observedPollGeneration a = rst_observedPollGeneration b"
    and "timePtrEqual (rst_acceptedAt a) (rst_acceptedAt b)"
    and "conditionsEqualIgnoringTransition (rst_conditions a) (rst_conditions b)"
  using assms by (auto simp: responseStatusEqual_def split: if_splits)

lemma validateResponse_status [simp]:
  "validateResponse pr poll (resp\<lparr>r_status := st\<rparr>) now = validateResponse pr poll resp now"
  "validateResponse pr poll (resp\<lparr>r_meta := m\<rparr>) now = validateResponse pr poll resp now"
  "validateResponse pr (poll\<lparr>p_status := st'\<rparr>) resp now = validateResponse pr poll resp now"
  by (simp_all add: validateResponse_def Let_def cong: option.case_cong)

section \<open>Errors\<close>

definition response_failure :: "wrapped_error \<Rightarrow> bool" where
  "response_failure e \<longleftrightarrow> (case e of Errorf msg err \<Rightarrow>
     (msg \<in> {''get PollResponse'', ''get Poll''} \<and> \<not> IsNotFound err)
   \<or> msg \<in> {''set controller reference'', ''patch owner reference''}
   \<or> (msg = ''patch PollResponse status'' \<and> \<not> IsConflict err))"

lemma persistResponseStatus_failure:
  "fst (persistResponseStatus env resp desired s) = Inl e \<Longrightarrow> response_failure e"
  by (auto simp: persistResponseStatus_def response_failure_def split: if_splits sum.splits prod.splits)

lemma verdict_failure:
  "fst (acceptResponse env resp g s) = Inl e \<Longrightarrow> response_failure e"
  "fst (rejectResponse env resp g reason message s) = Inl e \<Longrightarrow> response_failure e"
  by (auto simp: acceptResponse_def rejectResponse_def dest: persistResponseStatus_failure
      split: prod.splits)

lemma ensureOwnerReference_failure:
  "fst (ensureOwnerReference env resp poll s) = Inl e \<Longrightarrow> response_failure e"
  by (auto simp: ensureOwnerReference_def response_failure_def split: if_splits sum.splits prod.splits)

lemma PollResponseReconcile_failure:
  assumes "fst (PollResponseReconcile env req s) = Inl e"
  shows "response_failure e"
proof -
  obtain got s1 where g: "env_getResponse env req s = (got, s1)" by fastforce
  show ?thesis
  proof (cases got)
    case (Inl err)
    with assms g show ?thesis
      by (auto simp: PollResponseReconcile_get_error response_failure_def split: if_splits)
  next
    case (Inr resp)
    note g' = g[unfolded Inr]
    show ?thesis
    proof (cases "m_deletionTimestamp (r_meta resp) = None")
      case False
      with assms show ?thesis by (simp add: PollResponseReconcile_deleted[OF g'])
    next
      case True
      note live = PollResponseReconcile_live[OF g' True]
      obtain polled s2 where p: "env_getPoll env (pollKeyOf resp) s1 = (polled, s2)" by fastforce
      show ?thesis
      proof (cases polled)
        case (Inl err)
        with assms p verdict_failure(2) show ?thesis
          by (auto simp: live response_failure_def split: if_splits)
      next
        case (Inr poll)
        obtain owned s3 where o': "ensureOwnerReference env resp poll s2 = (owned, s3)" by fastforce
        obtain now s4 where n: "env_now env s3 = (now, s4)" by fastforce
        show ?thesis
          using assms o' ensureOwnerReference_failure[of env resp poll s2 e] verdict_failure
          by (cases owned) (auto simp: live p Inr n split: option.splits)
      qed
    qed
  qed
qed

end
