(* ===== verification/Cluster_Store.thy ===== *)
theory Cluster_Store
  imports Poll_Reconciler Response_Reconciler "HOL-Library.Multiset"
begin

text \<open>
  The reconcilers against a store that nobody else writes to. \<open>api_store\<close> states what the
  API server and the library promise in that case; \<open>memory\<close> is a store in memory that
  keeps the promise and at which the witnesses evaluate. Inside the locale: what one
  reconcile of a response leaves behind, and what a round over all responses of a Poll
  followed by the Poll itself makes of its results.
\<close>

section \<open>The contract of the store\<close>

text \<open>A stored response status, like a Poll's (\<open>same_poll_status\<close>), may have its times rounded.\<close>

definition same_response_status :: "PollResponseStatus \<Rightarrow> PollResponseStatus \<Rightarrow> bool" where
  "same_response_status a b \<longleftrightarrow> rst_phase a = rst_phase b
     \<and> rst_observedPollGeneration a = rst_observedPollGeneration b
     \<and> (rst_acceptedAt a = None \<longleftrightarrow> rst_acceptedAt b = None)
     \<and> map cond_core (rst_conditions a) = map cond_core (rst_conditions b)"

text \<open>A response that no other object controls, so that its Poll can become its owner.\<close>

definition ownable :: "Poll \<Rightarrow> PollResponse \<Rightarrow> bool" where
  "ownable poll resp \<longleftrightarrow>
     list_ex (\<lambda>ref. or_uid ref = m_uid (p_meta poll)) (m_ownerReferences (r_meta resp))
   \<or> list_all (\<lambda>ref. \<not> or_controller ref) (m_ownerReferences (r_meta resp))"

locale api_store =
  fixes env :: "'s kube_env"
    and polls :: "'s \<Rightarrow> NamespacedName \<Rightarrow> Poll option"
    and responses :: "'s \<Rightarrow> NamespacedName \<Rightarrow> PollResponse option"
  assumes get_poll: "case polls s k of
        None \<Rightarrow> (\<exists>e. env_getPoll env k s = (Inl e, s) \<and> IsNotFound e)
      | Some p \<Rightarrow> env_getPoll env k s = (Inr p, s)"
    and get_response: "case responses s k of
        None \<Rightarrow> (\<exists>e. env_getResponse env k s = (Inl e, s) \<and> IsNotFound e)
      | Some r \<Rightarrow> env_getResponse env k s = (Inr r, s)"
    and list_responses: "\<exists>rs. env_listResponses env ns s = (Inr rs, s) \<and> distinct (map response_key rs)
      \<and> set rs = {r. m_namespace (r_meta r) = ns \<and> responses s (response_key r) = Some r}"
    and now: "env_now env s = (t, s') \<Longrightarrow> polls s' = polls s \<and> responses s' = responses s"
    and poll_keys: "polls s k = Some p \<Longrightarrow> poll_key p = k"
    and response_keys: "responses s k = Some r \<Longrightarrow> response_key r = k"
    and patch_poll_status: "polls s (poll_key p) = Some p \<Longrightarrow>
      \<exists>st' s'. env_patchPollStatus env p (p\<lparr>p_status := st\<rparr>) s = (Inr (p\<lparr>p_status := st'\<rparr>), s')
        \<and> same_poll_status st st' \<and> polls s' = (polls s)(poll_key p \<mapsto> p\<lparr>p_status := st'\<rparr>)
        \<and> responses s' = responses s"
    and patch_response_status: "responses s (response_key r) = Some r \<Longrightarrow>
      \<exists>rst' s'. env_patchResponseStatus env r (r\<lparr>r_status := rst\<rparr>) s = (Inr (r\<lparr>r_status := rst'\<rparr>), s')
        \<and> same_response_status rst rst'
        \<and> responses s' = (responses s)(response_key r \<mapsto> r\<lparr>r_status := rst'\<rparr>) \<and> polls s' = polls s"
    and patch_owners: "responses s (response_key r) = Some r \<Longrightarrow>
      \<exists>s'. env_patchResponse env r (r\<lparr>r_meta := (r_meta r)\<lparr>m_ownerReferences := refs\<rparr>\<rparr>) s
          = (Inr (r\<lparr>r_meta := (r_meta r)\<lparr>m_ownerReferences := refs\<rparr>\<rparr>), s')
        \<and> responses s' = (responses s)(response_key r \<mapsto>
             r\<lparr>r_meta := (r_meta r)\<lparr>m_ownerReferences := refs\<rparr>\<rparr>) \<and> polls s' = polls s"
    and set_controller: "list_all (\<lambda>ref. \<not> or_controller ref) (m_ownerReferences (r_meta r)) \<Longrightarrow>
      \<exists>refs. env_setControllerReference env poll r
        = Inr (r\<lparr>r_meta := (r_meta r)\<lparr>m_ownerReferences := refs\<rparr>\<rparr>)
        \<and> list_ex (\<lambda>ref. or_uid ref = m_uid (p_meta poll)) refs"

lemma same_namespace:
  "response_key r = response_key r' \<Longrightarrow> m_namespace (r_meta r) = m_namespace (r_meta r')"
  by (simp add: response_key_def)

section \<open>Draining the work queue\<close>

text \<open>The requests of a watch event, reconciled one after the other.\<close>

fun reconcileResponses :: "'s kube_env \<Rightarrow> NamespacedName list \<Rightarrow> 's \<Rightarrow> 's" where
  "reconcileResponses env [] s = s"
| "reconcileResponses env (k # ks) s =
     reconcileResponses env ks (snd (PollResponseReconcile env k s))"

text \<open>\<open>r'\<close> is the response \<open>r\<close> after a verdict.\<close>

definition judged :: "bool \<Rightarrow> PollResponse \<Rightarrow> PollResponse \<Rightarrow> bool" where
  "judged valid r r' \<longleftrightarrow> r_spec r' = r_spec r \<and> response_key r' = response_key r
     \<and> rst_phase (r_status r')
         = (if valid then PollResponsePhaseAccepted else PollResponsePhaseRejected)"

lemma response_key_status [simp]: "response_key (r\<lparr>r_status := st\<rparr>) = response_key r"
  by (simp add: response_key_def)

lemma response_key_owners [simp]:
  "response_key (r\<lparr>r_meta := (r_meta r)\<lparr>m_ownerReferences := refs\<rparr>\<rparr>) = response_key r"
  by (simp add: response_key_def)

text \<open>What is stored after a write: the old status if it compares equal, or the desired one.\<close>

definition written_response :: "PollResponseStatus \<Rightarrow> PollResponseStatus \<Rightarrow> PollResponseStatus \<Rightarrow> bool" where
  "written_response old desired st \<longleftrightarrow>
     (if responseStatusEqual old desired then st = old else same_response_status desired st)"

lemma written_response_phase: "written_response old desired st \<Longrightarrow> rst_phase st = rst_phase desired"
  by (auto simp: written_response_def same_response_status_def responseStatusEqual_fields(1) split: if_splits)

context api_store
begin

lemma read_poll: "polls s k = Some p \<Longrightarrow> env_getPoll env k s = (Inr p, s)"
  using get_poll[of k s] by simp

lemma read_response: "responses s k = Some r \<Longrightarrow> env_getResponse env k s = (Inr r, s)"
  using get_response[of k s] by simp

text \<open>Writing a verdict stores it, or finds it stored.\<close>

lemma persist_core:
  assumes "responses s (response_key r) = Some r"
  obtains st s' where "persistResponseStatus env r desired s = (Inr empty_result, s')"
    "responses s' = (responses s)(response_key r \<mapsto> r\<lparr>r_status := st\<rparr>)" "polls s' = polls s"
    "written_response (r_status r) desired st"
proof (cases "responseStatusEqual (r_status r) desired")
  case True
  then show ?thesis
    using assms
    by (intro that[of s "r_status r"])
      (auto simp: persistResponseStatus_unchanged written_response_def fun_upd_idem)
next
  case False
  from patch_response_status[OF assms, of desired] obtain st' s' where
    "env_patchResponseStatus env r (r\<lparr>r_status := desired\<rparr>) s = (Inr (r\<lparr>r_status := st'\<rparr>), s')"
    "same_response_status desired st'"
    "responses s' = (responses s)(response_key r \<mapsto> r\<lparr>r_status := st'\<rparr>)" "polls s' = polls s"
    by blast
  then show ?thesis
    using False by (intro that[of s' st']) (auto simp: persistResponseStatus_def written_response_def)
qed

lemma persist_verdict:
  assumes "responses s (response_key r) = Some r"
  shows "\<exists>r' s'. persistResponseStatus env r desired s = (Inr empty_result, s')
    \<and> responses s' = (responses s)(response_key r \<mapsto> r') \<and> polls s' = polls s
    \<and> r_spec r' = r_spec r \<and> r_meta r' = r_meta r \<and> response_key r' = response_key r
    \<and> rst_phase (r_status r') = rst_phase desired"
proof -
  from persist_core[OF assms, of desired] obtain st s' where
    w: "persistResponseStatus env r desired s = (Inr empty_result, s')"
    "responses s' = (responses s)(response_key r \<mapsto> r\<lparr>r_status := st\<rparr>)" "polls s' = polls s"
    "written_response (r_status r) desired st"
    by blast
  from w(1-3) written_response_phase[OF w(4)] show ?thesis
    by (intro exI[of _ "r\<lparr>r_status := st\<rparr>"] exI[of _ s']) simp
qed

lemma accept_stores:
  assumes "responses s (response_key r) = Some r"
  shows "\<exists>r' s'. acceptResponse env r g s = (Inr empty_result, s')
    \<and> responses s' = (responses s)(response_key r \<mapsto> r') \<and> polls s' = polls s
    \<and> judged True r r' \<and> r_meta r' = r_meta r"
proof -
  obtain now s1 where n: "(case rst_acceptedAt (r_status r) of None \<Rightarrow> env_now env s | Some t \<Rightarrow> (t, s))
      = (now, s1)"
    by fastforce
  obtain t1 s2 where t1: "env_now env s1 = (t1, s2)" by fastforce
  obtain t2 s3 where t2: "env_now env s2 = (t2, s3)" by fastforce
  have same: "responses s3 = responses s" "polls s3 = polls s"
    using n api_store.now[OF api_store_axioms] t1 t2
    by (auto split: option.splits)
  have "acceptResponse env r g s = persistResponseStatus env r
      (acceptedStatus (env_setStatusCondition env) r g now t1 t2) s3"
    by (simp add: acceptResponse_def n t1 t2)
  then show ?thesis
    using persist_verdict[of s3 r "acceptedStatus (env_setStatusCondition env) r g now t1 t2"] assms same
    by (auto simp: judged_def verdict_fields)
qed

lemma reject_stores:
  assumes "responses s (response_key r) = Some r"
  shows "\<exists>r' s'. rejectResponse env r g reason message s = (Inr empty_result, s')
    \<and> responses s' = (responses s)(response_key r \<mapsto> r') \<and> polls s' = polls s
    \<and> judged False r r' \<and> r_meta r' = r_meta r"
proof -
  obtain t1 s1 where t1: "env_now env s = (t1, s1)" by fastforce
  obtain t2 s2 where t2: "env_now env s1 = (t2, s2)" by fastforce
  have same: "responses s2 = responses s" "polls s2 = polls s"
    using now[OF t1] now[OF t2] by simp_all
  have "rejectResponse env r g reason message s = persistResponseStatus env r
      (rejectedStatus (env_setStatusCondition env) r g reason message t1 t2) s2"
    by (simp add: rejectResponse_def t1 t2)
  then show ?thesis
    using persist_verdict[of s2 r "rejectedStatus (env_setStatusCondition env) r g reason message t1 t2"]
      assms same
    by (auto simp: judged_def verdict_fields)
qed

lemma own_core:
  assumes "responses s (response_key r) = Some r" and "ownable poll r"
  obtains refs s' where "ensureOwnerReference env r poll s
      = (Inr (r\<lparr>r_meta := (r_meta r)\<lparr>m_ownerReferences := refs\<rparr>\<rparr>), s')"
    "responses s' = (responses s)(response_key r \<mapsto> r\<lparr>r_meta := (r_meta r)\<lparr>m_ownerReferences := refs\<rparr>\<rparr>)"
    "polls s' = polls s" "list_ex (\<lambda>ref. or_uid ref = m_uid (p_meta poll)) refs"
    "list_ex (\<lambda>ref. or_uid ref = m_uid (p_meta poll)) (m_ownerReferences (r_meta r))
      \<Longrightarrow> refs = m_ownerReferences (r_meta r)"
proof (cases "list_ex (\<lambda>ref. or_uid ref = m_uid (p_meta poll)) (m_ownerReferences (r_meta r))")
  case True
  with assms show ?thesis
    by (intro that[of "m_ownerReferences (r_meta r)" s]) (auto simp: ensureOwnerReference_def fun_upd_idem)
next
  case False
  then have "list_all (\<lambda>ref. \<not> or_controller ref) (m_ownerReferences (r_meta r))"
    using assms(2) by (simp add: ownable_def)
  from set_controller[OF this, of poll] obtain refs where refs:
    "env_setControllerReference env poll r = Inr (r\<lparr>r_meta := (r_meta r)\<lparr>m_ownerReferences := refs\<rparr>\<rparr>)"
    "list_ex (\<lambda>ref. or_uid ref = m_uid (p_meta poll)) refs"
    by blast
  from patch_owners[OF assms(1), of refs] obtain s' where
    "env_patchResponse env r (r\<lparr>r_meta := (r_meta r)\<lparr>m_ownerReferences := refs\<rparr>\<rparr>) s
      = (Inr (r\<lparr>r_meta := (r_meta r)\<lparr>m_ownerReferences := refs\<rparr>\<rparr>), s')"
    "responses s' = (responses s)(response_key r \<mapsto> r\<lparr>r_meta := (r_meta r)\<lparr>m_ownerReferences := refs\<rparr>\<rparr>)"
    "polls s' = polls s"
    by blast
  then show ?thesis
    using False refs by (intro that[of refs s']) (simp_all add: ensureOwnerReference_def)
qed

lemma own_stores:
  assumes "responses s (response_key r) = Some r" and "ownable poll r"
  shows "\<exists>r' s'. ensureOwnerReference env r poll s = (Inr r', s')
    \<and> responses s' = (responses s)(response_key r \<mapsto> r') \<and> polls s' = polls s
    \<and> r_spec r' = r_spec r \<and> response_key r' = response_key r \<and> ownable poll r'"
proof -
  from own_core[OF assms] obtain refs s' where
    "ensureOwnerReference env r poll s = (Inr (r\<lparr>r_meta := (r_meta r)\<lparr>m_ownerReferences := refs\<rparr>\<rparr>), s')"
    "responses s' = (responses s)(response_key r \<mapsto> r\<lparr>r_meta := (r_meta r)\<lparr>m_ownerReferences := refs\<rparr>\<rparr>)"
    "polls s' = polls s" "list_ex (\<lambda>ref. or_uid ref = m_uid (p_meta poll)) refs"
    by blast
  then show ?thesis
    by (intro exI[of _ "r\<lparr>r_meta := (r_meta r)\<lparr>m_ownerReferences := refs\<rparr>\<rparr>"] exI[of _ s'])
      (simp add: ownable_def)
qed

end

section \<open>A round of reconciliation\<close>

text \<open>The verdict depends on the clock only through \<open>closesAt\<close>.\<close>

lemma validateResponse_clock:
  assumes "pollClosed poll t = pollClosed poll u"
  shows "validateResponse pr poll r t = None \<longleftrightarrow> validateResponse pr poll r u = None"
  using assms by (simp add: validateResponse_None)

lemma validateResponse_spec_cong:
  "r_spec r' = r_spec r \<Longrightarrow> validateResponse pr poll r' t = validateResponse pr poll r t"
  by (simp add: validateResponse_def Let_def cong: option.case_cong)

definition names_poll :: "Poll \<Rightarrow> PollResponse \<Rightarrow> bool" where
  "names_poll poll r \<longleftrightarrow> ref_name (rs_pollRef (r_spec r)) = m_name (p_meta poll)"

text \<open>A response that the reconciler can act on.\<close>

definition live :: "Poll \<Rightarrow> PollResponse \<Rightarrow> bool" where
  "live poll r \<longleftrightarrow> m_namespace (r_meta r) = m_namespace (p_meta poll) \<and> names_poll poll r
     \<and> m_deletionTimestamp (r_meta r) = None \<and> ownable poll r"

lemma live_key: "live poll r \<Longrightarrow> pollKeyOf r = poll_key poll"
  by (simp add: live_def names_poll_def pollKeyOf_def poll_key_def)

context api_store
begin

lemma reconcile_response:
  assumes r: "responses s k = Some r" and p: "polls s (poll_key poll) = Some poll"
    and live: "live poll r" and clock: "\<And>s. pollClosed poll (fst (env_now env s)) = pollClosed poll t"
  shows "\<exists>r' s'. PollResponseReconcile env k s = (Inr empty_result, s')
    \<and> responses s' = (responses s)(k \<mapsto> r') \<and> polls s' = polls s
    \<and> judged (validateResponse (env_isPrint env) poll r t = None) r r' \<and> ownable poll r'"
proof -
  have k: "response_key r = k" by (rule response_keys[OF r])
  have stored: "responses s (response_key r) = Some r" by (simp add: k r)
  from own_stores[OF stored, of poll] live obtain r1 s1 where
    own: "ensureOwnerReference env r poll s = (Inr r1, s1)"
    and s1: "responses s1 = (responses s)(k \<mapsto> r1)" "polls s1 = polls s"
    and r1: "r_spec r1 = r_spec r" "response_key r1 = k" "ownable poll r1"
    by (auto simp: live_def k)
  obtain now s2 where n: "env_now env s1 = (now, s2)" by fastforce
  have s2: "responses s2 = (responses s)(k \<mapsto> r1)" "polls s2 = polls s"
    using api_store.now[OF api_store_axioms n] s1 by simp_all
  have "pollClosed poll now = pollClosed poll t"
    using clock[of s1] n by simp
  then have valid: "validateResponse (env_isPrint env) poll r1 now = None
      \<longleftrightarrow> validateResponse (env_isPrint env) poll r t = None"
    using validateResponse_clock[of poll now t] validateResponse_spec_cong[OF r1(1)] by metis
  have get: "env_getPoll env (pollKeyOf r) s = (Inr poll, s)"
    using read_poll[OF p] live_key[OF live] by simp
  have del: "m_deletionTimestamp (r_meta r) = None" using live by (simp add: live_def)
  note step = PollResponseReconcile_verdict[OF read_response[OF r] del get own n]
  have stored2: "responses s2 (response_key r1) = Some r1"
    by (simp add: s2 r1)
  have keep: "judged v r r' \<and> ownable poll r'" if "judged v r1 r'" "r_meta r' = r_meta r1" for v r'
    using that r1 k by (simp add: judged_def ownable_def)
  show ?thesis
  proof (cases "validateResponse (env_isPrint env) poll r1 now")
    case None
    from accept_stores[OF stored2, of "m_generation (p_meta poll)"] obtain r' s' where
      "acceptResponse env r1 (m_generation (p_meta poll)) s2 = (Inr empty_result, s')"
      "responses s' = (responses s2)(k \<mapsto> r')" "polls s' = polls s2" "judged True r1 r'"
      "r_meta r' = r_meta r1"
      by (auto simp: r1(2))
    with None keep[of True r'] valid show ?thesis
      by (intro exI[of _ r'] exI[of _ s']) (simp add: step s2)
  next
    case (Some verr)
    from reject_stores[OF stored2, of "m_generation (p_meta poll)" "ve_reason verr" "ve_message verr"]
    obtain r' s' where
      "rejectResponse env r1 (m_generation (p_meta poll)) (ve_reason verr) (ve_message verr) s2
        = (Inr empty_result, s')"
      "responses s' = (responses s2)(k \<mapsto> r')" "polls s' = polls s2" "judged False r1 r'"
      "r_meta r' = r_meta r1"
      by (auto simp: r1(2))
    with Some keep[of False r'] valid show ?thesis
      by (intro exI[of _ r'] exI[of _ s']) (auto simp: step s2)
  qed
qed

text \<open>A response whose Poll does not exist is rejected.\<close>

lemma reconcile_orphan:
  assumes r: "responses s k = Some r" and p: "polls s (pollKeyOf r) = None"
    and del: "m_deletionTimestamp (r_meta r) = None"
  shows "\<exists>r' s'. PollResponseReconcile env k s = (Inr empty_result, s')
    \<and> responses s' = (responses s)(k \<mapsto> r') \<and> polls s' = polls s \<and> judged False r r'"
proof -
  have k: "response_key r = k" by (rule response_keys[OF r])
  from p get_poll[of "pollKeyOf r" s] obtain e where
    e: "env_getPoll env (pollKeyOf r) s = (Inl e, s)" "IsNotFound e"
    by auto
  show ?thesis
    unfolding PollResponseReconcile_poll_missing[OF read_response[OF r] del e]
    using reject_stores[of s r] r unfolding k by blast
qed

lemma reconcile_responses:
  assumes "distinct ks" and "polls s (poll_key poll) = Some poll"
    and "\<And>k. k \<in> set ks \<Longrightarrow> \<exists>r. responses s k = Some r \<and> live poll r"
    and clock: "\<And>s. pollClosed poll (fst (env_now env s)) = pollClosed poll t"
    and "s' = reconcileResponses env ks s"
  shows "polls s' = polls s"
    and "k \<notin> set ks \<Longrightarrow> responses s' k = responses s k"
    and "k \<in> set ks \<Longrightarrow> \<exists>r r'. responses s k = Some r \<and> responses s' k = Some r'
      \<and> judged (validateResponse (env_isPrint env) poll r t = None) r r'"
proof -
  have "polls s' = polls s \<and> (\<forall>k. k \<notin> set ks \<longrightarrow> responses s' k = responses s k)
    \<and> (\<forall>k \<in> set ks. \<exists>r r'. responses s k = Some r \<and> responses s' k = Some r'
         \<and> judged (validateResponse (env_isPrint env) poll r t = None) r r')"
    using assms(1-3,5)
  proof (induction ks arbitrary: s)
    case Nil
    then show ?case by simp
  next
    case (Cons k ks)
    from Cons.prems(3)[of k] obtain r where r: "responses s k = Some r" "live poll r" by auto
    from reconcile_response[OF r(1) Cons.prems(2) r(2) clock] obtain r' s1 where
      one: "PollResponseReconcile env k s = (Inr empty_result, s1)"
        "responses s1 = (responses s)(k \<mapsto> r')" "polls s1 = polls s"
        "judged (validateResponse (env_isPrint env) poll r t = None) r r'"
      by blast
    have rest: "polls s' = polls s1 \<and> (\<forall>k. k \<notin> set ks \<longrightarrow> responses s' k = responses s1 k)
      \<and> (\<forall>k \<in> set ks. \<exists>r r'. responses s1 k = Some r \<and> responses s' k = Some r'
           \<and> judged (validateResponse (env_isPrint env) poll r t = None) r r')"
    proof (rule Cons.IH)
      show "distinct ks" "polls s1 (poll_key poll) = Some poll"
        using Cons.prems one by simp_all
      show "\<exists>r. responses s1 k' = Some r \<and> live poll r" if "k' \<in> set ks" for k'
        using Cons.prems(1) Cons.prems(3)[of k'] that one(2) by auto
      show "s' = reconcileResponses env ks s1"
        using Cons.prems(4) one(1) by simp
    qed
    have "\<exists>r r'. responses s k' = Some r \<and> responses s' k' = Some r'
        \<and> judged (validateResponse (env_isPrint env) poll r t = None) r r'" if "k' \<in> set (k # ks)" for k'
    proof (cases "k' = k")
      case True
      with rest one r Cons.prems(1) show ?thesis by auto
    next
      case False
      with rest one that show ?thesis by auto
    qed
    with rest one Cons.prems(1) show ?case by auto
  qed
  then show "polls s' = polls s" "k \<notin> set ks \<Longrightarrow> responses s' k = responses s k"
    "k \<in> set ks \<Longrightarrow> \<exists>r r'. responses s k = Some r \<and> responses s' k = Some r'
      \<and> judged (validateResponse (env_isPrint env) poll r t = None) r r'"
    by blast+
qed

end

section \<open>The tally does not depend on the order of the listing\<close>

lemma mset_countedAnswers:
  assumes "mset rs = mset rs'"
  shows "mset (countedAnswers poll rs) = mset (countedAnswers poll rs')"
proof -
  have "mset (countedAnswers poll xs)
      = sum_mset (image_mset (\<lambda>r. mset (rs_answers (r_spec r))) (filter_mset (counted poll) (mset xs)))" for xs
    by (induction xs) auto
  then show ?thesis using assms by simp
qed

lemma specResult_mset:
  assumes "mset as = mset bs"
  shows "specResult as q = specResult bs q"
proof -
  have "mset (selectionsFor qid xs)
      = sum_mset (image_mset (\<lambda>a. mset (a_selectedOptions a))
          (filter_mset (\<lambda>a. a_questionID a = qid) (mset xs)))" for qid xs
    by (induction xs) auto
  then have "count_list (selectionsFor qid as) opt = count_list (selectionsFor qid bs) opt" for qid opt
    using assms by (simp flip: count_mset)
  moreover have "mset (answersTo qid as) = mset (answersTo qid bs)" for qid
    using assms by (simp add: answersTo_def)
  then have "length (answersTo qid as) = length (answersTo qid bs)" for qid
    by (metis size_mset)
  ultimately show ?thesis
    by (simp add: specResult_def)
qed

text \<open>The votes a result row shows for an option, as \<open>statusEqual\<close> and the UI read it.\<close>

definition votesIn :: "QuestionResult \<Rightarrow> string \<Rightarrow> int32" where
  "votesIn row opt =
     (case index_by opt_option (qr_options row) Map.empty opt of None \<Rightarrow> 0 | Some o' \<Rightarrow> opt_votes o')"

text \<open>Every row of the expected results is there, up to the comparison of \<open>statusEqual\<close>.\<close>

definition shows_results :: "PollStatus \<Rightarrow> PollQuestion list \<Rightarrow> PollAnswer list \<Rightarrow> bool" where
  "shows_results st qs answers \<longleftrightarrow>
     (\<forall>q \<in> set qs. \<exists>row \<in> set (st_results st). qr_questionID row = q_id q
        \<and> qr_responses row = of_nat (length (answersTo (q_id q) answers))
        \<and> (\<forall>opt \<in> set (talliedOptions q).
             votesIn row opt = of_nat (count_list (selectionsFor (q_id q) answers) opt)))"

lemma resultEqual_shows:
  assumes "resultEqual row (specResult answers q)"
  shows "qr_responses row = of_nat (length (answersTo (q_id q) answers))"
    and "opt \<in> set (talliedOptions q) \<Longrightarrow>
      votesIn row opt = of_nat (count_list (selectionsFor (q_id q) answers) opt)"
  using assms by (auto simp: resultEqual_def specResult_def votesIn_def list_all_iff Let_def split: if_splits)

lemma statusEqual_shows:
  assumes "statusEqual st d" and "st_results d = map (specResult answers) qs"
  shows "shows_results st qs answers"
  unfolding shows_results_def
proof (rule ballI)
  fix q assume "q \<in> set qs"
  then have "specResult answers q \<in> set (st_results d)"
    using assms(2) by simp
  from statusEqual_results[OF assms(1) this]
  obtain row where "row \<in> set (st_results st)" "qr_questionID row = qr_questionID (specResult answers q)"
    "resultEqual row (specResult answers q)"
    by blast
  with resultEqual_shows[OF this(3)]
  show "\<exists>row \<in> set (st_results st). qr_questionID row = q_id q
      \<and> qr_responses row = of_nat (length (answersTo (q_id q) answers))
      \<and> (\<forall>opt \<in> set (talliedOptions q).
           votesIn row opt = of_nat (count_list (selectionsFor (q_id q) answers) opt))"
    by (auto simp: specResult_def)
qed

lemma results_show_themselves:
  assumes "wf_questions qs" and "st_results st = map (specResult answers) qs"
  shows "shows_results st qs answers"
proof -
  let ?st = "st\<lparr>st_conditions := []\<rparr>"
  have "shape (map (specResult answers) qs) = shape (map initResult qs)"
    by (simp add: shape_def specResult_def initResult_def comp_def)
  then have "wf_rows (st_results ?st)"
    using wf_rows_init[OF assms(1)] assms(2) by (simp add: wf_rows_def)
  then have "statusEqual ?st ?st"
    by (intro statusEqual_same_rows) (simp_all add: conditionsEqualIgnoringTransition_def)
  from statusEqual_shows[OF this] assms(2) show ?thesis
    by (simp add: shows_results_def)
qed

lemma shows_results_mset:
  assumes "mset as = mset bs"
  shows "shows_results st qs as = shows_results st qs bs"
proof -
  have "specResult as q = specResult bs q" for q by (rule specResult_mset[OF assms])
  then have "qr_responses (specResult as q) = qr_responses (specResult bs q)"
    "map opt_votes (qr_options (specResult as q)) = map opt_votes (qr_options (specResult bs q))" for q
    by simp_all
  then show ?thesis
    by (simp add: shows_results_def specResult_def comp_def)
qed

section \<open>Results after a round\<close>

text \<open>The responses that ought to count: those that name the Poll and validate against it.\<close>

definition valid_for :: "(nat \<Rightarrow> bool) \<Rightarrow> Poll \<Rightarrow> gotime \<Rightarrow> PollResponse \<Rightarrow> bool" where
  "valid_for pr poll t r \<longleftrightarrow> names_poll poll r \<and> validateResponse pr poll r t = None"

definition validAnswers :: "(nat \<Rightarrow> bool) \<Rightarrow> Poll \<Rightarrow> gotime \<Rightarrow> PollResponse list \<Rightarrow> PollAnswer list" where
  "validAnswers pr poll t rs = concat (map (\<lambda>r. rs_answers (r_spec r)) (filter (valid_for pr poll t) rs))"

lemma counted_after_verdict:
  assumes "names_poll poll r \<Longrightarrow> judged (validateResponse pr poll r t = None) r (f r)"
    and "\<not> names_poll poll r \<Longrightarrow> f r = r"
  shows "counted poll (f r) \<longleftrightarrow> valid_for pr poll t r" and "r_spec (f r) = r_spec r"
  using assms by (cases "names_poll poll r"; auto simp: counted_def judged_def valid_for_def names_poll_def)+

lemma tally_after_verdicts:
  assumes "\<And>r. r \<in> set rs \<Longrightarrow> counted poll (f r) \<longleftrightarrow> valid_for pr poll t r"
    and "\<And>r. r \<in> set rs \<Longrightarrow> r_spec (f r) = r_spec r"
  shows "countedAnswers poll (map f rs) = validAnswers pr poll t rs"
    and "filter (counted poll) (map f rs) = map f (filter (valid_for pr poll t) rs)"
  using assms by (induction rs) (auto simp: validAnswers_def)

text \<open>What a status that has been compared with the desired one, or written, shows.\<close>

lemma published_status:
  assumes wf: "wf_questions (ps_questions (p_spec poll))" and perm: "mset rs2 = mset rs"
    and st: "let d = desiredPollStatus ssc poll rs2 now u
       in if statusEqual (p_status poll) d then st = p_status poll else same_poll_status d st"
  shows "st_phase st = (if pollClosed poll now then PollPhaseClosed else PollPhaseOpen)
    \<and> st_totalResponses st = of_nat (length (filter (counted poll) rs))
    \<and> shows_results st (ps_questions (p_spec poll)) (countedAnswers poll rs)"
proof -
  let ?d = "desiredPollStatus ssc poll rs2 now u"
  have "mset (filter (counted poll) rs2) = mset (filter (counted poll) rs)"
    using perm by simp
  then have len: "length (filter (counted poll) rs2) = length (filter (counted poll) rs)"
    by (metis size_mset)
  have rows: "st_results ?d = map (specResult (countedAnswers poll rs)) (ps_questions (p_spec poll))"
    by (simp add: desiredPollStatus_fields aggregateResults_eq[OF wf]
        specResult_mset[OF mset_countedAnswers[OF perm]])
  have total: "st_totalResponses ?d = of_nat (length (filter (counted poll) rs))"
    by (simp add: desiredPollStatus_fields aggregateResults_total len)
  have phase: "st_phase ?d = (if pollClosed poll now then PollPhaseClosed else PollPhaseOpen)"
    by (simp add: desiredPollStatus_fields computePhase_phase)
  show ?thesis
  proof (cases "statusEqual (p_status poll) ?d")
    case True
    then show ?thesis
      using st statusEqual_fields[OF True] statusEqual_shows[OF True rows] phase total by simp
  next
    case False
    then have "same_poll_status ?d st" using st by simp
    then show ?thesis
      using results_show_themselves[OF wf, of st] rows phase total by (simp add: same_poll_status_def)
  qed
qed

context api_store
begin

lemma listing_after:
  assumes "env_listResponses env ns s = (Inr rs, s)" and "env_listResponses env ns s1 = (Inr rs1, s1)"
    and same: "\<And>k. responses s k = None \<Longrightarrow> responses s1 k = None"
    and moved: "\<And>k r. responses s k = Some r \<Longrightarrow> responses s1 k = Some (f r) \<and> response_key (f r) = response_key r"
  shows "mset rs1 = mset (map f rs)"
proof -
  have rs: "distinct (map response_key rs)"
      "set rs = {r. m_namespace (r_meta r) = ns \<and> responses s (response_key r) = Some r}"
    using list_responses[of ns s] assms(1) by auto
  have rs1: "distinct (map response_key rs1)"
      "set rs1 = {r. m_namespace (r_meta r) = ns \<and> responses s1 (response_key r) = Some r}"
    using list_responses[of ns s1] assms(2) by auto
  have keys: "response_key (f r) = response_key r" if "r \<in> set rs" for r
    using that moved rs(2) by blast
  then have "map response_key (map f rs) = map response_key rs" by simp
  then have "distinct (map f rs)"
    using rs(1) distinct_map by metis
  moreover have "distinct rs1" using rs1(1) by (simp add: distinct_map)
  moreover have "set rs1 = set (map f rs)"
  proof (intro set_eqI iffI)
    fix r1 assume "r1 \<in> set rs1"
    then have r1: "m_namespace (r_meta r1) = ns" "responses s1 (response_key r1) = Some r1"
      using rs1(2) by auto
    then obtain r where r: "responses s (response_key r1) = Some r"
      using same by (cases "responses s (response_key r1)") auto
    have key: "response_key r = response_key r1" by (rule response_keys[OF r])
    have "f r = r1" using conjunct1[OF moved[OF r]] r1(2) by simp
    moreover have "r \<in> set rs"
      using rs(2) r r1(1) key same_namespace[OF key] by simp
    ultimately show "r1 \<in> set (map f rs)" by auto
  next
    fix r1 assume "r1 \<in> set (map f rs)"
    then obtain r where r: "r \<in> set rs" "r1 = f r" by auto
    then have old: "responses s (response_key r) = Some r" "m_namespace (r_meta r) = ns"
      using rs(2) by auto
    have key: "response_key r1 = response_key r"
      unfolding r(2) by (rule conjunct2[OF moved[OF old(1)]])
    have "responses s1 (response_key r1) = Some r1"
      unfolding key unfolding r(2) by (rule conjunct1[OF moved[OF old(1)]])
    moreover have "m_namespace (r_meta r1) = ns"
      using same_namespace[OF key] old(2) by simp
    ultimately have "responses s1 (response_key r1) = Some r1" "m_namespace (r_meta r1) = ns"
      by blast+
    then show "r1 \<in> set rs1" using rs1(2) by simp
  qed
  ultimately show ?thesis
    using set_eq_iff_mset_eq_distinct[of rs1 "map f rs"] by blast
qed

lemma requeueAtClose_frame:
  "\<exists>res s'. requeueAtClose env phase poll s = (Inr res, s') \<and> polls s' = polls s \<and> responses s' = responses s"
proof (cases "phase = PollPhaseOpen \<and> ps_closesAt (p_spec poll) \<noteq> None")
  case True
  then obtain c where "ps_closesAt (p_spec poll) = Some c" by auto
  moreover obtain t s1 where "env_now env s = (t, s1)" by fastforce
  ultimately show ?thesis
    using True now[of s t s1] by (auto simp: requeueAtClose_def Let_def)
next
  case False
  then show ?thesis by (auto simp: requeueAtClose_def)
qed

text \<open>
  One reconcile of a stored Poll: the status it wants, which is stored afterwards up to the
  comparison or the server's rounding, and the requeue it asks for.
\<close>

lemma reconcile_poll_core:
  assumes p: "polls s (poll_key poll) = Some poll"
    and list: "env_listResponses env (m_namespace (p_meta poll)) s = (Inr rs, s)"
  obtains res s' s4 st rs2 u where
    "PollReconcile env (poll_key poll) s = (Inr res, s')"
    "requeueAtClose env (fst (computePhase poll (p_status poll) (fst (env_now env s))))
       (poll\<lparr>p_status := st\<rparr>) s4 = (Inr res, s')"
    "polls s' = (polls s)(poll_key poll \<mapsto> poll\<lparr>p_status := st\<rparr>)" "responses s' = responses s"
    "mset rs2 = mset rs"
    "let d = desiredPollStatus (env_setStatusCondition env) poll rs2 (fst (env_now env s)) u
     in if statusEqual (p_status poll) d then st = p_status poll else same_poll_status d st"
proof -
  obtain now s2 where n: "env_now env s = (now, s2)" by fastforce
  have s2: "polls s2 = polls s" "responses s2 = responses s"
    using api_store.now[OF api_store_axioms n] by simp_all
  obtain rs2 where rs2: "env_listResponses env (m_namespace (p_meta poll)) s2 = (Inr rs2, s2)"
    using list_responses by blast
  have perm: "mset rs2 = mset rs"
    using listing_after[OF list rs2, of "\<lambda>r. r"] s2 by simp
  obtain u s3 where n3: "env_now env s2 = (u, s3)" by fastforce
  have s3: "polls s3 = polls s" "responses s3 = responses s"
    using api_store.now[OF api_store_axioms n3] s2 by simp_all
  let ?d = "desiredPollStatus (env_setStatusCondition env) poll rs2 now u"
  let ?ph = "fst (computePhase poll (p_status poll) now)"
  note reads = read_poll[OF p] n rs2 n3
  show thesis
  proof (cases "statusEqual (p_status poll) ?d")
    case True
    obtain res s4 where r: "requeueAtClose env ?ph poll s3 = (Inr res, s4)"
      "polls s4 = polls s3" "responses s4 = responses s3"
      using requeueAtClose_frame by blast
    have "polls s4 = (polls s)(poll_key poll \<mapsto> poll\<lparr>p_status := p_status poll\<rparr>)"
      using p r(2) s3(1) by (simp add: fun_upd_idem)
    then show thesis
      using PollReconcile_unchanged[OF reads True] True r s3(2) perm
      by (intro that[of res s4 "p_status poll" s3 rs2 u]) (simp_all add: n)
  next
    case False
    have "polls s3 (poll_key poll) = Some poll" using p s3 by simp
    from patch_poll_status[OF this, of ?d] obtain st s4 where
      w: "env_patchPollStatus env poll (poll\<lparr>p_status := ?d\<rparr>) s3 = (Inr (poll\<lparr>p_status := st\<rparr>), s4)"
      "same_poll_status ?d st" "polls s4 = (polls s3)(poll_key poll \<mapsto> poll\<lparr>p_status := st\<rparr>)"
      "responses s4 = responses s3"
      by blast
    obtain res s5 where r: "requeueAtClose env ?ph (poll\<lparr>p_status := st\<rparr>) s4 = (Inr res, s5)"
      "polls s5 = polls s4" "responses s5 = responses s4"
      using requeueAtClose_frame by blast
    have "PollReconcile env (poll_key poll) s = (Inr res, s5)"
      using PollReconcile_patched[OF reads refl False w(1)] r(1) by simp
    then show thesis
      using r w(2-4) s3 perm False
      by (intro that[of res s5 st s4 rs2 u]) (simp_all add: n)
  qed
qed

lemma reconcile_poll:
  assumes p: "polls s (poll_key poll) = Some poll"
    and wf: "wf_questions (ps_questions (p_spec poll))"
    and list: "env_listResponses env (m_namespace (p_meta poll)) s = (Inr rs, s)"
    and clock: "\<And>s. pollClosed poll (fst (env_now env s)) = pollClosed poll t"
  shows "\<exists>res s' st. PollReconcile env (poll_key poll) s = (Inr res, s')
    \<and> polls s' (poll_key poll) = Some (poll\<lparr>p_status := st\<rparr>) \<and> responses s' = responses s
    \<and> st_phase st = (if pollClosed poll t then PollPhaseClosed else PollPhaseOpen)
    \<and> st_totalResponses st = of_nat (length (filter (counted poll) rs))
    \<and> shows_results st (ps_questions (p_spec poll)) (countedAnswers poll rs)"
proof -
  from reconcile_poll_core[OF p list] obtain res s' s4 st rs2 u where
    run: "PollReconcile env (poll_key poll) s = (Inr res, s')"
    and stored: "polls s' = (polls s)(poll_key poll \<mapsto> poll\<lparr>p_status := st\<rparr>)" "responses s' = responses s"
    and perm: "mset rs2 = mset rs"
    and st: "let d = desiredPollStatus (env_setStatusCondition env) poll rs2 (fst (env_now env s)) u
       in if statusEqual (p_status poll) d then st = p_status poll else same_poll_status d st"
    by metis
  have "st_phase st = (if pollClosed poll t then PollPhaseClosed else PollPhaseOpen)
      \<and> st_totalResponses st = of_nat (length (filter (counted poll) rs))
      \<and> shows_results st (ps_questions (p_spec poll)) (countedAnswers poll rs)"
    unfolding clock[of s, symmetric] by (rule published_status[OF wf perm st])
  with run stored show ?thesis by auto
qed

end

text \<open>
  After an event on a Poll: the responses that the watch handler enqueues are reconciled,
  then the Poll. Its status then reports what the valid responses say, whatever phases
  the responses had before.
\<close>

context api_store
begin

lemma round_results:
  assumes p: "polls s (poll_key poll) = Some poll"
    and wf: "wf_questions (ps_questions (p_spec poll))"
    and list: "env_listResponses env (m_namespace (p_meta poll)) s = (Inr rs, s)"
    and live: "\<And>r. r \<in> set rs \<Longrightarrow> names_poll poll r \<Longrightarrow> live poll r"
    and clock: "\<And>s. pollClosed poll (fst (env_now env s)) = pollClosed poll t"
    and ks: "ks = fst (mapPollToResponses env poll s)"
  shows "\<exists>res s' st. PollReconcile env (poll_key poll) (reconcileResponses env ks s) = (Inr res, s')
    \<and> polls s' (poll_key poll) = Some (poll\<lparr>p_status := st\<rparr>)
    \<and> st_phase st = (if pollClosed poll t then PollPhaseClosed else PollPhaseOpen)
    \<and> st_totalResponses st = of_nat (length (filter (valid_for (env_isPrint env) poll t) rs))
    \<and> shows_results st (ps_questions (p_spec poll)) (validAnswers (env_isPrint env) poll t rs)"
proof -
  let ?s1 = "reconcileResponses env ks s"
  have ks': "ks = map response_key (filter (names_poll poll) rs)"
    by (simp add: ks mapPollToResponses_def list names_poll_def[abs_def])
  have rs: "distinct (map response_key rs)"
      "set rs = {r. m_namespace (r_meta r) = m_namespace (p_meta poll)
                  \<and> responses s (response_key r) = Some r}"
    using list_responses[of "m_namespace (p_meta poll)" s] list by auto
  have dist: "distinct ks"
    using rs(1) by (simp add: ks' distinct_map inj_on_def)
  have known: "\<exists>r. responses s k = Some r \<and> live poll r" if "k \<in> set ks" for k
    using that live rs(2) by (auto simp: ks')
  have polls1: "polls ?s1 = polls s"
    by (rule reconcile_responses(1)[OF dist p _ clock refl]) (rule known)
  have kept: "responses ?s1 k = responses s k" if "k \<notin> set ks" for k
    by (rule reconcile_responses(2)[OF dist p _ clock refl that]) (rule known)
  have seen: "\<exists>r r'. responses s k = Some r \<and> responses ?s1 k = Some r'
      \<and> judged (validateResponse (env_isPrint env) poll r t = None) r r'" if "k \<in> set ks" for k
    by (rule reconcile_responses(3)[OF dist p _ clock refl that]) (rule known)
  define f where "f = (\<lambda>r. the (responses ?s1 (response_key r)))"
  have judged: "responses ?s1 (response_key r) = Some (f r)
      \<and> judged (validateResponse (env_isPrint env) poll r t = None) r (f r)"
    if "responses s (response_key r) = Some r" and "response_key r \<in> set ks" for r
    using seen[OF that(2)] that(1) by (auto simp: f_def)
  have moved: "responses ?s1 k = Some (f r) \<and> response_key (f r) = response_key r"
    if r: "responses s k = Some r" for k r
  proof -
    have k: "response_key r = k" by (rule response_keys[OF r])
    show ?thesis
      using judged[of r] kept[of k] r
      by (cases "k \<in> set ks") (simp_all add: k judged_def f_def)
  qed
  have gone: "responses ?s1 k = None" if "responses s k = None" for k
    using kept[of k] known[of k] that by (cases "k \<in> set ks") auto
  obtain rs1 where list1: "env_listResponses env (m_namespace (p_meta poll)) ?s1 = (Inr rs1, ?s1)"
    using list_responses by blast
  have perm: "mset rs1 = mset (map f rs)"
    by (rule listing_after[OF list list1 gone moved])
  have unnamed: "f r = r" if "r \<in> set rs" "\<not> names_poll poll r" for r
  proof -
    have "response_key r \<notin> set ks"
    proof
      assume "response_key r \<in> set ks"
      then obtain r' where "r' \<in> set rs" "names_poll poll r'" "response_key r' = response_key r"
        by (auto simp: ks')
      with distinct_key_unique[OF rs(1) this(1) that(1)] that(2) show False by simp
    qed
    with kept that(1) rs(2) show ?thesis by (simp add: f_def)
  qed
  have verdict: "judged (validateResponse (env_isPrint env) poll r t = None) r (f r)"
    if "r \<in> set rs" "names_poll poll r" for r
    using judged[of r] that rs(2) by (auto simp: ks')
  have after: "counted poll (f r) \<longleftrightarrow> valid_for (env_isPrint env) poll t r" "r_spec (f r) = r_spec r"
    if "r \<in> set rs" for r
    by (rule counted_after_verdict; rule verdict unnamed; use that in simp)+
  have ca: "mset (countedAnswers poll rs1) = mset (validAnswers (env_isPrint env) poll t rs)"
    unfolding mset_countedAnswers[OF perm] by (subst tally_after_verdicts(1)) (simp_all add: after)
  have "filter (counted poll) (map f rs) = map f (filter (valid_for (env_isPrint env) poll t) rs)"
    by (rule tally_after_verdicts(2)) (simp_all add: after)
  then have "mset (filter (counted poll) rs1)
      = mset (map f (filter (valid_for (env_isPrint env) poll t) rs))"
    using perm by (metis mset_filter)
  then have len: "length (filter (counted poll) rs1)
      = length (filter (valid_for (env_isPrint env) poll t) rs)"
    by (metis length_map size_mset)
  have p1: "polls ?s1 (poll_key poll) = Some poll" using polls1 p by simp
  have "shows_results st qs (countedAnswers poll rs1)
      = shows_results st qs (validAnswers (env_isPrint env) poll t rs)" for st qs
    by (rule shows_results_mset[OF ca])
  then show ?thesis
    using reconcile_poll[OF p1 wf list1 clock] len by auto
qed

end

end
