(* ===== verification/Admission.thy ===== *)
theory Admission
  imports Kube_Api
begin

text \<open>
  What the two admission webhooks share: the scan of a list of strings for empty and
  repeated entries, and the contract of a \<open>CustomValidator\<close> (create, update and delete
  decided by lists of field errors), as the locale \<open>custom_validator\<close>. Its parameter \<open>stored\<close> is what the CRD schema
  guarantees of an object that is already in the API server.
\<close>

section \<open>Scanning for empty and repeated entries\<close>

text \<open>
  The loop of \<open>validateChoiceOptions\<close> and of the selected options in
  \<open>validatePollResponseSpec\<close>: an empty entry is reported and not recorded, an entry seen
  before is reported as a duplicate.
\<close>

fun scanEntries :: "field_path \<Rightarrow> string \<Rightarrow> nat \<Rightarrow> string list \<Rightarrow> string set \<Rightarrow> field_error list" where
  "scanEntries p msg i [] seen = []"
| "scanEntries p msg i (x # xs) seen =
     (if x = '''' then ErrInvalid (p @ [Index i]) (BadString x) msg # scanEntries p msg (Suc i) xs seen
      else (if x \<in> seen then [ErrDuplicate (p @ [Index i]) x] else [])
           @ scanEntries p msg (Suc i) xs (insert x seen))"

lemma scanEntries_Nil_iff:
  "scanEntries p msg i xs seen = []
     \<longleftrightarrow> '''' \<notin> set xs \<and> distinct xs \<and> set xs \<inter> seen = {}"
  by (induction xs arbitrary: i seen) auto

text \<open>Exactly the faulty positions are reported, each once and in order.\<close>

definition entryError :: "field_path \<Rightarrow> string \<Rightarrow> nat \<Rightarrow> string list \<Rightarrow> nat \<Rightarrow> field_error option" where
  "entryError p msg base xs j =
     (if xs ! j = '''' then Some (ErrInvalid (p @ [Index (base + j)]) (BadString '''') msg)
      else if xs ! j \<in> set (take j xs) then Some (ErrDuplicate (p @ [Index (base + j)]) (xs ! j))
      else None)"

lemma scanEntries_generalised:
  "scanEntries p msg i xs seen
     = List.map_filter (\<lambda>j. if xs ! j = '''' then Some (ErrInvalid (p @ [Index (i + j)]) (BadString '''') msg)
         else if xs ! j \<in> seen \<union> set (take j xs)
              then Some (ErrDuplicate (p @ [Index (i + j)]) (xs ! j)) else None) [0 ..< length xs]"
proof (induction xs arbitrary: i seen)
  case Nil
  then show ?case by (simp add: map_filter_simps)
next
  case (Cons x xs)
  have shift: "[0 ..< length (x # xs)] = 0 # map Suc [0 ..< length xs]"
    by (simp add: map_Suc_upt upt_conv_Cons del: upt_Suc)
  show ?case
    unfolding shift
    by (auto simp: map_filter_simps List.map_filter_def comp_def filter_map Cons.IH
        insert_commute intro!: map_cong filter_cong)
qed

lemma scanEntries_errors:
  "scanEntries p msg 0 xs {} = List.map_filter (entryError p msg 0 xs) [0 ..< length xs]"
  unfolding scanEntries_generalised
  by (rule arg_cong2[where f = List.map_filter]) (simp_all add: entryError_def fun_eq_iff)

section \<open>The contract of a validator\<close>

text \<open>\<open>(admission.Warnings, error)\<close>; a \<open>nil\<close> error is \<open>None\<close>.\<close>

type_synonym admission_result = "string list \<times> invalid_error option"

definition admitted :: "admission_result \<Rightarrow> bool" where
  "admitted r \<longleftrightarrow> snd r = None"

definition reject_unless_empty :: "group_kind \<Rightarrow> string \<Rightarrow> field_error list \<Rightarrow> admission_result" where
  "reject_unless_empty gk name errs =
     (if errs \<noteq> [] then ([], Some (NewInvalid gk name errs)) else ([], None))"

lemma admitted_reject_unless_empty [simp]:
  "admitted (reject_unless_empty gk name errs) \<longleftrightarrow> errs = []"
  by (simp add: admitted_def reject_unless_empty_def)

locale custom_validator =
  fixes specErrors :: "'o \<Rightarrow> field_error list"
    and updateErrors :: "'o \<Rightarrow> 'o \<Rightarrow> field_error list"
    and create :: "'o \<Rightarrow> admission_result"
    and update :: "'o \<Rightarrow> 'o \<Rightarrow> admission_result"
    and delete :: "'o \<Rightarrow> admission_result"
    and gk :: group_kind
    and objName :: "'o \<Rightarrow> string"
    and stored :: "'o \<Rightarrow> bool"
  assumes create_eq: "create obj = reject_unless_empty gk (objName obj) (specErrors obj)"
    and update_eq: "update old new
      = reject_unless_empty gk (objName new) (specErrors new @ updateErrors old new)"
    and delete_eq: "delete obj = ([], None)"
    and update_same: "stored obj \<Longrightarrow> updateErrors obj obj = []"
begin

lemma create_admits: "admitted (create obj) \<longleftrightarrow> specErrors obj = []"
  by (simp add: create_eq)

lemma update_admits:
  "admitted (update old new) \<longleftrightarrow> specErrors new = [] \<and> updateErrors old new = []"
  by (simp add: update_eq)

lemma update_admits_create: "admitted (update old new) \<Longrightarrow> admitted (create new)"
  by (simp add: create_admits update_admits)

lemma unchanged_update: "stored obj \<Longrightarrow> update obj obj = create obj"
  by (simp add: create_eq update_eq update_same)

lemma delete_admits: "admitted (delete obj)"
  by (simp add: delete_eq admitted_def)

text \<open>A refused request names every error found, and at least one.\<close>

lemma update_reports:
  "\<not> admitted (update old new) \<Longrightarrow>
   update old new = ([], Some (NewInvalid gk (objName new) (specErrors new @ updateErrors old new)))
   \<and> specErrors new @ updateErrors old new \<noteq> []"
  by (auto simp: update_eq reject_unless_empty_def admitted_def)

end

end
