(* ===== verification/Poll_Webhook.thy ===== *)
theory Poll_Webhook
  imports Admission
begin

text \<open>
  The validating webhook of Poll (\<open>internal/webhook/v1/poll_webhook.go\<close>): the structure of
  each question, the uniqueness of options, and the immutability of question types on
  update. The argument \<open>pr\<close> is the print table of \<open>%q\<close>.
\<close>

section \<open>Definitions\<close>

definition pollGK :: group_kind where
  "pollGK = GroupKind ''polls.jef.app'' ''Poll''"

definition questionsPath :: field_path where
  "questionsPath = [Field ''spec'', Field ''questions'']"

definition validateChoiceOptions :: "ChoiceQuestion \<Rightarrow> field_path \<Rightarrow> field_error list" where
  "validateChoiceOptions c p =
     scanEntries (p @ [Field ''options'']) ''option must not be empty'' 0 (cq_options c) {}"

definition validateQuestion ::
    "(nat \<Rightarrow> bool) \<Rightarrow> PollQuestion \<Rightarrow> field_path \<Rightarrow> field_error list" where
  "validateQuestion pr q p =
     (if q_type q = QuestionTypeChoice then
        (case q_choice q of
           None \<Rightarrow> [ErrRequired (p @ [Field ''choice''])
                     (''questions of type '' @ goQuote pr (q_type q) @ '' must set choice'')]
         | Some c \<Rightarrow> validateChoiceOptions c (p @ [Field ''choice'']))
        @ (case q_freeText q of
             None \<Rightarrow> []
           | Some _ \<Rightarrow> [ErrForbidden (p @ [Field ''freeText''])
                         (''must not be set for questions of type '' @ goQuote pr (q_type q))])
      else if q_type q = QuestionTypeFreeText then
        (case q_freeText q of
           None \<Rightarrow> [ErrRequired (p @ [Field ''freeText''])
                     (''questions of type '' @ goQuote pr (q_type q) @ '' must set freeText'')]
         | Some _ \<Rightarrow> [])
        @ (case q_choice q of
             None \<Rightarrow> []
           | Some _ \<Rightarrow> [ErrForbidden (p @ [Field ''choice''])
                         (''must not be set for questions of type '' @ goQuote pr (q_type q))])
      else [ErrNotSupported (p @ [Field ''type'']) (q_type q)
              [QuestionTypeChoice, QuestionTypeFreeText]])"

fun validateQuestions :: "(nat \<Rightarrow> bool) \<Rightarrow> nat \<Rightarrow> PollQuestion list \<Rightarrow> field_error list" where
  "validateQuestions pr i [] = []"
| "validateQuestions pr i (q # qs) =
     validateQuestion pr q (questionsPath @ [Index i]) @ validateQuestions pr (Suc i) qs"

definition validatePollSpec :: "(nat \<Rightarrow> bool) \<Rightarrow> Poll \<Rightarrow> field_error list" where
  "validatePollSpec pr obj = validateQuestions pr 0 (ps_questions (p_spec obj))"

fun validateTypeChanges ::
    "(nat \<Rightarrow> bool) \<Rightarrow> (string \<rightharpoonup> PollQuestion) \<Rightarrow> nat \<Rightarrow> PollQuestion list \<Rightarrow> field_error list" where
  "validateTypeChanges pr oldByID i [] = []"
| "validateTypeChanges pr oldByID i (q # qs) =
     (case oldByID (q_id q) of
        None \<Rightarrow> []
      | Some prev \<Rightarrow>
          if q_type prev \<noteq> q_type q
          then [ErrForbidden (questionsPath @ [Index i, Field ''type''])
                  (''field is immutable for existing question '' @ goQuote pr (q_id q)
                   @ '' (was '' @ goQuote pr (q_type prev) @ '')'')]
          else [])
     @ validateTypeChanges pr oldByID (Suc i) qs"

definition validatePollUpdate :: "(nat \<Rightarrow> bool) \<Rightarrow> Poll \<Rightarrow> Poll \<Rightarrow> field_error list" where
  "validatePollUpdate pr oldObj newObj =
     (let oldByID = index_by q_id (ps_questions (p_spec oldObj)) Map.empty
      in validateTypeChanges pr oldByID 0 (ps_questions (p_spec newObj)))"

definition Poll_ValidateCreate :: "(nat \<Rightarrow> bool) \<Rightarrow> Poll \<Rightarrow> admission_result" where
  "Poll_ValidateCreate pr obj =
     (let errs = validatePollSpec pr obj
      in if 0 < length errs then ([], Some (NewInvalid pollGK (m_name (p_meta obj)) errs))
         else ([], None))"

definition Poll_ValidateUpdate :: "(nat \<Rightarrow> bool) \<Rightarrow> Poll \<Rightarrow> Poll \<Rightarrow> admission_result" where
  "Poll_ValidateUpdate pr oldObj newObj =
     (let errs = validatePollSpec pr newObj;
          errs = errs @ validatePollUpdate pr oldObj newObj
      in if 0 < length errs then ([], Some (NewInvalid pollGK (m_name (p_meta newObj)) errs))
         else ([], None))"

definition Poll_ValidateDelete :: "Poll \<Rightarrow> admission_result" where
  "Poll_ValidateDelete obj = ([], None)"

section \<open>What the webhook admits\<close>

text \<open>The shape of a question, stated without reference to errors.\<close>

definition wf_question :: "PollQuestion \<Rightarrow> bool" where
  "wf_question q \<longleftrightarrow>
     (q_type q = QuestionTypeChoice \<and> q_freeText q = None
        \<and> (\<exists>c. q_choice q = Some c \<and> distinct (cq_options c) \<and> '''' \<notin> set (cq_options c)))
   \<or> (q_type q = QuestionTypeFreeText \<and> q_freeText q \<noteq> None \<and> q_choice q = None)"

lemma validateChoiceOptions_Nil_iff:
  "validateChoiceOptions c p = [] \<longleftrightarrow> '''' \<notin> set (cq_options c) \<and> distinct (cq_options c)"
  by (simp add: validateChoiceOptions_def scanEntries_Nil_iff)

lemma validateQuestion_Nil_iff: "validateQuestion pr q p = [] \<longleftrightarrow> wf_question q"
  by (auto simp: validateQuestion_def wf_question_def validateChoiceOptions_Nil_iff
      split: option.splits)

lemma validateQuestions_Nil_iff: "validateQuestions pr i qs = [] \<longleftrightarrow> list_all wf_question qs"
  by (induction qs arbitrary: i) (auto simp: validateQuestion_Nil_iff)

lemma validatePollSpec_Nil_iff:
  "validatePollSpec pr obj = [] \<longleftrightarrow> list_all wf_question (ps_questions (p_spec obj))"
  by (simp add: validatePollSpec_def validateQuestions_Nil_iff)

lemma wf_question_options:
  "wf_question q \<Longrightarrow> distinct (question_options q)"
  by (auto simp: wf_question_def question_options_def)

lemma validateTypeChanges_Nil_iff:
  "validateTypeChanges pr m i qs = []
     \<longleftrightarrow> list_all (\<lambda>q. case m (q_id q) of None \<Rightarrow> True | Some prev \<Rightarrow> q_type prev = q_type q) qs"
  by (induction qs arbitrary: i) (auto split: option.splits)

lemma validatePollUpdate_Nil_iff:
  assumes "distinct (map q_id (ps_questions (p_spec oldObj)))"
  shows "validatePollUpdate pr oldObj newObj = []
    \<longleftrightarrow> (\<forall>q \<in> set (ps_questions (p_spec newObj)). \<forall>prev \<in> set (ps_questions (p_spec oldObj)).
           q_id prev = q_id q \<longrightarrow> q_type prev = q_type q)"
    (is "_ = (\<forall>q \<in> ?new. ?same q)")
proof -
  let ?m = "index_by q_id (ps_questions (p_spec oldObj)) Map.empty"
  have "(case ?m (q_id q) of None \<Rightarrow> True | Some prev \<Rightarrow> q_type prev = q_type q) \<longleftrightarrow> ?same q" for q
  proof (cases "?m (q_id q)")
    case None
    moreover from None have "q_id q \<notin> q_id ` set (ps_questions (p_spec oldObj))"
      by (simp add: index_by_empty_eq_None_iff)
    ultimately show ?thesis by simp (metis image_eqI)
  next
    case (Some prev)
    from index_by_empty_SomeD[OF this]
    have prev: "prev \<in> set (ps_questions (p_spec oldObj))" "q_id prev = q_id q" by auto
    have "other = prev" if "other \<in> set (ps_questions (p_spec oldObj))" "q_id other = q_id q" for other
      using distinct_key_unique[OF assms that(1) prev(1)] that(2) prev(2) by simp
    with prev(1,2) show ?thesis unfolding Some option.case by blast
  qed
  then show ?thesis
    by (simp add: validatePollUpdate_def validateTypeChanges_Nil_iff list_all_iff)
qed

lemma validatePollUpdate_new_ids:
  assumes "q_id ` set (ps_questions (p_spec oldObj)) \<inter> q_id ` set (ps_questions (p_spec newObj)) = {}"
  shows "validatePollUpdate pr oldObj newObj = []"
proof -
  have "index_by q_id (ps_questions (p_spec oldObj)) Map.empty (q_id q) = None"
    if "q \<in> set (ps_questions (p_spec newObj))" for q
    using assms that by (auto simp: index_by_empty_eq_None_iff)
  then show ?thesis
    by (simp add: validatePollUpdate_def validateTypeChanges_Nil_iff list_all_iff)
qed

section \<open>The validator contract\<close>

lemma validatePollUpdate_same:
  assumes "distinct (map q_id (ps_questions (p_spec obj)))"
  shows "validatePollUpdate pr obj obj = []"
  unfolding validatePollUpdate_Nil_iff[OF assms]
  using distinct_key_unique[OF assms] by blast

text \<open>The list-map key \<open>id\<close> of \<open>spec.questions\<close>: ids are unique in a stored Poll.\<close>

definition stored_poll :: "Poll \<Rightarrow> bool" where
  "stored_poll p \<longleftrightarrow> distinct (map q_id (ps_questions (p_spec p)))"

interpretation poll_validator: custom_validator
    "validatePollSpec pr" "validatePollUpdate pr"
    "Poll_ValidateCreate pr" "Poll_ValidateUpdate pr" Poll_ValidateDelete
    pollGK "\<lambda>p. m_name (p_meta p)" stored_poll
  for pr
  by unfold_locales
    (auto simp: Poll_ValidateCreate_def Poll_ValidateUpdate_def Poll_ValidateDelete_def
      reject_unless_empty_def Let_def stored_poll_def validatePollUpdate_same)

section \<open>Where errors point\<close>

lemma error_path_scan:
  "e \<in> set (scanEntries p msg i xs seen) \<Longrightarrow> prefix p (error_path e)"
  by (induction xs arbitrary: i seen) (auto split: if_splits)

lemma error_path_question:
  "e \<in> set (validateQuestion pr q p) \<Longrightarrow> prefix p (error_path e)"
  by (auto simp: validateQuestion_def validateChoiceOptions_def split: if_splits option.splits
      dest!: error_path_scan dest: append_prefixD)

lemma error_path_questions:
  "e \<in> set (validateQuestions pr i qs) \<Longrightarrow>
   \<exists>j \<ge> i. prefix (questionsPath @ [Index j]) (error_path e)"
proof (induction qs arbitrary: i)
  case Nil
  then show ?case by simp
next
  case (Cons q qs)
  then show ?case
    by (auto dest: error_path_question) (meson Suc_leD)
qed

lemma same_index:
  "prefix (questionsPath @ [Index i]) p \<Longrightarrow> prefix (questionsPath @ [Index j]) p \<Longrightarrow> i = j"
  by (auto simp: questionsPath_def prefix_def)

lemma validateQuestions_points:
  "(\<exists>e \<in> set (validateQuestions pr k qs). prefix (questionsPath @ [Index (k + i)]) (error_path e))
     \<longleftrightarrow> i < length qs \<and> \<not> wf_question (qs ! i)"
proof (induction qs arbitrary: k i)
  case Nil
  then show ?case by simp
next
  case (Cons q qs)
  show ?case
  proof (cases i)
    case 0
    have "\<not> prefix (questionsPath @ [Index k]) (error_path e)"
      if "e \<in> set (validateQuestions pr (Suc k) qs)" for e
    proof
      assume here: "prefix (questionsPath @ [Index k]) (error_path e)"
      from error_path_questions[OF that] obtain j where "Suc k \<le> j"
        "prefix (questionsPath @ [Index j]) (error_path e)" by blast
      with same_index[OF here this(2)] show False by simp
    qed
    then have "(\<exists>e \<in> set (validateQuestions pr k (q # qs)). prefix (questionsPath @ [Index k]) (error_path e))
        \<longleftrightarrow> (\<exists>e \<in> set (validateQuestion pr q (questionsPath @ [Index k])).
               prefix (questionsPath @ [Index k]) (error_path e))"
      by auto
    also have "\<dots> \<longleftrightarrow> set (validateQuestion pr q (questionsPath @ [Index k])) \<noteq> {}"
      using error_path_question[of _ pr q "questionsPath @ [Index k]"]
      by (auto simp only: ex_in_conv[symmetric])
    also have "\<dots> \<longleftrightarrow> \<not> wf_question q"
      by (simp only: set_empty validateQuestion_Nil_iff)
    finally show ?thesis by (simp add: 0 del: validateQuestions.simps)
  next
    case (Suc j)
    have "\<not> prefix (questionsPath @ [Index (k + i)]) (error_path e)"
      if "e \<in> set (validateQuestion pr q (questionsPath @ [Index k]))" for e
      using same_index[OF error_path_question[OF that], of "k + i"] Suc by auto
    then show ?thesis
      using Cons.IH[of "Suc k" j] Suc by auto
  qed
qed

end
