(* ===== verification/Response_Webhook.thy ===== *)
theory Response_Webhook
  imports Admission
begin

text \<open>
  The validating webhook of PollResponse (\<open>internal/webhook/v1/pollresponse_webhook.go\<close>):
  each answer sets exactly one of \<open>selectedOptions\<close> and \<open>text\<close>, selections are unique and
  non-empty, and \<open>spec.pollRef.name\<close> never changes.
\<close>

section \<open>Definitions\<close>

definition pollResponseGK :: group_kind where
  "pollResponseGK = GroupKind ''polls.jef.app'' ''PollResponse''"

definition answersPath :: field_path where
  "answersPath = [Field ''spec'', Field ''answers'']"

definition answerErrors :: "field_path \<Rightarrow> PollAnswer \<Rightarrow> field_error list" where
  "answerErrors p ans =
     (let hasSelections = 0 < length (a_selectedOptions ans);
          hasText = a_text ans \<noteq> ''''
      in (if hasSelections \<and> hasText
          then [ErrInvalid p (BadAnswer ans)
                  ''exactly one of selectedOptions or text must be set, not both'']
          else if \<not> hasSelections \<and> \<not> hasText
          then [ErrRequired p ''exactly one of selectedOptions or text must be set'']
          else [])
         @ (if hasSelections
            then scanEntries (p @ [Field ''selectedOptions''])
                   ''selected option must not be empty'' 0 (a_selectedOptions ans) {}
            else []))"

fun answersErrors :: "nat \<Rightarrow> PollAnswer list \<Rightarrow> field_error list" where
  "answersErrors i [] = []"
| "answersErrors i (ans # rest) =
     answerErrors (answersPath @ [Index i]) ans @ answersErrors (Suc i) rest"

definition validatePollResponseSpec :: "PollResponse \<Rightarrow> field_error list" where
  "validatePollResponseSpec obj = answersErrors 0 (rs_answers (r_spec obj))"

definition pollRefErrors :: "(nat \<Rightarrow> bool) \<Rightarrow> PollResponse \<Rightarrow> PollResponse \<Rightarrow> field_error list" where
  "pollRefErrors pr oldObj newObj =
     (if ref_name (rs_pollRef (r_spec oldObj)) \<noteq> ref_name (rs_pollRef (r_spec newObj))
      then [ErrForbidden [Field ''spec'', Field ''pollRef'', Field ''name'']
              (''field is immutable (was ''
               @ goQuote pr (ref_name (rs_pollRef (r_spec oldObj))) @ '')'')]
      else [])"

definition PollResponse_ValidateCreate :: "PollResponse \<Rightarrow> admission_result" where
  "PollResponse_ValidateCreate obj =
     (let errs = validatePollResponseSpec obj
      in if 0 < length errs then ([], Some (NewInvalid pollResponseGK (m_name (r_meta obj)) errs))
         else ([], None))"

definition PollResponse_ValidateUpdate ::
    "(nat \<Rightarrow> bool) \<Rightarrow> PollResponse \<Rightarrow> PollResponse \<Rightarrow> admission_result" where
  "PollResponse_ValidateUpdate pr oldObj newObj =
     (let errs = validatePollResponseSpec newObj;
          errs = errs @ pollRefErrors pr oldObj newObj
      in if 0 < length errs then ([], Some (NewInvalid pollResponseGK (m_name (r_meta newObj)) errs))
         else ([], None))"

definition PollResponse_ValidateDelete :: "PollResponse \<Rightarrow> admission_result" where
  "PollResponse_ValidateDelete obj = ([], None)"

section \<open>What the webhook admits\<close>

definition wf_answer :: "PollAnswer \<Rightarrow> bool" where
  "wf_answer ans \<longleftrightarrow>
     (a_selectedOptions ans = [] \<and> a_text ans \<noteq> '''')
   \<or> (a_selectedOptions ans \<noteq> [] \<and> a_text ans = ''''
        \<and> distinct (a_selectedOptions ans) \<and> '''' \<notin> set (a_selectedOptions ans))"

lemma answerErrors_Nil_iff: "answerErrors p ans = [] \<longleftrightarrow> wf_answer ans"
  by (auto simp: answerErrors_def wf_answer_def Let_def scanEntries_Nil_iff)

lemma answersErrors_Nil_iff: "answersErrors i xs = [] \<longleftrightarrow> list_all wf_answer xs"
  by (induction xs arbitrary: i) (auto simp: answerErrors_Nil_iff)

lemma validatePollResponseSpec_Nil_iff:
  "validatePollResponseSpec obj = [] \<longleftrightarrow> list_all wf_answer (rs_answers (r_spec obj))"
  by (simp add: validatePollResponseSpec_def answersErrors_Nil_iff)

lemma pollRefErrors_Nil_iff:
  "pollRefErrors pr old new = []
     \<longleftrightarrow> ref_name (rs_pollRef (r_spec old)) = ref_name (rs_pollRef (r_spec new))"
  by (simp add: pollRefErrors_def)

interpretation response_validator: custom_validator
    validatePollResponseSpec "pollRefErrors pr"
    PollResponse_ValidateCreate "PollResponse_ValidateUpdate pr" PollResponse_ValidateDelete
    pollResponseGK "\<lambda>r. m_name (r_meta r)" "\<lambda>_. True"
  for pr
  by unfold_locales
    (auto simp: PollResponse_ValidateCreate_def PollResponse_ValidateUpdate_def
      PollResponse_ValidateDelete_def reject_unless_empty_def Let_def pollRefErrors_Nil_iff)

end
