(* ===== verification/Memory_Store.thy ===== *)
theory Memory_Store
  imports Cluster_Store Poll_Webhook Response_Webhook
begin

text \<open>
  A store in memory that meets the contract \<open>api_store\<close>, so that the contract is not empty
  and the theorems about reconciling against a store can be evaluated. Objects are kept in
  lists, the first one with a key being the stored one; the clock stands still; a created
  response passes the admission webhook of PollResponse. Nothing here models the API
  server beyond that.
\<close>

section \<open>Keyed lists\<close>

definition lookup :: "('a \<Rightarrow> 'k) \<Rightarrow> 'k \<Rightarrow> 'a list \<Rightarrow> 'a option" where
  "lookup key k xs = find (\<lambda>x. key x = k) xs"

definition replace :: "('a \<Rightarrow> 'k) \<Rightarrow> 'a \<Rightarrow> 'a list \<Rightarrow> 'a list" where
  "replace key y xs = map (\<lambda>x. if key x = key y then y else x) xs"

lemma lookup_simps [simp]:
  "lookup key k [] = None"
  "lookup key k (x # xs) = (if key x = k then Some x else lookup key k xs)"
  by (simp_all add: lookup_def)

lemma lookup_SomeD: "lookup key k xs = Some x \<Longrightarrow> x \<in> set xs \<and> key x = k"
  by (induction xs) (auto split: if_splits)

lemma lookup_replace:
  "lookup key k (replace key y xs)
     = (if k = key y then map_option (\<lambda>_. y) (lookup key k xs) else lookup key k xs)"
  by (induction xs) (auto simp: replace_def)

definition visible :: "('a \<Rightarrow> 'k) \<Rightarrow> 'a list \<Rightarrow> 'a list" where
  "visible key xs = remdups (filter (\<lambda>x. lookup key (key x) xs = Some x) xs)"

lemma set_visible: "set (visible key xs) = {x. lookup key (key x) xs = Some x}"
  by (auto simp: visible_def dest: lookup_SomeD)

lemma distinct_visible: "distinct (map key (visible key xs))"
proof -
  have "x = y" if "lookup key (key x) xs = Some x" "lookup key (key y) xs = Some y" "key x = key y" for x y
    using that(1,2) unfolding that(3) by simp
  then have "inj_on key (set (visible key xs))"
    unfolding set_visible by (intro inj_onI) blast
  then show ?thesis
    by (simp add: distinct_map) (simp add: visible_def)
qed

lemma distinct_map_filter_key: "distinct (map key xs) \<Longrightarrow> distinct (map key (filter P xs))"
  by (simp add: distinct_map inj_on_def)

section \<open>The store\<close>

record memory =
  mem_polls :: "Poll list"
  mem_responses :: "PollResponse list"

definition mem_poll :: "memory \<Rightarrow> NamespacedName \<Rightarrow> Poll option" where
  "mem_poll s k = lookup poll_key k (mem_polls s)"

definition mem_response :: "memory \<Rightarrow> NamespacedName \<Rightarrow> PollResponse option" where
  "mem_response s k = lookup response_key k (mem_responses s)"

definition not_found :: go_error where
  "not_found = ApiError ReasonNotFound ''not found''"

definition read_or_not_found :: "'a option \<Rightarrow> go_error + 'a" where
  "read_or_not_found x = (case x of None \<Rightarrow> Inl not_found | Some v \<Rightarrow> Inr v)"

definition mem_list :: "string \<Rightarrow> memory \<Rightarrow> PollResponse list" where
  "mem_list ns s = filter (\<lambda>r. m_namespace (r_meta r) = ns) (visible response_key (mem_responses s))"

definition mem_patchPollStatus :: "Poll \<Rightarrow> Poll \<Rightarrow> memory \<Rightarrow> (go_error + Poll) \<times> memory" where
  "mem_patchPollStatus base new s =
     (case mem_poll s (poll_key base) of
        None \<Rightarrow> (Inl not_found, s)
      | Some p \<Rightarrow> let p' = p\<lparr>p_status := p_status new\<rparr>
                  in (Inr p', s\<lparr>mem_polls := replace poll_key p' (mem_polls s)\<rparr>))"

definition mem_patchResponse ::
    "(PollResponse \<Rightarrow> PollResponse \<Rightarrow> PollResponse) \<Rightarrow> PollResponse \<Rightarrow> PollResponse \<Rightarrow> memory \<Rightarrow>
     (go_error + PollResponse) \<times> memory" where
  "mem_patchResponse merge base new s =
     (case mem_response s (response_key base) of
        None \<Rightarrow> (Inl not_found, s)
      | Some r \<Rightarrow> let r' = merge new r
                  in (Inr r', s\<lparr>mem_responses := replace response_key r' (mem_responses s)\<rparr>))"

text \<open>A generated name has a suffix that makes it longer than every name in use.\<close>

definition fresh_suffix :: "memory \<Rightarrow> string" where
  "fresh_suffix s =
     replicate (Suc (sum_list (map (\<lambda>r. length (m_name (r_meta r))) (mem_responses s)))) CHR ''x''"

definition mem_create :: "PollResponse \<Rightarrow> memory \<Rightarrow> (go_error + PollResponse) \<times> memory" where
  "mem_create r s =
     (if admitted (PollResponse_ValidateCreate r)
      then let r' = r\<lparr>r_meta := (r_meta r)\<lparr>m_name := m_generateName (r_meta r) @ fresh_suffix s,
                        m_generation := 1\<rparr>\<rparr>
           in (Inr r', s\<lparr>mem_responses := mem_responses s @ [r']\<rparr>)
      else (Inl (ApiError (ReasonOther ''Invalid'') ''admission webhook denied the request''), s))"

definition mem_setControllerReference :: "Poll \<Rightarrow> PollResponse \<Rightarrow> go_error + PollResponse" where
  "mem_setControllerReference poll r =
     (if list_ex or_controller (m_ownerReferences (r_meta r))
      then Inl (ApiError (ReasonOther ''AlreadyOwned'') ''already owned'')
      else Inr (r\<lparr>r_meta := (r_meta r)\<lparr>m_ownerReferences := m_ownerReferences (r_meta r)
                  @ [\<lparr>or_kind = ''Poll'', or_name = m_name (p_meta poll),
                      or_uid = m_uid (p_meta poll), or_controller = True\<rparr>]\<rparr>\<rparr>))"

definition memory_env :: "(nat \<Rightarrow> bool) \<Rightarrow> gotime \<Rightarrow> memory kube_env" where
  "memory_env pr clock =
     \<lparr>env_isPrint = pr,
      env_now = (\<lambda>s. (clock, s)),
      env_getPoll = (\<lambda>k s. (read_or_not_found (mem_poll s k), s)),
      env_listPolls = (\<lambda>s. (Inr (mem_polls s), s)),
      env_patchPollStatus = mem_patchPollStatus,
      env_getResponse = (\<lambda>k s. (read_or_not_found (mem_response s k), s)),
      env_listResponses = (\<lambda>ns s. (Inr (mem_list ns s), s)),
      env_patchResponse = mem_patchResponse (\<lambda>new r. r\<lparr>r_meta := r_meta new\<rparr>),
      env_patchResponseStatus = mem_patchResponse (\<lambda>new r. r\<lparr>r_status := r_status new\<rparr>),
      env_createResponse = mem_create,
      env_setControllerReference = mem_setControllerReference,
      env_setStatusCondition = documented_SetStatusCondition\<rparr>"

lemma memory_env_simps [simp]:
  "env_isPrint (memory_env pr clock) = pr"
  "env_now (memory_env pr clock) s = (clock, s)"
  "env_getPoll (memory_env pr clock) k s = (read_or_not_found (mem_poll s k), s)"
  "env_listPolls (memory_env pr clock) s = (Inr (mem_polls s), s)"
  "env_patchPollStatus (memory_env pr clock) = mem_patchPollStatus"
  "env_getResponse (memory_env pr clock) k s = (read_or_not_found (mem_response s k), s)"
  "env_listResponses (memory_env pr clock) ns s = (Inr (mem_list ns s), s)"
  "env_patchResponse (memory_env pr clock) = mem_patchResponse (\<lambda>new r. r\<lparr>r_meta := r_meta new\<rparr>)"
  "env_patchResponseStatus (memory_env pr clock)
     = mem_patchResponse (\<lambda>new r. r\<lparr>r_status := r_status new\<rparr>)"
  "env_createResponse (memory_env pr clock) = mem_create"
  "env_setControllerReference (memory_env pr clock) = mem_setControllerReference"
  "env_setStatusCondition (memory_env pr clock) = documented_SetStatusCondition"
  by (simp_all add: memory_env_def)

section \<open>It meets the contract\<close>

lemma poll_key_status [simp]: "poll_key (p\<lparr>p_status := st\<rparr>) = poll_key p"
  by (simp add: poll_key_def)

lemma mem_patchPollStatus_stores:
  assumes "mem_poll s (poll_key p) = Some p"
  shows "\<exists>s'. mem_patchPollStatus p (p\<lparr>p_status := st\<rparr>) s = (Inr (p\<lparr>p_status := st\<rparr>), s')
    \<and> mem_poll s' = (mem_poll s)(poll_key p \<mapsto> p\<lparr>p_status := st\<rparr>) \<and> mem_response s' = mem_response s"
  using assms
  by (simp add: mem_patchPollStatus_def Let_def mem_poll_def[abs_def] mem_response_def[abs_def]
      lookup_replace fun_eq_iff)

lemma mem_patchResponse_stores:
  assumes "mem_response s (response_key r) = Some r" and "merge new r = new"
    and "response_key new = response_key r"
  shows "\<exists>s'. mem_patchResponse merge r new s = (Inr new, s')
    \<and> mem_response s' = (mem_response s)(response_key r \<mapsto> new) \<and> mem_poll s' = mem_poll s"
  using assms
  by (simp add: mem_patchResponse_def Let_def mem_poll_def[abs_def] mem_response_def[abs_def]
      lookup_replace fun_eq_iff)

lemma same_response_status_refl [simp]: "same_response_status rst rst"
  by (simp add: same_response_status_def)

interpretation memory: api_store "memory_env pr clock" mem_poll mem_response for pr clock
proof unfold_locales
  fix s :: memory and k
  show "case mem_poll s k of
        None \<Rightarrow> \<exists>e. env_getPoll (memory_env pr clock) k s = (Inl e, s) \<and> IsNotFound e
      | Some p \<Rightarrow> env_getPoll (memory_env pr clock) k s = (Inr p, s)"
    by (simp add: read_or_not_found_def not_found_def IsNotFound_def split: option.split)
  show "case mem_response s k of
        None \<Rightarrow> \<exists>e. env_getResponse (memory_env pr clock) k s = (Inl e, s) \<and> IsNotFound e
      | Some r \<Rightarrow> env_getResponse (memory_env pr clock) k s = (Inr r, s)"
    by (simp add: read_or_not_found_def not_found_def IsNotFound_def split: option.split)
next
  fix s :: memory and ns
  show "\<exists>rs. env_listResponses (memory_env pr clock) ns s = (Inr rs, s) \<and> distinct (map response_key rs)
      \<and> set rs = {r. m_namespace (r_meta r) = ns \<and> mem_response s (response_key r) = Some r}"
    by (auto simp: mem_list_def mem_response_def set_visible
        intro!: distinct_map_filter_key distinct_visible)
next
  fix s :: memory and k p
  show "mem_poll s k = Some p \<Longrightarrow> poll_key p = k"
    unfolding mem_poll_def by (erule lookup_SomeD[THEN conjunct2])
next
  fix s :: memory and k r
  show "mem_response s k = Some r \<Longrightarrow> response_key r = k"
    unfolding mem_response_def by (erule lookup_SomeD[THEN conjunct2])
next
  fix s :: memory and p :: Poll and st
  assume "mem_poll s (poll_key p) = Some p"
  from mem_patchPollStatus_stores[OF this]
  show "\<exists>st' s'. env_patchPollStatus (memory_env pr clock) p (p\<lparr>p_status := st\<rparr>) s
        = (Inr (p\<lparr>p_status := st'\<rparr>), s')
      \<and> same_poll_status st st' \<and> mem_poll s' = (mem_poll s)(poll_key p \<mapsto> p\<lparr>p_status := st'\<rparr>)
      \<and> mem_response s' = mem_response s"
    by (metis memory_env_simps(5) same_poll_status_refl)
next
  fix s :: memory and r :: PollResponse and rst
  assume "mem_response s (response_key r) = Some r"
  from mem_patchResponse_stores[OF this, of "\<lambda>new r. r\<lparr>r_status := r_status new\<rparr>" "r\<lparr>r_status := rst\<rparr>"]
  show "\<exists>rst' s'. env_patchResponseStatus (memory_env pr clock) r (r\<lparr>r_status := rst\<rparr>) s
        = (Inr (r\<lparr>r_status := rst'\<rparr>), s') \<and> same_response_status rst rst'
      \<and> mem_response s' = (mem_response s)(response_key r \<mapsto> r\<lparr>r_status := rst'\<rparr>)
      \<and> mem_poll s' = mem_poll s"
    by (intro exI[of _ rst]) simp
next
  fix s :: memory and r :: PollResponse and refs
  let ?r' = "r\<lparr>r_meta := (r_meta r)\<lparr>m_ownerReferences := refs\<rparr>\<rparr>"
  assume "mem_response s (response_key r) = Some r"
  from mem_patchResponse_stores[OF this, of "\<lambda>new r. r\<lparr>r_meta := r_meta new\<rparr>" ?r']
  show "\<exists>s'. env_patchResponse (memory_env pr clock) r ?r' s = (Inr ?r', s')
      \<and> mem_response s' = (mem_response s)(response_key r \<mapsto> ?r') \<and> mem_poll s' = mem_poll s"
    by simp
next
  fix r :: PollResponse and poll :: Poll
  assume "list_all (\<lambda>ref. \<not> or_controller ref) (m_ownerReferences (r_meta r))"
  then show "\<exists>refs. env_setControllerReference (memory_env pr clock) poll r
        = Inr (r\<lparr>r_meta := (r_meta r)\<lparr>m_ownerReferences := refs\<rparr>\<rparr>)
      \<and> list_ex (\<lambda>ref. or_uid ref = m_uid (p_meta poll)) refs"
    by (auto simp: mem_setControllerReference_def list_ex_iff list_all_iff)
qed simp_all

end
