(* ===== verification/Samples.thy ===== *)
theory Samples
  imports Memory_Store
begin

text \<open>
  Concrete objects at which the properties are instantiated: a Poll with a single-choice,
  a multiple-choice and a free-text question that closes at a given time, two responses,
  and a store in memory that holds them.
\<close>

definition utc :: "int \<Rightarrow> gotime" where
  "utc n = \<lparr>unixNano = n, zoneOffset = 0\<rparr>"

definition sampleMeta :: "string \<Rightarrow> string \<Rightarrow> object_meta" where
  "sampleMeta name uid = \<lparr>m_name = name, m_generateName = '''', m_namespace = ''ns'', m_uid = uid,
     m_generation = 1, m_deletionTimestamp = None, m_ownerReferences = []\<rparr>"

definition sampleQuestions :: "PollQuestion list" where
  "sampleQuestions =
     [\<lparr>q_id = ''q1'', q_prompt = ''Tea or coffee?'', q_type = ''Choice'',
       q_choice = Some \<lparr>cq_options = [''tea'', ''coffee''], cq_allowMultipleChoices = False\<rparr>,
       q_freeText = None\<rparr>,
      \<lparr>q_id = ''q2'', q_prompt = ''Which days?'', q_type = ''Choice'',
       q_choice = Some \<lparr>cq_options = [''mon'', ''tue''], cq_allowMultipleChoices = True\<rparr>,
       q_freeText = None\<rparr>,
      \<lparr>q_id = ''q3'', q_prompt = ''Comments?'', q_type = ''FreeText'', q_choice = None,
       q_freeText = Some \<lparr>fq_maxResponseLength = 5\<rparr>\<rparr>]"

definition samplePoll :: Poll where
  "samplePoll = \<lparr>p_meta = sampleMeta ''lunch'' ''u1'',
     p_spec = \<lparr>ps_title = ''Lunch'', ps_questions = sampleQuestions, ps_closesAt = Some (utc 100)\<rparr>,
     p_status = fresh_status\<rparr>"

definition answerChoice :: "string \<Rightarrow> string list \<Rightarrow> PollAnswer" where
  "answerChoice qid sels = \<lparr>a_questionID = qid, a_selectedOptions = sels, a_text = ''''\<rparr>"

definition answerText :: "string \<Rightarrow> string \<Rightarrow> PollAnswer" where
  "answerText qid t = \<lparr>a_questionID = qid, a_selectedOptions = [], a_text = t\<rparr>"

definition sampleResponse :: "string \<Rightarrow> PollAnswer list \<Rightarrow> string \<Rightarrow> PollResponse" where
  "sampleResponse name answers phase = \<lparr>r_meta = sampleMeta name name,
     r_spec = \<lparr>rs_pollRef = \<lparr>ref_name = ''lunch''\<rparr>, rs_respondent = '''', rs_answers = answers,
               rs_submittedAt = None\<rparr>,
     r_status = \<lparr>rst_conditions = [], rst_phase = phase, rst_observedPollGeneration = 0,
                 rst_acceptedAt = None\<rparr>\<rparr>"

definition goodAnswers :: "PollAnswer list" where
  "goodAnswers = [answerChoice ''q1'' [''tea''], answerChoice ''q2'' [''mon'', ''tue''],
     answerText ''q3'' ''soup'']"

definition badAnswers :: "PollAnswer list" where
  "badAnswers = [answerChoice ''q1'' [''milk'']]"

definition sampleResponses :: "PollResponse list" where
  "sampleResponses = [sampleResponse ''r1'' goodAnswers ''Accepted'', sampleResponse ''r2'' badAnswers '''']"

definition sampleStore :: memory where
  "sampleStore = \<lparr>mem_polls = [samplePoll], mem_responses = sampleResponses\<rparr>"

text \<open>The environment of the witnesses: an ASCII-only print table and a clock at \<open>t\<close>.\<close>

definition sampleEnv :: "int \<Rightarrow> memory kube_env" where
  "sampleEnv t = memory_env (\<lambda>_. False) (utc t)"

lemmas sample_defs =
  utc_def sampleMeta_def sampleQuestions_def samplePoll_def answerChoice_def answerText_def
  sampleResponse_def goodAnswers_def badAnswers_def sampleResponses_def sampleStore_def
  sampleEnv_def fresh_status_def

lemmas code_defs =
  question_type_defs phase_defs condition_status_defs reason_defs

lemma sample_wf [simp]:
  "wf_questions (ps_questions (p_spec samplePoll))"
  "distinct (map q_id (ps_questions (p_spec samplePoll)))"
  "list_all wf_question (ps_questions (p_spec samplePoll))"
  "stored_poll samplePoll"
  by (simp_all add: sample_defs wf_questions_def question_options_def wf_question_def
      question_type_defs stored_poll_def)

lemma sample_admitted: "admitted (Poll_ValidateCreate (\<lambda>_. False) samplePoll)"
  by (simp add: poll_validator.create_admits validatePollSpec_Nil_iff)

lemma sample_clock [simp]:
  "pollClosed samplePoll (utc t) \<longleftrightarrow> 100 \<le> t"
  by (simp add: pollClosed_def sample_defs)

lemma sample_good [simp]:
  "validateResponse (\<lambda>_. False) samplePoll (sampleResponse name goodAnswers phase) (utc 0) = None"
  unfolding validateResponse_None_iff[OF sample_wf(2)]
  by (simp add: sample_defs pollClosed_def answer_ok_def text_fits_def question_type_defs)

lemma sample_bad:
  "\<exists>e. validateResponse pr samplePoll (sampleResponse name badAnswers phase) (utc t) = Some e"
proof -
  have "validateResponse pr samplePoll (sampleResponse name badAnswers phase) (utc t) \<noteq> None"
    unfolding validateResponse_None_iff[OF sample_wf(2)]
    by (simp add: sample_defs answer_ok_def question_type_defs)
  then show ?thesis by simp
qed

lemma sample_reads [simp]:
  "mem_poll sampleStore (poll_key samplePoll) = Some samplePoll"
  "env_listResponses (sampleEnv t) (m_namespace (p_meta samplePoll)) sampleStore
     = (Inr sampleResponses, sampleStore)"
  by (simp_all add: mem_poll_def poll_key_def sample_defs mem_list_def visible_def response_key_def)

lemma sample_valid_responses:
  "filter (valid_for (\<lambda>_. False) samplePoll (utc 0)) sampleResponses
     = [sampleResponse ''r1'' goodAnswers ''Accepted'']"
proof -
  have "names_poll samplePoll (sampleResponse name answers phase)" for name answers phase
    by (simp add: names_poll_def sample_defs)
  then show ?thesis
    using sample_bad[of "\<lambda>_. False" "''r2''" "''''" 0] by (auto simp: sampleResponses_def valid_for_def)
qed

end
