(* ===== verification/Poll_Properties.thy ===== *)
theory Poll_Properties
  imports Samples
begin

text \<open>
  What the Poll reconciler guarantees: the tally equals its declarative specification, a
  Poll's phases and timestamps evolve as documented, a status is written only when it
  says something new, and every failure has one of the causes listed.
\<close>

section \<open>Aggregation\<close>

text \<open>C9: for a Poll with unique question ids and unique options, the index-based counting of
  \<open>aggregateResults\<close> yields, in the order of the spec, one row per question whose response
  count is the number of counted answers to it and whose votes for an option are the
  occurrences of the option in those answers; the total is the number of accepted responses
  that name the Poll.\<close>

theorem aggregate_matches_specification:
  assumes "wf_questions (ps_questions (p_spec poll))"
  shows "aggregateResults poll responses
    = (map (specResult (countedAnswers poll responses)) (ps_questions (p_spec poll)),
       of_nat (length (filter (counted poll) responses)))"
  by (rule aggregateResults_eq[OF assms])

theorem aggregate_matches_specification_witness:
  "aggregateResults samplePoll sampleResponses =
     ([\<lparr>qr_questionID = ''q1'', qr_options = [\<lparr>opt_option = ''tea'', opt_votes = 1\<rparr>,
          \<lparr>opt_option = ''coffee'', opt_votes = 0\<rparr>], qr_responses = 1\<rparr>,
       \<lparr>qr_questionID = ''q2'', qr_options = [\<lparr>opt_option = ''mon'', opt_votes = 1\<rparr>,
          \<lparr>opt_option = ''tue'', opt_votes = 1\<rparr>], qr_responses = 1\<rparr>,
       \<lparr>qr_questionID = ''q3'', qr_options = [], qr_responses = 1\<rparr>], 1)"
  unfolding aggregate_matches_specification[OF sample_wf(1)]
  by (simp add: sample_defs code_defs specResult_def talliedOptions_def counted_def)

text \<open>The results always have the shape of the spec, whatever the responses contain: the
  same question ids in the same order, the options of each Choice question in order, no
  options for any other question; and the total never depends on the answers.\<close>

theorem aggregate_shape_and_total:
  "map (\<lambda>r. (qr_questionID r, map opt_option (qr_options r))) (fst (aggregateResults poll responses))
     = map (\<lambda>q. (q_id q, talliedOptions q)) (ps_questions (p_spec poll))
   \<and> snd (aggregateResults poll responses) = of_nat (length (filter (counted poll) responses))"
  using aggregateResults_shape[of poll responses] aggregateResults_total[of poll responses]
  by (simp add: shape_def)



section \<open>Phases over time\<close>

text \<open>C22: whatever edits a Poll's \<open>closesAt\<close> goes through, its reconciled status has not been
  opened (fresh), is Open with an opening time and no closing time, or is Closed with both,
  the opening not after the closing and neither in the future. In particular the
  documented phase Pending is never stored.\<close>

theorem lifecycle_statuses:
  assumes "lifecycle_reachable (st, t)"
  shows "(st_phase st = '''' \<and> st_openedAt st = None \<and> st_closedAt st = None)
    \<or> (st_phase st = PollPhaseOpen \<and> st_closedAt st = None
        \<and> (\<exists>o'. st_openedAt st = Some o' \<and> unixNano o' \<le> unixNano t))
    \<or> (st_phase st = PollPhaseClosed
        \<and> (\<exists>o' c'. st_openedAt st = Some o' \<and> st_closedAt st = Some c'
             \<and> unixNano o' \<le> unixNano c' \<and> unixNano c' \<le> unixNano t))"
  using lifecycle_reachable_inv[OF assms] by (simp add: lifecycle_inv_def)

lemma sample_closed_status:
  "lifecycle_step (fresh_status, utc 3)
     (fresh_status\<lparr>st_openedAt := Some (utc 200), st_closedAt := Some (utc 200),
        st_phase := PollPhaseClosed\<rparr>, utc 200)"
proof -
  have "computePhase samplePoll fresh_status (utc 200)
      = (PollPhaseClosed, fresh_status\<lparr>st_closedAt := Some (utc 200), st_openedAt := Some (utc 200)\<rparr>)"
    by (simp add: computePhase_def Let_def) (simp add: fresh_status_def)
  from lifecycle_step.observe[OF _ this, of "utc 3"] show ?thesis
    by (simp add: utc_def fresh_status_def)
qed

theorem lifecycle_statuses_witness:
  "\<exists>st. lifecycle_reachable (st, utc 200) \<and> st_phase st = PollPhaseClosed
     \<and> (\<exists>o' c'. st_openedAt st = Some o' \<and> st_closedAt st = Some c' \<and> unixNano o' \<le> unixNano c')"
proof -
  note reach = lifecycle_reachable.step[OF lifecycle_reachable.created sample_closed_status]
  from reach lifecycle_statuses[OF reach] show ?thesis
    by (intro exI[of _ "fresh_status\<lparr>st_openedAt := Some (utc 200), st_closedAt := Some (utc 200),
        st_phase := PollPhaseClosed\<rparr>"]) (simp add: phase_defs)
qed

text \<open>Once set, the time a Poll was opened never changes again, through closing and
  reopening.\<close>

theorem openedAt_is_permanent:
  assumes "lifecycle_step\<^sup>*\<^sup>* c d" and "st_openedAt (fst c) = Some o'"
  shows "st_openedAt (fst d) = Some o'"
  by (rule lifecycle_steps_openedAt[OF assms])

theorem openedAt_is_permanent_witness:
  "\<exists>d. lifecycle_step\<^sup>*\<^sup>* (fresh_status\<lparr>st_openedAt := Some (utc 7), st_phase := PollPhaseOpen\<rparr>, utc 9) d
     \<and> st_phase (fst d) = PollPhaseClosed \<and> st_openedAt (fst d) = Some (utc 7)"
proof -
  let ?c = "(fresh_status\<lparr>st_openedAt := Some (utc 7), st_phase := PollPhaseOpen\<rparr>, utc 9)"
  obtain phase st where ph: "computePhase samplePoll (fst ?c) (utc 200) = (phase, st)" by fastforce
  then have closed: "phase = PollPhaseClosed"
    using computePhase_phase[of samplePoll "fst ?c" "utc 200"] by simp
  have step: "lifecycle_step\<^sup>*\<^sup>* ?c (st\<lparr>st_phase := phase\<rparr>, utc 200)"
    using lifecycle_step.observe[OF _ ph[unfolded fst_conv], of "utc 9"] by (simp add: utc_def)
  show ?thesis
  proof (intro exI conjI)
    show "lifecycle_step\<^sup>*\<^sup>* ?c (st\<lparr>st_phase := phase\<rparr>, utc 200)" by (rule step)
    show "st_phase (fst (st\<lparr>st_phase := phase\<rparr>, utc 200)) = PollPhaseClosed" by (simp add: closed)
    show "st_openedAt (fst (st\<lparr>st_phase := phase\<rparr>, utc 200)) = Some (utc 7)"
      by (rule openedAt_is_permanent[OF step]) simp
  qed
qed

section \<open>Writing the status\<close>

text \<open>C23: as long as spec, responses and the side of \<open>closesAt\<close> the clock is on stay the same,
  any number of reconciles of a Poll sends at most one status patch, for any
  \<open>SetStatusCondition\<close> that behaves as documented.\<close>

theorem poll_status_settles:
  assumes "status_condition_setter ssc" and "conditions_ok st"
    and "\<forall>x \<in> set views. \<forall>y \<in> set views. poll_agree x y"
  shows "patches (poll_desired ssc) statusEqual views st \<le> 1"
  using assms(2,3) by (intro status_condition_setter.poll_patches_at_most_one[OF assms(1)]) blast+

theorem poll_status_settles_witness:
  "patches (poll_desired documented_SetStatusCondition) statusEqual
     [(samplePoll, sampleResponses, utc 1, utc 2), (samplePoll, sampleResponses, utc 5, utc 6)]
     fresh_status \<le> 1"
  by (rule poll_status_settles[OF documented.status_condition_setter_axioms])
    (simp_all add: conditions_ok_def fresh_status_def poll_agree_def)

text \<open>C25: when \<open>statusEqual\<close> lets a patch be skipped, the stored status already has the
  desired phase, total, opening and closing instants, one row for every desired row with
  the same response count, and every option that has votes with the same votes.\<close>

theorem skipped_patch_loses_nothing:
  assumes "statusEqual stored desired"
  shows "st_phase stored = st_phase desired \<and> st_totalResponses stored = st_totalResponses desired
    \<and> map_option unixNano (st_openedAt stored) = map_option unixNano (st_openedAt desired)
    \<and> map_option unixNano (st_closedAt stored) = map_option unixNano (st_closedAt desired)
    \<and> (\<forall>row \<in> set (st_results desired). \<exists>old \<in> set (st_results stored).
         qr_questionID old = qr_questionID row \<and> qr_responses old = qr_responses row
         \<and> (\<forall>opt \<in> set (qr_options row). opt_votes opt \<noteq> 0 \<longrightarrow> opt \<in> set (qr_options old)))"
proof -
  have "\<exists>old \<in> set (st_results stored). qr_questionID old = qr_questionID row
      \<and> qr_responses old = qr_responses row
      \<and> (\<forall>opt \<in> set (qr_options row). opt_votes opt \<noteq> 0 \<longrightarrow> opt \<in> set (qr_options old))"
    if row: "row \<in> set (st_results desired)" for row
  proof -
    from statusEqual_results[OF assms row] obtain old where
      "old \<in> set (st_results stored)" "qr_questionID old = qr_questionID row" "resultEqual old row"
      by blast
    moreover from this(3) have "qr_responses old = qr_responses row"
      by (simp add: resultEqual_def split: if_splits)
    ultimately show ?thesis using resultEqual_votes by blast
  qed
  then show ?thesis
    using statusEqual_fields(1-4)[OF assms] by (simp add: timePtrEqual_iff)
qed

definition sampleRow :: "string \<Rightarrow> string \<Rightarrow> QuestionResult" where
  "sampleRow a b = \<lparr>qr_questionID = ''q1'', qr_options = [\<lparr>opt_option = a, opt_votes = 1\<rparr>,
     \<lparr>opt_option = b, opt_votes = 0\<rparr>], qr_responses = 1\<rparr>"

theorem skipped_patch_loses_nothing_witness:
  "\<exists>old \<in> set [sampleRow ''tea'' ''coffee'']. qr_responses old = 1
     \<and> \<lparr>opt_option = ''tea'', opt_votes = 1\<rparr> \<in> set (qr_options old)"
proof -
  let ?st = "\<lambda>rows. fresh_status\<lparr>st_results := rows\<rparr>"
  have "statusEqual (?st [sampleRow ''tea'' ''coffee'']) (?st [sampleRow ''tea'' ''milk''])"
    by (simp add: statusEqual_def resultEqual_def sampleRow_def fresh_status_def
        conditionsEqualIgnoringTransition_def)
  from skipped_patch_loses_nothing[OF this] show ?thesis
    by (simp add: sampleRow_def)
qed

text \<open>The comparison does not see the name of an option without votes: a status in which
  such an option gets a new name compares equal, so on its own it would not be patched
  (the generation in the Ready condition is what makes the difference in practice).\<close>

lemma statusEqual_misses_renamed_option:
  "statusEqual (st\<lparr>st_results := [sampleRow a b], st_conditions := []\<rparr>)
     (st\<lparr>st_results := [sampleRow a c], st_conditions := []\<rparr>) \<longleftrightarrow> b \<noteq> a \<and> c \<noteq> a"
  by (auto simp: statusEqual_def resultEqual_def sampleRow_def conditionsEqualIgnoringTransition_def)

text \<open>The status a reconcile wants carries exactly one Ready condition when the stored one
  has distinct condition types, and it is True with reason Open while the Poll accepts
  responses and False with reason Closed afterwards, for the generation reconciled.\<close>

theorem ready_condition_mirrors_phase:
  assumes "status_condition_setter ssc" and "distinct (map c_type (st_conditions (p_status poll)))"
    and "st = desiredPollStatus ssc poll responses now t"
  shows "distinct (map c_type (st_conditions st))
    \<and> (\<exists>c. find_condition pollReadyCondition (st_conditions st) = Some c
         \<and> c_status c = (if pollClosed poll now then ConditionFalse else ConditionTrue)
         \<and> c_reason c = (if pollClosed poll now then ''Closed'' else ''Open'')
         \<and> c_observedGeneration c = m_generation (p_meta poll))"
  unfolding assms(3)
  using status_condition_setter.desired_conditions_distinct[OF assms(1,2)]
    status_condition_setter.desired_ready[OF assms(1)] by blast

theorem ready_condition_mirrors_phase_witness:
  "\<exists>c. find_condition ''Ready'' (st_conditions
      (desiredPollStatus documented_SetStatusCondition samplePoll [] (utc 200) (utc 201))) = Some c
     \<and> c_status c = ''False'' \<and> c_reason c = ''Closed''"
proof -
  have "distinct (map c_type (st_conditions (p_status samplePoll)))"
    by (simp add: sample_defs)
  from ready_condition_mirrors_phase[OF documented.status_condition_setter_axioms this refl,
      of "[]" "utc 200" "utc 201"]
  show ?thesis
    unfolding sample_clock pollReadyCondition_def ConditionFalse_def by auto
qed


section \<open>Outcomes of a reconcile\<close>

text \<open>C39: a reconcile of a Poll fails only because reading the Poll failed other than by its
  absence, because the responses could not be listed, or because the status patch failed
  other than by a conflict; the error says which.\<close>

theorem poll_reconcile_failures:
  assumes "fst (PollReconcile env req s) = Inl e"
  shows "\<exists>err. (e = Errorf ''get Poll'' err \<and> \<not> IsNotFound err)
    \<or> e = Errorf ''list PollResponses'' err
    \<or> (e = Errorf ''patch Poll status'' err \<and> \<not> IsConflict err)"
  using PollReconcile_failure[OF assms] by (auto simp: poll_failure_def split: wrapped_error.splits)

definition boom :: go_error where
  "boom = ApiError (ReasonOther ''InternalError'') ''boom''"

theorem poll_reconcile_failures_witness:
  "\<exists>err e. fst (PollReconcile ((sampleEnv 0)\<lparr>env_listResponses := \<lambda>_ s. (Inl boom, s)\<rparr>)
        (poll_key samplePoll) sampleStore) = Inl e
     \<and> e = Errorf ''list PollResponses'' err"
proof -
  let ?env = "(sampleEnv 0)\<lparr>env_listResponses := \<lambda>_ s. (Inl boom, s)\<rparr>"
  have get: "env_getPoll ?env (poll_key samplePoll) sampleStore = (Inr samplePoll, sampleStore)"
    by (simp add: sampleEnv_def read_or_not_found_def)
  have run: "fst (PollReconcile ?env (poll_key samplePoll) sampleStore)
      = Inl (Errorf ''list PollResponses'' boom)"
    using PollReconcile_list_error[OF get, of "utc 0" sampleStore boom sampleStore]
    by (simp add: sampleEnv_def)
  from run poll_reconcile_failures[OF run] show ?thesis by auto
qed

text \<open>A conflicting write makes the reconciler ask to be run again at once, without an
  error and without a further call: the status the conflicting writer stored stands.\<close>

theorem poll_conflict_requeues:
  assumes "env_getPoll env req s = (Inr poll, s1)" and "env_now env s1 = (now, s2)"
    and "env_listResponses env (m_namespace (p_meta poll)) s2 = (Inr responses, s3)"
    and "env_now env s3 = (t, s4)"
    and "desired = desiredPollStatus (env_setStatusCondition env) poll responses now t"
    and "\<not> statusEqual (p_status poll) desired"
    and "env_patchPollStatus env poll (poll\<lparr>p_status := desired\<rparr>) s4 = (Inl err, s5)"
    and "IsConflict err"
  shows "PollReconcile env req s = (Inr \<lparr>Requeue = True, RequeueAfter = 0\<rparr>, s5)"
  using PollReconcile_patched[OF assms(1-7)] assms(8) by (simp add: requeue_now_def)

theorem poll_conflict_requeues_witness:
  "PollReconcile ((sampleEnv 0)\<lparr>env_patchPollStatus := \<lambda>_ _ s. (Inl (ApiError ReasonConflict ''x''), s)\<rparr>)
     (poll_key samplePoll) sampleStore = (Inr \<lparr>Requeue = True, RequeueAfter = 0\<rparr>, sampleStore)"
proof (rule poll_conflict_requeues[where poll = samplePoll and responses = sampleResponses
      and now = "utc 0" and t = "utc 0" and ?s1.0 = sampleStore and ?s2.0 = sampleStore
      and ?s3.0 = sampleStore and ?s4.0 = sampleStore and err = "ApiError ReasonConflict ''x''",
      OF _ _ _ _ refl])
  let ?env = "(sampleEnv 0)\<lparr>env_patchPollStatus := \<lambda>_ _ s. (Inl (ApiError ReasonConflict ''x''), s)\<rparr>"
  show "env_getPoll ?env (poll_key samplePoll) sampleStore = (Inr samplePoll, sampleStore)"
    by (simp add: sampleEnv_def read_or_not_found_def)
  show "env_listResponses ?env (m_namespace (p_meta samplePoll)) sampleStore
      = (Inr sampleResponses, sampleStore)"
    using sample_reads(2)[of 0] by simp
  have "st_phase (p_status samplePoll)
      \<noteq> st_phase (desiredPollStatus (env_setStatusCondition ?env) samplePoll sampleResponses (utc 0) (utc 0))"
    unfolding desiredPollStatus_fields computePhase_phase by (simp add: samplePoll_def fresh_status_def phase_defs)
  then show "\<not> statusEqual (p_status samplePoll)
      (desiredPollStatus (env_setStatusCondition ?env) samplePoll sampleResponses (utc 0) (utc 0))"
    by (simp add: statusEqual_def)
qed (simp_all add: sampleEnv_def IsConflict_def)

text \<open>After a reconcile that leaves a Poll open before its \<open>closesAt\<close>, the reconciler asks
  to be run again after a positive delay that does not reach past \<open>closesAt\<close>.\<close>

theorem open_poll_requeued_before_close:
  assumes "ps_closesAt (p_spec poll) = Some c" and "env_now env s = (t, s')" and "time_Before t c"
  shows "\<exists>d. requeueAtClose env PollPhaseOpen poll s = (Inr \<lparr>Requeue = False, RequeueAfter = d\<rparr>, s')
    \<and> 0 < d \<and> unixNano t + d \<le> unixNano c"
  using requeueAtClose_open[OF assms] by (simp add: requeue_after_def)

theorem open_poll_requeued_before_close_witness:
  "\<exists>d. requeueAtClose (sampleEnv 40) PollPhaseOpen samplePoll sampleStore
        = (Inr \<lparr>Requeue = False, RequeueAfter = d\<rparr>, sampleStore)
     \<and> 0 < d \<and> 40 + d \<le> 100"
  using open_poll_requeued_before_close[of samplePoll "utc 100" "sampleEnv 40" sampleStore "utc 40" sampleStore]
  by (simp add: sample_defs time_Before_def)

end
