(* ===== verification/Response_Properties.thy ===== *)
theory Response_Properties
  imports Samples
begin

text \<open>
  What the PollResponse reconciler guarantees: which responses it accepts, that the verdict
  it stores is the outcome of validation and is told consistently, that it settles, and
  what closing a Poll does to responses that had been accepted.
\<close>

section \<open>Validation\<close>

text \<open>C17: for a Poll with unique question ids, a response is acceptable exactly when the Poll
  has not reached \<open>closesAt\<close> and every answer names a question of the Poll and fits it: for a
  Choice question, no text and at least one option, all of them configured, none twice, and
  only one unless several are allowed; for a FreeText question, no options and a non-empty
  text within the limit.\<close>

theorem response_acceptable_iff:
  assumes "distinct (map q_id (ps_questions (p_spec poll)))"
  shows "validateResponse pr poll resp now = None \<longleftrightarrow> \<not> pollClosed poll now
     \<and> (\<forall>ans \<in> set (rs_answers (r_spec resp)).
          \<exists>q \<in> set (ps_questions (p_spec poll)). q_id q = a_questionID ans \<and> answer_ok q ans)"
  by (rule validateResponse_None_iff[OF assms])

theorem response_acceptable_iff_witness:
  "validateResponse (\<lambda>_. False) samplePoll (sampleResponse ''r'' goodAnswers '''') (utc 5) = None
   \<and> validateResponse (\<lambda>_. False) samplePoll (sampleResponse ''r'' badAnswers '''') (utc 5) \<noteq> None
   \<and> validateResponse (\<lambda>_. False) samplePoll (sampleResponse ''r'' goodAnswers '''') (utc 100) \<noteq> None"
  unfolding response_acceptable_iff[OF sample_wf(2)]
  by (simp add: sample_defs pollClosed_def answer_ok_def text_fits_def question_type_defs)

text \<open>C31: a response to an open Poll that is not acceptable is rejected for its first bad answer:
  all answers before it fit their questions, and the reason is UnknownQuestion when it names
  none, otherwise what \<open>validateAnswer\<close> finds wrong with it.\<close>

theorem rejected_for_first_bad_answer:
  assumes "validateResponse pr poll resp now = Some e" and "\<not> pollClosed poll now"
    and "m = index_by q_id (ps_questions (p_spec poll)) Map.empty"
  shows "\<exists>pre ans post. rs_answers (r_spec resp) = pre @ ans # post
    \<and> list_all (\<lambda>a. \<exists>q. m (a_questionID a) = Some q \<and> answer_ok q a) pre
    \<and> (case m (a_questionID ans) of
         None \<Rightarrow> ve_reason e = reasonUnknownQuestion
       | Some q \<Rightarrow> validateAnswer pr q ans = Some e)"
proof (rule validateAnswers_first)
  show "validateAnswers pr m (rs_answers (r_spec resp)) = Some e"
    using assms
    by (simp add: validateResponse_def Let_def pollClosed_def not_before_iff split: option.splits)
qed

theorem rejected_for_first_bad_answer_witness:
  "\<exists>e pre ans post. validateResponse (\<lambda>_. False) samplePoll (sampleResponse ''r'' badAnswers '''') (utc 5) = Some e
     \<and> badAnswers = pre @ ans # post"
proof -
  obtain e where e: "validateResponse (\<lambda>_. False) samplePoll (sampleResponse ''r'' badAnswers '''') (utc 5) = Some e"
    using sample_bad by blast
  have opened: "\<not> pollClosed samplePoll (utc 5)" by simp
  from rejected_for_first_bad_answer[OF e opened refl] obtain pre ans post where
    "rs_answers (r_spec (sampleResponse ''r'' badAnswers '''')) = pre @ ans # post"
    by (elim exE conjE) (rule that)
  then have "badAnswers = pre @ ans # post" by (simp add: sampleResponse_def)
  with e show ?thesis by blast
qed

text \<open>The length limit of a FreeText question counts bytes, not characters: an answer of
  three characters exceeds a limit of five when its characters take two bytes each.\<close>

theorem text_limit_counts_bytes:
  "\<exists>text. rune_count text = 3
     \<and> validateAnswer pr \<lparr>q_id = ''q3'', q_prompt = '''', q_type = QuestionTypeFreeText,
          q_choice = None, q_freeText = Some \<lparr>fq_maxResponseLength = 5\<rparr>\<rparr>
          \<lparr>a_questionID = ''q3'', a_selectedOptions = [], a_text = text\<rparr> \<noteq> None"
proof -
  let ?e = "[CHR 0xC3, CHR 0xA9]"
  have "rune_count (?e @ ?e @ ?e) = 3"
    by code_simp
  then show ?thesis
    by (intro exI[of _ "?e @ ?e @ ?e"]) (simp add: validateAnswer_def)
qed

section \<open>The stored verdict\<close>



text \<open>A response that names a Poll that does not exist is rejected, and nothing else
  changes.\<close>

theorem orphan_response_rejected:
  assumes "api_store env polls responses" and "responses s k = Some r"
    and "polls s (pollKeyOf r) = None" and "m_deletionTimestamp (r_meta r) = None"
  shows "\<exists>r' s'. PollResponseReconcile env k s = (Inr empty_result, s')
    \<and> responses s' = (responses s)(k \<mapsto> r') \<and> polls s' = polls s \<and> r_spec r' = r_spec r
    \<and> rst_phase (r_status r') = PollResponsePhaseRejected"
  using api_store.reconcile_orphan[OF assms] by (auto simp: judged_def)

theorem orphan_response_rejected_witness:
  "\<exists>r' s'. PollResponseReconcile (sampleEnv 0) (NamespacedName ''ns'' ''r1'')
        (sampleStore\<lparr>mem_polls := []\<rparr>) = (Inr empty_result, s')
     \<and> mem_response s' (NamespacedName ''ns'' ''r1'') = Some r'
     \<and> rst_phase (r_status r') = PollResponsePhaseRejected"
proof -
  let ?r = "sampleResponse ''r1'' goodAnswers ''Accepted''"
  let ?s = "sampleStore\<lparr>mem_polls := []\<rparr>"
  have stored: "mem_response ?s (NamespacedName ''ns'' ''r1'') = Some ?r"
    by (simp add: mem_response_def sample_defs response_key_def)
  have store: "api_store (sampleEnv 0) mem_poll mem_response"
    unfolding sampleEnv_def by (rule memory.api_store_axioms)
  have "mem_poll ?s (pollKeyOf ?r) = None" "m_deletionTimestamp (r_meta ?r) = None"
    by (simp_all add: mem_poll_def sample_defs)
  from orphan_response_rejected[OF store, OF stored this] show ?thesis by auto
qed

text \<open>A response that is being deleted is left as it is: the reconcile reads it and stops.\<close>

theorem deleted_response_untouched:
  assumes "api_store env polls responses" and "responses s k = Some r"
    and "m_deletionTimestamp (r_meta r) \<noteq> None"
  shows "PollResponseReconcile env k s = (Inr \<lparr>Requeue = False, RequeueAfter = 0\<rparr>, s)"
  using PollResponseReconcile_deleted[OF api_store.read_response[OF assms(1,2)] assms(3)]
  by (simp add: empty_result_def)

theorem deleted_response_untouched_witness:
  "\<exists>s. mem_response s (NamespacedName ''ns'' ''r1'') \<noteq> None
     \<and> PollResponseReconcile (sampleEnv 0) (NamespacedName ''ns'' ''r1'') s
         = (Inr \<lparr>Requeue = False, RequeueAfter = 0\<rparr>, s)"
proof -
  let ?r = "(sampleResponse ''r1'' goodAnswers '''')
    \<lparr>r_meta := (sampleMeta ''r1'' ''r1'')\<lparr>m_deletionTimestamp := Some (utc 9)\<rparr>\<rparr>"
  let ?s = "sampleStore\<lparr>mem_responses := [?r]\<rparr>"
  have stored: "mem_response ?s (NamespacedName ''ns'' ''r1'') = Some ?r"
    by (simp add: mem_response_def response_key_def sampleMeta_def)
  have store: "api_store (sampleEnv 0) mem_poll mem_response"
    unfolding sampleEnv_def by (rule memory.api_store_axioms)
  have "m_deletionTimestamp (r_meta ?r) \<noteq> None" by simp
  from deleted_response_untouched[OF store, OF stored this] stored show ?thesis by blast
qed

text \<open>C26: whatever was stored before, an accepted verdict and a rejected verdict each tell one
  story: phase, acceptance time and the conditions Validated and Counted agree.\<close>

theorem verdicts_are_consistent:
  assumes "status_condition_setter ssc"
  shows "verdict_consistent (acceptedStatus ssc resp g now t1 t2)
    \<and> verdict_consistent (rejectedStatus ssc resp g reason message t1 t2)"
  using status_condition_setter.accepted_consistent[OF assms]
    status_condition_setter.rejected_consistent[OF assms] by blast

theorem verdicts_are_consistent_witness:
  "verdict_consistent (rejectedStatus documented_SetStatusCondition
     (sampleResponse ''r1'' badAnswers ''Accepted'') 1 ''UnknownOption'' ''no'' (utc 1) (utc 2))"
  using verdicts_are_consistent[OF documented.status_condition_setter_axioms] by blast

text \<open>A response that stays accepted keeps the time it was first accepted at; a rejection
  forgets it, so accepting it again later records the later time.\<close>

lemma acceptance_time:
  "rst_acceptedAt (acceptedStatus ssc resp g now t1 t2)
     = (case rst_acceptedAt (r_status resp) of None \<Rightarrow> Some now | Some t \<Rightarrow> Some t)
   \<and> rst_acceptedAt (acceptedStatus ssc
        (resp\<lparr>r_status := rejectedStatus ssc resp g' reason message u1 u2\<rparr>) g now t1 t2) = Some now"
  by (simp add: verdict_fields split: option.split)

text \<open>C24: while the response's generation, the Poll's generation and the outcome of validation
  stay the same, any number of reconciles sends at most one status patch.\<close>

theorem response_status_settles:
  assumes "status_condition_setter ssc" and "response_conditions_ok st"
    and "\<forall>x \<in> set views. \<forall>y \<in> set views. response_agree x y"
  shows "patches (response_desired ssc) responseStatusEqual views st \<le> 1"
  using assms(2,3) by (intro status_condition_setter.response_patches_at_most_one[OF assms(1)]) blast+

theorem response_status_settles_witness:
  "patches (response_desired documented_SetStatusCondition) responseStatusEqual
     [(sampleResponse ''r1'' goodAnswers '''', 1, None, utc 1, utc 2, utc 3),
      (sampleResponse ''r1'' goodAnswers '''', 1, None, utc 5, utc 6, utc 7)]
     (r_status (sampleResponse ''r1'' goodAnswers '''')) \<le> 1"
  by (rule response_status_settles[OF documented.status_condition_setter_axioms])
    (simp_all add: response_conditions_ok_def response_agree_def sampleResponse_def)

lemma failure_cases:
  "(msg \<in> {a, b} \<and> P) \<or> msg \<in> {c, d} \<or> (msg = m \<and> Q) \<Longrightarrow>
   (Errorf msg err = Errorf a err \<and> P) \<or> (Errorf msg err = Errorf b err \<and> P)
     \<or> Errorf msg err = Errorf c err \<or> Errorf msg err = Errorf d err \<or> (Errorf msg err = Errorf m err \<and> Q)"
  by auto

text \<open>A reconcile of a response fails only because reading it or its Poll failed other than
  by absence, because the owner reference could not be set or stored, or because the status
  patch failed other than by a conflict; the error says which.\<close>

theorem response_reconcile_failures:
  assumes "fst (PollResponseReconcile env req s) = Inl e"
  shows "\<exists>err. (e = Errorf ''get PollResponse'' err \<and> \<not> IsNotFound err)
    \<or> (e = Errorf ''get Poll'' err \<and> \<not> IsNotFound err)
    \<or> e = Errorf ''set controller reference'' err \<or> e = Errorf ''patch owner reference'' err
    \<or> (e = Errorf ''patch PollResponse status'' err \<and> \<not> IsConflict err)"
proof (cases e)
  case (Errorf msg err)
  have "(msg \<in> {''get PollResponse'', ''get Poll''} \<and> \<not> IsNotFound err)
      \<or> msg \<in> {''set controller reference'', ''patch owner reference''}
      \<or> (msg = ''patch PollResponse status'' \<and> \<not> IsConflict err)"
    using PollResponseReconcile_failure[OF assms] unfolding response_failure_def Errorf by simp
  then show ?thesis
    unfolding Errorf by (intro exI[of _ err] failure_cases)
qed

theorem response_reconcile_failures_witness:
  "\<exists>e err. fst (PollResponseReconcile
        ((sampleEnv 0)\<lparr>env_getResponse := \<lambda>_ s. (Inl (ApiError (ReasonOther ''x'') ''x''), s)\<rparr>) (NamespacedName ''ns'' ''r1'') sampleStore) = Inl e
     \<and> e = Errorf ''get PollResponse'' err \<and> \<not> IsNotFound err"
proof -
  let ?env = "(sampleEnv 0)\<lparr>env_getResponse := \<lambda>_ s. (Inl (ApiError (ReasonOther ''x'') ''x''), s)\<rparr>"
  have run: "fst (PollResponseReconcile ?env (NamespacedName ''ns'' ''r1'') sampleStore)
      = Inl (Errorf ''get PollResponse'' (ApiError (ReasonOther ''x'') ''x''))"
    by (simp add: PollResponseReconcile_def IsNotFound_def)
  from run response_reconcile_failures[OF run] show ?thesis by auto
qed

end
