(* ===== verification/Admission_Properties.thy ===== *)
theory Admission_Properties
  imports Samples
begin

text \<open>
  What the validating webhooks admit and what they report.
\<close>

section \<open>Polls\<close>

text \<open>C30: a Poll is admitted on creation exactly when every question matches its declared type:
  a Choice question sets only \<open>choice\<close>, with unique non-empty options, and a FreeText
  question sets only \<open>freeText\<close>; other types are refused.\<close>

theorem poll_create_admitted_iff:
  "admitted (Poll_ValidateCreate pr obj) \<longleftrightarrow> list_all wf_question (ps_questions (p_spec obj))"
  by (simp add: poll_validator.create_admits validatePollSpec_Nil_iff)

text \<open>C29: an update of a stored Poll is admitted exactly when the new spec would be admitted on
  creation and every question that keeps an existing id keeps its type.\<close>

theorem poll_update_admitted_iff:
  assumes "stored_poll oldObj"
  shows "admitted (Poll_ValidateUpdate pr oldObj newObj) \<longleftrightarrow>
     list_all wf_question (ps_questions (p_spec newObj))
   \<and> (\<forall>q \<in> set (ps_questions (p_spec newObj)). \<forall>prev \<in> set (ps_questions (p_spec oldObj)).
        q_id prev = q_id q \<longrightarrow> q_type prev = q_type q)"
  using validatePollUpdate_Nil_iff[of oldObj pr newObj] assms
  by (simp add: poll_validator.update_admits validatePollSpec_Nil_iff stored_poll_def)

definition retypedPoll :: Poll where
  "retypedPoll = samplePoll\<lparr>p_spec := (p_spec samplePoll)\<lparr>ps_questions :=
     [\<lparr>q_id = ''q1'', q_prompt = ''Tea or coffee?'', q_type = ''FreeText'', q_choice = None,
       q_freeText = Some \<lparr>fq_maxResponseLength = 0\<rparr>\<rparr>]\<rparr>\<rparr>"

theorem poll_update_admitted_iff_witness:
  "admitted (Poll_ValidateUpdate (\<lambda>_. False) samplePoll samplePoll)
   \<and> \<not> admitted (Poll_ValidateUpdate (\<lambda>_. False) samplePoll retypedPoll)"
  unfolding poll_update_admitted_iff[OF sample_wf(4)]
  by (simp add: retypedPoll_def wf_question_def question_type_defs)
    (simp add: sample_defs wf_question_def question_type_defs)

text \<open>The check sees only ids: giving a question a new id together with a new type is admitted.\<close>

lemma renamed_questions_escape_the_check:
  assumes "q_id ` set (ps_questions (p_spec oldObj)) \<inter> q_id ` set (ps_questions (p_spec newObj)) = {}"
  shows "Poll_ValidateUpdate pr oldObj newObj = Poll_ValidateCreate pr newObj"
  by (simp add: Poll_ValidateUpdate_def Poll_ValidateCreate_def validatePollUpdate_new_ids[OF assms])

text \<open>Every error about a Poll's spec points below a question that is malformed, and every
  malformed question has an error that points below it.\<close>

theorem poll_errors_point_at_bad_questions:
  "(\<exists>e \<in> set (validatePollSpec pr obj). prefix (questionsPath @ [Index i]) (error_path e))
     \<longleftrightarrow> i < length (ps_questions (p_spec obj)) \<and> \<not> wf_question (ps_questions (p_spec obj) ! i)"
  using validateQuestions_points[of pr 0 "ps_questions (p_spec obj)" i]
  by (simp add: validatePollSpec_def)

text \<open>The options of a Choice question are reported position by position: an empty option as
  invalid, an option that stands further up as a duplicate, each once and in order.\<close>

lemma option_errors_are_exact:
  "validateChoiceOptions c p
     = List.map_filter (entryError (p @ [Field ''options'']) ''option must not be empty'' 0 (cq_options c))
         [0 ..< length (cq_options c)]"
  by (simp add: validateChoiceOptions_def scanEntries_errors)

section \<open>Responses\<close>

text \<open>A response is admitted on creation exactly when every answer sets either a text or
  unique non-empty options, and not both.\<close>

theorem response_create_admitted_iff:
  "admitted (PollResponse_ValidateCreate obj) \<longleftrightarrow> list_all wf_answer (rs_answers (r_spec obj))"
  by (simp add: response_validator.create_admits validatePollResponseSpec_Nil_iff)

text \<open>An update of a response is admitted exactly when the new answers are well formed and
  the Poll it refers to is still the same.\<close>

theorem response_update_admitted_iff:
  "admitted (PollResponse_ValidateUpdate pr oldObj newObj) \<longleftrightarrow>
     list_all wf_answer (rs_answers (r_spec newObj))
   \<and> ref_name (rs_pollRef (r_spec oldObj)) = ref_name (rs_pollRef (r_spec newObj))"
  by (simp add: response_validator.update_admits validatePollResponseSpec_Nil_iff pollRefErrors_Nil_iff)

end
