(* ===== verification/Ui_Http.thy ===== *)
theory Ui_Http
  imports Kube_Api
begin

text \<open>
  What the handlers of \<open>internal/ui\<close> see of \<open>net/http\<close>: the parts of a request they read,
  the calls they make on the \<open>ResponseWriter\<close> in order, and the flash message that a
  redirect carries in a cookie. \<open>transport_cookie\<close> is what \<open>http.SetCookie\<close> and the cookie
  parser of the next request do to a value; other headers are not modelled here.
\<close>

section \<open>Requests\<close>

text \<open>
  \<open>rq_segments\<close> are the segments of the (cleaned, decoded) URL path, a trailing slash
  being a last empty segment; \<open>rq_postForm\<close> is the outcome of \<open>ParseForm\<close>, either an error
  or \<open>PostForm\<close>; \<open>rq_cookies\<close> are the cookies of the request, in header order.
\<close>

record http_request =
  rq_method :: string
  rq_segments :: "string list"
  rq_postForm :: "string + (string \<rightharpoonup> string list)"
  rq_cookies :: "(string \<times> string) list"

text \<open>Indexing a \<open>map[string][]string\<close>: an absent key gives the nil slice.\<close>

definition form_values :: "(string \<rightharpoonup> string list) \<Rightarrow> string \<Rightarrow> string list" where
  "form_values form key = (case form key of None \<Rightarrow> [] | Some vs \<Rightarrow> vs)"

text \<open>\<open>r.PostFormValue\<close> on a parsed form: the first value, or the empty string.\<close>

definition PostFormValue :: "(string \<rightharpoonup> string list) \<Rightarrow> string \<Rightarrow> string" where
  "PostFormValue form key = (case form_values form key of [] \<Rightarrow> '''' | v # _ \<Rightarrow> v)"

lemma PostFormValue_single: "form_values form key = [v] \<Longrightarrow> PostFormValue form key = v"
  by (simp add: PostFormValue_def)

section \<open>Responses\<close>

record http_cookie =
  ck_name :: string
  ck_value :: string
  ck_path :: string
  ck_httpOnly :: bool
  ck_sameSiteLax :: bool
  ck_maxAge :: int

text \<open>The calls on the \<open>ResponseWriter\<close>; \<open>'page\<close> is a rendered template with its data.\<close>

datatype 'page http_effect =
    SetCookie http_cookie
  | Redirect string nat
  | HttpError string nat
  | HttpNotFound
  | WriteHeader nat
  | WriteBody string
  | RenderPage 'page

definition StatusOK :: nat where "StatusOK = 200"
definition StatusFound :: nat where "StatusFound = 302"
definition StatusSeeOther :: nat where "StatusSeeOther = 303"
definition StatusBadRequest :: nat where "StatusBadRequest = 400"
definition StatusMethodNotAllowed :: nat where "StatusMethodNotAllowed = 405"
definition StatusInternalServerError :: nat where "StatusInternalServerError = 500"

definition serverError :: "string \<Rightarrow> 'page http_effect list" where
  "serverError action = [HttpError (''Failed to '' @ action) StatusInternalServerError]"

section \<open>Flash messages\<close>

definition flashCookieName :: string where
  "flashCookieName = ''poll_ui_flash''"

definition flashAndRedirect :: "string \<Rightarrow> string \<Rightarrow> string \<Rightarrow> 'page http_effect list" where
  "flashAndRedirect ns name msg =
     [SetCookie \<lparr>ck_name = flashCookieName, ck_value = msg, ck_path = ''/'', ck_httpOnly = True,
        ck_sameSiteLax = True, ck_maxAge = 30\<rparr>,
      Redirect (''/polls/'' @ ns @ ''/'' @ name) StatusSeeOther]"

definition readFlash :: "http_request \<Rightarrow> string" where
  "readFlash r = (case find (\<lambda>c. fst c = flashCookieName) (rq_cookies r) of
     None \<Rightarrow> '''' | Some c \<Rightarrow> snd c)"

text \<open>
  \<open>http.SetCookie\<close> drops every byte that is not a printable ASCII character or is a quote,
  a semicolon or a backslash; what is left comes back unchanged.
\<close>

definition validCookieValueByte :: "char \<Rightarrow> bool" where
  "validCookieValueByte c \<longleftrightarrow> 0x20 \<le> byte_of c \<and> byte_of c < 0x7F
     \<and> byte_of c \<noteq> 34 \<and> byte_of c \<noteq> 59 \<and> byte_of c \<noteq> 92"

definition transport_cookie :: "http_cookie \<Rightarrow> string \<times> string" where
  "transport_cookie ck = (ck_name ck, filter validCookieValueByte (ck_value ck))"

text \<open>The cookies a browser sends back after a reply.\<close>

fun cookies_set :: "'page http_effect list \<Rightarrow> (string \<times> string) list" where
  "cookies_set [] = []"
| "cookies_set (SetCookie ck # es) = transport_cookie ck # cookies_set es"
| "cookies_set (_ # es) = cookies_set es"

lemma readFlash_after_flash:
  "readFlash \<lparr>rq_method = m, rq_segments = segs, rq_postForm = form,
     rq_cookies = cookies_set (flashAndRedirect ns name msg)\<rparr>
   = filter validCookieValueByte msg"
  by (simp add: readFlash_def flashAndRedirect_def transport_cookie_def)

text \<open>A message survives unchanged exactly when all its bytes are valid in a cookie.\<close>

lemma flash_survives_iff:
  "filter validCookieValueByte msg = msg \<longleftrightarrow> list_all validCookieValueByte msg"
  by (metis filter_id_conv list_all_iff)

end
