(* ===== verification/Ui_Answers.thy ===== *)
theory Ui_Answers
  imports Ui_Http Poll_Webhook Response_Webhook Response_Validation
begin

text \<open>
  Voting through the UI (\<open>buildAnswers\<close> and \<open>handleVote\<close> of \<open>internal/ui/handlers.go\<close>): how
  a submitted form becomes the answers of a PollResponse, what the admission webhook can
  still object to, and when the reconciler will accept the vote.
\<close>

section \<open>The code\<close>

text \<open>The trimmed, non-empty values of a Choice question's form field.\<close>

fun trimmedSelections :: "string list \<Rightarrow> string list" where
  "trimmedSelections [] = []"
| "trimmedSelections (v # vs) =
     (let v = TrimSpace v
      in if v \<noteq> '''' then v # trimmedSelections vs else trimmedSelections vs)"

text \<open>One round of the loop: the answer appended for a question, if any.\<close>

definition answerFor :: "(string \<rightharpoonup> string list) \<Rightarrow> PollQuestion \<Rightarrow> PollAnswer option" where
  "answerFor form q =
     (let key = ''q.'' @ q_id q;
          values = form_values form key
      in if q_type q = QuestionTypeChoice then
           (let selected = trimmedSelections values
            in if length selected = 0 then None
               else Some \<lparr>a_questionID = q_id q, a_selectedOptions = selected, a_text = ''''\<rparr>)
         else if q_type q = QuestionTypeFreeText then
           (let text = (if 0 < length values then TrimSpace (hd values) else '''')
            in if text = '''' then None
               else Some \<lparr>a_questionID = q_id q, a_selectedOptions = [], a_text = text\<rparr>)
         else None)"

fun collectAnswers :: "(string \<rightharpoonup> string list) \<Rightarrow> PollQuestion list \<Rightarrow> PollAnswer list" where
  "collectAnswers form [] = []"
| "collectAnswers form (q # qs) =
     (case answerFor form q of
        None \<Rightarrow> collectAnswers form qs
      | Some a \<Rightarrow> a # collectAnswers form qs)"

definition buildAnswers :: "Poll \<Rightarrow> (string \<rightharpoonup> string list) \<Rightarrow> string + PollAnswer list" where
  "buildAnswers poll form =
     (let answers = collectAnswers form (ps_questions (p_spec poll))
      in if length answers = 0 then Inl ''no answers were provided'' else Inr answers)"

text \<open>The object that \<open>handleVote\<close> creates; fields it does not set have their zero value.\<close>

definition voteResponse ::
    "string \<Rightarrow> string \<Rightarrow> (string \<rightharpoonup> string list) \<Rightarrow> PollAnswer list \<Rightarrow> PollResponse" where
  "voteResponse ns name form answers =
     \<lparr>r_meta = \<lparr>m_name = '''', m_generateName = name @ ''-'', m_namespace = ns, m_uid = '''',
        m_generation = 0, m_deletionTimestamp = None, m_ownerReferences = []\<rparr>,
      r_spec = \<lparr>rs_pollRef = \<lparr>ref_name = name\<rparr>,
        rs_respondent = TrimSpace (PostFormValue form ''respondent''),
        rs_answers = answers, rs_submittedAt = None\<rparr>,
      r_status = \<lparr>rst_conditions = [], rst_phase = '''', rst_observedPollGeneration = 0,
        rst_acceptedAt = None\<rparr>\<rparr>"

text \<open>The success message; its dash is the three bytes of U+2014.\<close>

definition thanksMessage :: "string \<Rightarrow> string" where
  "thanksMessage respName =
     ''Thanks '' @ [CHR 0xE2, CHR 0x80, CHR 0x94] @ '' your response was recorded as ''
       @ respName @ ''.''"

definition handleVote ::
    "'s kube_env \<Rightarrow> string \<Rightarrow> string \<Rightarrow> http_request \<Rightarrow> 's \<Rightarrow> 'page http_effect list \<times> 's" where
  "handleVote env ns name r s =
     (case rq_postForm r of
        Inl _ \<Rightarrow> ([HttpError ''invalid form'' StatusBadRequest], s)
      | Inr form \<Rightarrow>
        (case env_getPoll env (NamespacedName ns name) s of
           (Inl err, s1) \<Rightarrow>
             (if IsNotFound err then [HttpNotFound] else serverError ''get poll'', s1)
         | (Inr poll, s1) \<Rightarrow>
           (case buildAnswers poll form of
              Inl err \<Rightarrow> (flashAndRedirect ns name (''Could not build response: '' @ err), s1)
            | Inr answers \<Rightarrow>
              (case env_createResponse env (voteResponse ns name form answers) s1 of
                 (Inl err, s2) \<Rightarrow>
                   (flashAndRedirect ns name (''Server refused the vote: '' @ err_message err), s2)
               | (Inr resp, s2) \<Rightarrow>
                   (flashAndRedirect ns name (thanksMessage (m_name (r_meta resp))), s2)))))"

section \<open>What the answers look like\<close>

lemma trimmedSelections_eq:
  "trimmedSelections vs = filter (\<lambda>v. v \<noteq> '''') (map TrimSpace vs)"
  by (induction vs) (simp_all add: Let_def)

lemma trimmedSelections_trimmed:
  assumes "v \<in> set (trimmedSelections vs)"
  shows "v \<noteq> ''''" and "TrimSpace v = v"
  using assms by (auto simp: trimmedSelections_eq TrimSpace_idem)

text \<open>Values that are already trimmed and not blank come through as they are.\<close>

lemma trimmedSelections_id:
  assumes "list_all (\<lambda>v. TrimSpace v = v \<and> v \<noteq> '''') vs"
  shows "trimmedSelections vs = vs"
  using assms by (induction vs) (simp_all add: Let_def)

lemma answerFor_SomeD:
  assumes "answerFor form q = Some a"
  shows "a_questionID a = q_id q"
    and "a_selectedOptions a \<noteq> [] \<and> a_text a = '''' \<and> q_type q = QuestionTypeChoice
           \<and> a_selectedOptions a = trimmedSelections (form_values form (''q.'' @ q_id q))
       \<or> a_selectedOptions a = [] \<and> a_text a \<noteq> '''' \<and> q_type q = QuestionTypeFreeText
           \<and> a_text a = TrimSpace (PostFormValue form (''q.'' @ q_id q))"
  using assms
  by (auto simp: answerFor_def Let_def PostFormValue_def split: if_splits list.splits)

lemma answerFor_wf_iff:
  assumes "answerFor form q = Some a"
  shows "wf_answer a \<longleftrightarrow> distinct (a_selectedOptions a)"
  using answerFor_SomeD(2)[OF assms] trimmedSelections_trimmed(1)[of "''''"]
  by (auto simp: wf_answer_def)

lemma collectAnswers_eq: "collectAnswers form qs = List.map_filter (answerFor form) qs"
  by (induction qs) (simp_all split: option.split)

lemma collectAnswers_mem_iff:
  "a \<in> set (collectAnswers form qs) \<longleftrightarrow> (\<exists>q \<in> set qs. answerFor form q = Some a)"
  by (induction qs) (auto split: option.splits)

lemma collectAnswers_ids_subseq:
  "subseq (map a_questionID (collectAnswers form qs)) (map q_id qs)"
  by (induction qs) (auto simp: answerFor_SomeD split: option.splits)

lemma collectAnswers_wf_iff:
  "list_all wf_answer (collectAnswers form qs)
     \<longleftrightarrow> list_all (\<lambda>a. distinct (a_selectedOptions a)) (collectAnswers form qs)"
  unfolding list_all_iff
  by (intro ball_cong refl) (auto simp: collectAnswers_mem_iff answerFor_wf_iff)

lemma buildAnswers_InrD:
  "buildAnswers poll form = Inr answers
     \<Longrightarrow> answers = collectAnswers form (ps_questions (p_spec poll)) \<and> answers \<noteq> []"
  by (auto simp: buildAnswers_def Let_def split: if_splits)

section \<open>Votes from the rendered form\<close>

text \<open>
  What the form of \<open>templates/poll.html\<close> submits for a question: a radio button or a set
  of check boxes whose values are the options, or one text area limited by
  \<open>maxlength\<close>. The bound is in bytes, as the reconciler counts it.
\<close>

definition formSends :: "PollQuestion \<Rightarrow> string list \<Rightarrow> bool" where
  "formSends q vs \<longleftrightarrow>
     (if q_type q = QuestionTypeChoice
      then subseq vs (question_options q)
        \<and> (case q_choice q of None \<Rightarrow> True | Some c \<Rightarrow> cq_allowMultipleChoices c \<or> length vs \<le> 1)
      else (case vs of [t] \<Rightarrow>
              length t < 2 ^ 31
              \<and> (case q_freeText q of None \<Rightarrow> True
                 | Some ft \<Rightarrow> fq_maxResponseLength ft = 0
                     \<or> int (length t) \<le> sint (fq_maxResponseLength ft))
            | _ \<Rightarrow> False))"

definition trimmedOptions :: "PollQuestion \<Rightarrow> bool" where
  "trimmedOptions q \<longleftrightarrow> list_all (\<lambda>opt. TrimSpace opt = opt) (question_options q)"

lemma subseq_distinct: "subseq xs ys \<Longrightarrow> distinct ys \<Longrightarrow> distinct xs"
  by (auto simp: subseq_conv_nths intro: distinct_nthsI)

lemma answerFor_choice_ok:
  assumes wf: "wf_question q" and trimmed: "trimmedOptions q"
    and sends: "formSends q (form_values form (''q.'' @ q_id q))"
    and a: "answerFor form q = Some a" and choice: "q_type q = QuestionTypeChoice"
  shows "answer_ok q a"
proof -
  let ?vs = "form_values form (''q.'' @ q_id q)"
  obtain c where c: "q_choice q = Some c" and dist: "distinct (cq_options c)"
    and nonempty: "'''' \<notin> set (cq_options c)"
    using wf choice by (auto simp: wf_question_def)
  have opts: "question_options q = cq_options c"
    by (simp add: question_options_def c)
  have sub: "subseq ?vs (cq_options c)" and single: "cq_allowMultipleChoices c \<or> length ?vs \<le> 1"
    using sends choice by (simp_all add: formSends_def opts c)
  have subset: "set ?vs \<subseteq> set (cq_options c)"
    by (rule subsetI) (erule list_emb_set[OF sub], simp)
  have "trimmedSelections ?vs = ?vs"
    using trimmed subset nonempty
    by (intro trimmedSelections_id) (auto simp: trimmedOptions_def opts list_all_iff)
  then have sel: "a_selectedOptions a = ?vs" "?vs \<noteq> []" "a_text a = ''''"
    using answerFor_SomeD(2)[OF a] choice by auto
  have "length ?vs = 1" if "length ?vs \<le> 1"
    using sel(2) that by (cases ?vs) auto
  then show ?thesis
    using choice c sel subset single subseq_distinct[OF sub dist] by (auto simp: answer_ok_def)
qed

lemma answerFor_text_ok:
  assumes sends: "formSends q (form_values form (''q.'' @ q_id q))"
    and a: "answerFor form q = Some a" and freetext: "q_type q = QuestionTypeFreeText"
  shows "answer_ok q a"
proof -
  obtain t where vs: "form_values form (''q.'' @ q_id q) = [t]" and small: "length t < 2 ^ 31"
    and fits: "case q_freeText q of None \<Rightarrow> True
       | Some ft \<Rightarrow> fq_maxResponseLength ft = 0 \<or> int (length t) \<le> sint (fq_maxResponseLength ft)"
    using sends freetext by (auto simp: formSends_def split: list.splits)
  have a': "a_selectedOptions a = []" "a_text a \<noteq> ''''" "a_text a = TrimSpace t"
    using answerFor_SomeD(2)[OF a] freetext by (auto simp only: PostFormValue_single[OF vs] question_types_distinct)
  have "sint (of_nat (length (TrimSpace t)) :: int32) = int (length (TrimSpace t))"
    using small length_TrimSpace_le[of t] by (intro sint_of_nat_int32) (rule le_less_trans)
  then have "text_fits q (a_text a)"
    using fits length_TrimSpace_le[of t] by (auto simp: text_fits_def a'(3) split: option.splits)
  then show ?thesis
    using freetext a' by (simp add: answer_ok_def)
qed

lemma answerFor_ok:
  assumes "wf_question q" and "trimmedOptions q"
    and "formSends q (form_values form (''q.'' @ q_id q))" and "answerFor form q = Some a"
  shows "answer_ok q a"
  using answerFor_choice_ok[OF assms] answerFor_text_ok[OF assms(3,4)] assms(1)
  by (auto simp: wf_question_def)

lemma rendered_vote_valid:
  assumes ids: "distinct (map q_id (ps_questions (p_spec poll)))"
    and wf: "list_all wf_question (ps_questions (p_spec poll))"
    and trimmed: "list_all trimmedOptions (ps_questions (p_spec poll))"
    and sends: "list_all (\<lambda>q. formSends q (form_values form (''q.'' @ q_id q)))
                  (ps_questions (p_spec poll))"
    and "\<not> pollClosed poll now" and answers: "buildAnswers poll form = Inr answers"
  shows "validateResponse pr poll (voteResponse ns name form answers) now = None"
proof -
  have "\<exists>q \<in> set (ps_questions (p_spec poll)). q_id q = a_questionID a \<and> answer_ok q a"
    if "a \<in> set answers" for a
  proof -
    have "a \<in> set (collectAnswers form (ps_questions (p_spec poll)))"
      using buildAnswers_InrD[OF answers] that by simp
    then obtain q where q: "q \<in> set (ps_questions (p_spec poll))" "answerFor form q = Some a"
      by (auto simp: collectAnswers_mem_iff)
    have "answer_ok q a"
      using wf trimmed sends q by (intro answerFor_ok) (auto simp: list_all_iff)
    with q answerFor_SomeD(1)[OF q(2)] show ?thesis by metis
  qed
  then show ?thesis
    using assms(5) by (simp add: validateResponse_None_iff[OF ids] voteResponse_def)
qed

end
