(* ===== verification/Ui_Views.thy ===== *)
theory Ui_Views
  imports Ui_Answers Poll_Tally "HOL-Library.Signed_Division" "HOL-Library.Multiset"
begin

text \<open>
  The pages of the UI (\<open>internal/ui/handlers.go\<close>, \<open>internal/ui/templates.go\<close>): the list of
  Polls in the order of namespace and name, the detail page with its question views, the
  template functions \<open>maxVotes\<close> and \<open>barWidth\<close> with their 32-bit arithmetic, and the
  routing of requests to handlers. \<open>slices.SortFunc\<close> is used through the contract
  \<open>slice_sorter\<close>, which the insertion sort below meets.
\<close>

section \<open>Sorting a slice with a comparison function\<close>

fun insertFunc :: "('a \<Rightarrow> 'a \<Rightarrow> int) \<Rightarrow> 'a \<Rightarrow> 'a list \<Rightarrow> 'a list" where
  "insertFunc cmp x [] = [x]"
| "insertFunc cmp x (y # ys) =
     (if cmp x y \<le> 0 then x # y # ys else y # insertFunc cmp x ys)"

fun SortFunc :: "('a \<Rightarrow> 'a \<Rightarrow> int) \<Rightarrow> 'a list \<Rightarrow> 'a list" where
  "SortFunc cmp [] = []"
| "SortFunc cmp (x # xs) = insertFunc cmp x (SortFunc cmp xs)"

text \<open>
  Documented behaviour of \<open>slices.SortFunc\<close>, for a comparison that agrees with a key in a
  linear order. The order of elements with the same key is left open.
\<close>

locale slice_sorter =
  fixes sortf :: "('a \<Rightarrow> 'a \<Rightarrow> int) \<Rightarrow> 'a list \<Rightarrow> 'a list"
    and cmp :: "'a \<Rightarrow> 'a \<Rightarrow> int" and key :: "'a \<Rightarrow> 'k :: linorder"
  assumes permutes: "mset (sortf cmp xs) = mset xs"
    and sorts: "sorted (map key (sortf cmp xs))"
begin

lemma sort_set: "set (sortf cmp xs) = set xs"
  by (rule mset_eq_setD) (rule permutes)

text \<open>With distinct keys the result is the only sorted arrangement.\<close>

lemma sort_unique:
  assumes "distinct (map key xs)" and "mset ys = mset xs" and "sorted (map key ys)"
  shows "sortf cmp xs = ys"
proof (rule map_sorted_distinct_set_unique)
  show "inj_on key (set (sortf cmp xs) \<union> set ys)"
    using assms(1) mset_eq_setD[OF assms(2)] by (simp add: sort_set distinct_map)
  show "sorted (map key (sortf cmp xs))" by (rule sorts)
  have "mset (map key zs) = mset (map key xs)" if "mset zs = mset xs" for zs
    using that by simp
  then show "distinct (map key (sortf cmp xs))" "distinct (map key ys)"
    using assms(1,2) permutes mset_eq_imp_distinct_iff by metis+
  show "sorted (map key ys)" by (rule assms(3))
  show "set (sortf cmp xs) = set ys"
    using mset_eq_setD[OF assms(2)] by (simp add: sort_set)
qed

end

lemma mset_insertFunc [simp]: "mset (insertFunc cmp x xs) = add_mset x (mset xs)"
  by (induction xs) auto

lemma mset_SortFunc: "mset (SortFunc cmp xs) = mset xs"
  by (induction xs) auto

lemma sorted_insertFunc:
  assumes "\<And>x y. cmp x y \<le> 0 \<longleftrightarrow> key x \<le> (key y :: 'k :: linorder)"
  shows "sorted (map key (insertFunc cmp x xs)) \<longleftrightarrow> sorted (map key xs)"
proof (induction xs)
  case Nil
  then show ?case by simp
next
  case (Cons y ys)
  have "set (insertFunc cmp x ys) = insert x (set ys)"
    using mset_insertFunc[of cmp x ys] by (metis set_mset_add_mset_insert set_mset_mset)
  with Cons assms show ?case by auto
qed

lemma sorted_SortFunc:
  assumes "\<And>x y. cmp x y \<le> 0 \<longleftrightarrow> key x \<le> (key y :: 'k :: linorder)"
  shows "sorted (map key (SortFunc cmp xs))"
  by (induction xs) (simp_all add: sorted_insertFunc[of cmp key, OF assms])

section \<open>The list of Polls\<close>

record pollListItem =
  li_namespace :: string
  li_name :: string
  li_title :: string
  li_phase :: string
  li_totalResponses :: int32

definition listItem :: "Poll \<Rightarrow> pollListItem" where
  "listItem p = \<lparr>li_namespace = m_namespace (p_meta p), li_name = m_name (p_meta p),
     li_title = ps_title (p_spec p), li_phase = st_phase (p_status p),
     li_totalResponses = st_totalResponses (p_status p)\<rparr>"

definition compareItems :: "pollListItem \<Rightarrow> pollListItem \<Rightarrow> int" where
  "compareItems a b =
     (if li_namespace a \<noteq> li_namespace b
      then strings_Compare (li_namespace a) (li_namespace b)
      else strings_Compare (li_name a) (li_name b))"

definition listItems :: "Poll list \<Rightarrow> pollListItem list" where
  "listItems polls = SortFunc compareItems (map listItem polls)"

definition item_key :: "pollListItem \<Rightarrow> NamespacedName" where
  "item_key i = NamespacedName (li_namespace i) (li_name i)"

lemma item_key_listItem [simp]: "item_key (listItem p) = poll_key p"
  by (simp add: item_key_def listItem_def poll_key_def)

lemma compareItems_iff: "compareItems a b \<le> 0 \<longleftrightarrow> item_key a \<le> item_key b"
  by (auto simp: compareItems_def item_key_def less_eq_NamespacedName_def strings_Compare_def)

interpretation items: slice_sorter SortFunc compareItems item_key
  by unfold_locales (rule mset_SortFunc, rule sorted_SortFunc, rule compareItems_iff)

section \<open>The detail page\<close>

record optionView =
  ov_option :: string
  ov_votes :: int32

record questionView =
  qv_id :: string
  qv_prompt :: string
  qv_type :: QuestionType
  qv_allowMultiple :: bool
  qv_options :: "optionView list"
  qv_textResponses :: int32
  qv_maxLength :: int32

text \<open>Reading a \<open>map[string]QuestionResult\<close>: an absent id gives the zero value.\<close>

definition lookupResult :: "(string \<rightharpoonup> QuestionResult) \<Rightarrow> string \<Rightarrow> QuestionResult" where
  "lookupResult m qid =
     (case m qid of None \<Rightarrow> \<lparr>qr_questionID = '''', qr_options = [], qr_responses = 0\<rparr> | Some r \<Rightarrow> r)"

definition lookupVotes :: "(string \<rightharpoonup> OptionResult) \<Rightarrow> string \<Rightarrow> int32" where
  "lookupVotes m opt = (case m opt of None \<Rightarrow> 0 | Some r \<Rightarrow> opt_votes r)"

definition questionViewOf :: "(string \<rightharpoonup> QuestionResult) \<Rightarrow> PollQuestion \<Rightarrow> questionView" where
  "questionViewOf resultByID q =
     (let qv = \<lparr>qv_id = q_id q, qv_prompt = q_prompt q, qv_type = q_type q,
                qv_allowMultiple = False, qv_options = [], qv_textResponses = 0, qv_maxLength = 0\<rparr>;
          qv = (case q_choice q of
                  None \<Rightarrow> qv
                | Some c \<Rightarrow>
                    let votes = index_by opt_option (qr_options (lookupResult resultByID (q_id q))) Map.empty
                    in qv\<lparr>qv_allowMultiple := cq_allowMultipleChoices c,
                          qv_options := map (\<lambda>opt. \<lparr>ov_option = opt, ov_votes = lookupVotes votes opt\<rparr>)
                                          (cq_options c)\<rparr>);
          qv = (case q_freeText q of
                  None \<Rightarrow> qv
                | Some ft \<Rightarrow>
                    qv\<lparr>qv_maxLength := fq_maxResponseLength ft,
                       qv_textResponses := qr_responses (lookupResult resultByID (q_id q))\<rparr>)
      in qv)"

definition questionViews :: "Poll \<Rightarrow> questionView list" where
  "questionViews poll =
     (let resultByID = index_by qr_questionID (st_results (p_status poll)) Map.empty
      in map (questionViewOf resultByID) (ps_questions (p_spec poll)))"

text \<open>A page template with the data it is executed on.\<close>

datatype page =
    IndexPage (page_title: string) (page_polls: "pollListItem list")
  | PollPage (page_title: string) (page_poll: Poll) (page_questions: "questionView list")
      (page_flash: string) (page_isOpen: bool)

section \<open>Handlers and routes\<close>

definition handleRoot :: "http_request \<Rightarrow> page http_effect list" where
  "handleRoot r = (if rq_segments r \<noteq> [] then [HttpNotFound] else [Redirect ''/polls'' StatusFound])"

definition handleHealthz :: "page http_effect list" where
  "handleHealthz = [WriteHeader StatusOK, WriteBody ''ok'']"

definition pageTitlePolls :: string where "pageTitlePolls = ''Polls''"

definition handleListPolls :: "'s kube_env \<Rightarrow> 's \<Rightarrow> page http_effect list \<times> 's" where
  "handleListPolls env s =
     (case env_listPolls env s of
        (Inl err, s') \<Rightarrow> (serverError ''list polls'', s')
      | (Inr polls, s') \<Rightarrow> ([RenderPage (IndexPage pageTitlePolls (listItems polls))], s'))"

definition handlePollDetail ::
    "'s kube_env \<Rightarrow> string \<Rightarrow> string \<Rightarrow> http_request \<Rightarrow> 's \<Rightarrow> page http_effect list \<times> 's" where
  "handlePollDetail env ns name r s =
     (case env_getPoll env (NamespacedName ns name) s of
        (Inl err, s') \<Rightarrow> (if IsNotFound err then [HttpNotFound] else serverError ''get poll'', s')
      | (Inr poll, s') \<Rightarrow>
          ([RenderPage (PollPage (ps_title (p_spec poll)) poll (questionViews poll) (readFlash r)
              (st_phase (p_status poll) = PollPhaseOpen))], s'))"

text \<open>
  \<open>routes\<close>: the pattern \<open>GET /\<close> matches every path, also for \<open>HEAD\<close>, so an unknown path
  reaches \<open>handleRoot\<close>, and an unknown method is answered by the multiplexer itself. A
  wildcard segment is never empty.
\<close>

definition routes :: "'s kube_env \<Rightarrow> http_request \<Rightarrow> 's \<Rightarrow> page http_effect list \<times> 's" where
  "routes env r s =
     (if rq_method r = ''GET'' \<or> rq_method r = ''HEAD'' then
        (case rq_segments r of
           [a] \<Rightarrow> if a = ''polls'' then handleListPolls env s
                 else if a = ''healthz'' then (handleHealthz, s)
                 else (handleRoot r, s)
         | [a, ns, name] \<Rightarrow>
             if a = ''polls'' \<and> ns \<noteq> '''' \<and> name \<noteq> '''' then handlePollDetail env ns name r s
             else (handleRoot r, s)
         | _ \<Rightarrow> (handleRoot r, s))
      else if rq_method r = ''POST'' then
        (case rq_segments r of
           [a, ns, name, b] \<Rightarrow>
             if a = ''polls'' \<and> ns \<noteq> '''' \<and> name \<noteq> '''' \<and> b = ''vote'' then handleVote env ns name r s
             else ([HttpError ''Method Not Allowed'' StatusMethodNotAllowed], s)
         | _ \<Rightarrow> ([HttpError ''Method Not Allowed'' StatusMethodNotAllowed], s))
      else ([HttpError ''Method Not Allowed'' StatusMethodNotAllowed], s))"

section \<open>Template functions\<close>

fun maxVotesFrom :: "int32 \<Rightarrow> optionView list \<Rightarrow> int32" where
  "maxVotesFrom m [] = m"
| "maxVotesFrom m (ov # ovs) = maxVotesFrom (if sint m < sint (ov_votes ov) then ov_votes ov else m) ovs"

definition maxVotes :: "optionView list \<Rightarrow> int32" where
  "maxVotes opts = maxVotesFrom 0 opts"

text \<open>Division of Go's \<open>int32\<close>: towards zero, wrapping.\<close>

definition int32_quot :: "int32 \<Rightarrow> int32 \<Rightarrow> int32" where
  "int32_quot a b = word_of_int (sint a sdiv sint b)"

definition barWidth :: "int32 \<Rightarrow> int32 \<Rightarrow> int32" where
  "barWidth votes most = (if sint most \<le> 0 then 0 else int32_quot (votes * 100) most)"

section \<open>What the detail page shows\<close>

lemma questionViews_ids: "map qv_id (questionViews poll) = map q_id (ps_questions (p_spec poll))"
  by (simp add: questionViews_def questionViewOf_def Let_def comp_def split: option.split)

lemma lookupResult_present:
  assumes "distinct (map qr_questionID rs)" and "r \<in> set rs"
  shows "lookupResult (index_by qr_questionID rs Map.empty) (qr_questionID r) = r"
  using assms by (simp add: lookupResult_def index_by_distinct)

lemma lookupVotes_present:
  assumes "distinct (map opt_option os)" and "r \<in> set os"
  shows "lookupVotes (index_by opt_option os Map.empty) (opt_option r) = opt_votes r"
  using assms by (simp add: lookupVotes_def index_by_distinct)

lemma lookup_aggregate:
  assumes wf: "wf_questions (ps_questions (p_spec poll))" and q: "q \<in> set (ps_questions (p_spec poll))"
  shows "lookupResult (index_by qr_questionID (fst (aggregateResults poll responses)) Map.empty) (q_id q)
    = specResult (countedAnswers poll responses) q"
proof -
  let ?rs = "map (specResult (countedAnswers poll responses)) (ps_questions (p_spec poll))"
  have "distinct (map qr_questionID ?rs)"
    using wf by (simp add: wf_questions_def specResult_def comp_def)
  moreover have "specResult (countedAnswers poll responses) q \<in> set ?rs"
    using q by simp
  moreover have "qr_questionID (specResult (countedAnswers poll responses) q) = q_id q"
    by (simp add: specResult_def)
  ultimately show ?thesis
    using lookupResult_present[of ?rs] by (metis aggregateResults_eq[OF wf] fst_conv)
qed

lemma votes_of_specResult:
  assumes "distinct (talliedOptions q)" and "opt \<in> set (talliedOptions q)"
  shows "lookupVotes (index_by opt_option (qr_options (specResult answers q)) Map.empty) opt
    = of_nat (count_list (selectionsFor (q_id q) answers) opt)"
proof -
  let ?r = "\<lparr>opt_option = opt, opt_votes = of_nat (count_list (selectionsFor (q_id q) answers) opt)\<rparr>"
  have "?r \<in> set (qr_options (specResult answers q))"
    using assms(2) by (auto simp: specResult_def)
  moreover have "distinct (map opt_option (qr_options (specResult answers q)))"
    using assms(1) by (simp add: specResult_def comp_def)
  ultimately show ?thesis
    using lookupVotes_present[of _ ?r] by simp
qed

text \<open>A Choice question of a Poll whose results are up to date.\<close>

lemma choice_view:
  assumes wf: "wf_questions (ps_questions (p_spec poll))" and q: "q \<in> set (ps_questions (p_spec poll))"
    and choice: "q_type q = QuestionTypeChoice" "q_choice q = Some c" "q_freeText q = None"
    and fresh: "st_results (p_status poll) = fst (aggregateResults poll responses)"
  shows "\<lparr>qv_id = q_id q, qv_prompt = q_prompt q, qv_type = q_type q,
      qv_allowMultiple = cq_allowMultipleChoices c,
      qv_options = map (\<lambda>opt. \<lparr>ov_option = opt,
          ov_votes = of_nat (count_list (selectionsFor (q_id q) (countedAnswers poll responses)) opt)\<rparr>)
        (cq_options c),
      qv_textResponses = 0, qv_maxLength = 0\<rparr> \<in> set (questionViews poll)" (is "?v \<in> _")
proof -
  have "distinct (question_options q)"
    using wf q by (simp add: wf_questions_def list_all_iff)
  then have opts: "talliedOptions q = cq_options c" "distinct (talliedOptions q)"
    using choice by (simp_all add: talliedOptions_def question_options_def)
  have "?v = questionViewOf (index_by qr_questionID (st_results (p_status poll)) Map.empty) q"
    using opts votes_of_specResult[of q]
    by (simp add: questionViewOf_def Let_def choice fresh lookup_aggregate[OF wf q])
  then show ?thesis
    using q by (simp add: questionViews_def Let_def)
qed

section \<open>The bars\<close>

lemma sint_maxVotesFrom:
  "sint (maxVotesFrom m ovs) = Max (insert (sint m) (sint ` ov_votes ` set ovs))"
proof (induction ovs arbitrary: m)
  case Nil
  then show ?case by simp
next
  case (Cons ov ovs)
  show ?case
    by (cases "ovs = []") (auto simp: Cons max_def insert_commute)
qed

lemma sint_maxVotes: "sint (maxVotes ovs) = Max (insert 0 (sint ` ov_votes ` set ovs))"
  by (simp add: maxVotes_def sint_maxVotesFrom)

lemma maxVotes_ge: "ov \<in> set ovs \<Longrightarrow> sint (ov_votes ov) \<le> sint (maxVotes ovs)"
  unfolding sint_maxVotes by (rule Max_ge) auto

lemma sint_int32_in_range: "- (2 ^ 31) \<le> k \<Longrightarrow> k < 2 ^ 31 \<Longrightarrow> sint (word_of_int k :: int32) = k"
  by (simp add: sint_word_ariths signed_of_int signed_take_bit_int_eq_self)

lemma barWidth_value:
  assumes "0 \<le> sint votes" and "sint votes * 100 < 2 ^ 31" and "0 < sint most"
  shows "sint (barWidth votes most) = sint votes * 100 div sint most"
proof -
  have prod: "sint (votes * 100) = sint votes * 100"
  proof -
    have "votes * 100 = word_of_int (sint votes * 100)"
      by simp
    then show ?thesis
      using assms(1,2) by (simp only: sint_int32_in_range)
  qed
  have "0 \<le> sint votes * 100 div sint most"
    using assms(1,3) by (simp add: pos_imp_zdiv_nonneg_iff)
  moreover have "sint votes * 100 div sint most \<le> sint votes * 100"
    using assms(1,3) zdiv_mono2[of "sint votes * 100" 1 "sint most"] by simp
  ultimately have "sint (word_of_int (sint votes * 100 div sint most) :: int32)
      = sint votes * 100 div sint most"
    using assms(2) by (intro sint_int32_in_range) linarith+
  moreover have "(sint votes * 100) sdiv sint most = sint votes * 100 div sint most"
    using assms(1,3) by (auto simp: signed_divide_int_def sgn_if)
  ultimately show ?thesis
    using assms(3) by (simp add: barWidth_def int32_quot_def prod)
qed

end
