(* ===== verification/Crd_Schema.thy ===== *)
theory Crd_Schema
  imports Poll_Status Response_Reconciler Poll_Webhook
begin

text \<open>
  The schema of the two custom resources: what the kubebuilder markers on the API types (and
  the CRDs generated from them, \<open>config/crd/bases\<close>) make the API server check on every write. One
  predicate per type, for the markers of its fields, and the regular expressions as
  predicates on strings. Lengths count code points.
\<close>

section \<open>Strings\<close>

definition length_within :: "nat \<Rightarrow> nat \<Rightarrow> string \<Rightarrow> bool" where
  "length_within lo hi s \<longleftrightarrow> lo \<le> rune_count s \<and> rune_count s \<le> hi"

definition is_lower :: "char \<Rightarrow> bool" where
  "is_lower c \<longleftrightarrow> 97 \<le> byte_of c \<and> byte_of c \<le> 122"

definition is_upper :: "char \<Rightarrow> bool" where
  "is_upper c \<longleftrightarrow> 65 \<le> byte_of c \<and> byte_of c \<le> 90"

definition is_digit :: "char \<Rightarrow> bool" where
  "is_digit c \<longleftrightarrow> 48 \<le> byte_of c \<and> byte_of c \<le> 57"

text \<open>\<open>^F(M*L)?$\<close> for character classes with \<open>L\<close> part of \<open>M\<close>.\<close>

definition bounded_by :: "(char \<Rightarrow> bool) \<Rightarrow> (char \<Rightarrow> bool) \<Rightarrow> (char \<Rightarrow> bool) \<Rightarrow> string \<Rightarrow> bool" where
  "bounded_by first mid final s \<longleftrightarrow>
     (case s of [] \<Rightarrow> False
      | c # cs \<Rightarrow> first c \<and> (cs = [] \<or> list_all mid cs \<and> final (last cs)))"

text \<open>\<open>^[a-z0-9]([-a-z0-9]*[a-z0-9])?$\<close>\<close>

definition id_pattern :: "string \<Rightarrow> bool" where
  "id_pattern = bounded_by (\<lambda>c. is_lower c \<or> is_digit c)
     (\<lambda>c. c = CHR ''-'' \<or> is_lower c \<or> is_digit c) (\<lambda>c. is_lower c \<or> is_digit c)"

text \<open>\<open>^[A-Za-z]([A-Za-z0-9_,:]*[A-Za-z0-9_])?$\<close>\<close>

definition reason_pattern :: "string \<Rightarrow> bool" where
  "reason_pattern = bounded_by (\<lambda>c. is_upper c \<or> is_lower c)
     (\<lambda>c. is_upper c \<or> is_lower c \<or> is_digit c \<or> c \<in> set ''_,:'')
     (\<lambda>c. is_upper c \<or> is_lower c \<or> is_digit c \<or> c = CHR ''_'')"

text \<open>\<open>([A-Za-z0-9][-A-Za-z0-9_.]*)?[A-Za-z0-9]\<close>, the part of a condition type after the
  optional DNS prefix.\<close>

definition type_name_pattern :: "string \<Rightarrow> bool" where
  "type_name_pattern = bounded_by (\<lambda>c. is_upper c \<or> is_lower c \<or> is_digit c)
     (\<lambda>c. is_upper c \<or> is_lower c \<or> is_digit c \<or> c \<in> set ''-_.'')
     (\<lambda>c. is_upper c \<or> is_lower c \<or> is_digit c)"

fun split_dots :: "string \<Rightarrow> string \<Rightarrow> string list" where
  "split_dots acc [] = [acc]"
| "split_dots acc (c # cs) = (if c = CHR ''.'' then acc # split_dots [] cs else split_dots (acc @ [c]) cs)"

definition type_pattern :: "string \<Rightarrow> bool" where
  "type_pattern s =
     (case dropWhile (\<lambda>c. c \<noteq> CHR ''/'') s of
        [] \<Rightarrow> type_name_pattern s
      | _ # name \<Rightarrow> list_all id_pattern (split_dots [] (takeWhile (\<lambda>c. c \<noteq> CHR ''/'') s))
                   \<and> type_name_pattern name)"

section \<open>Conditions\<close>

definition schema_condition :: "condition \<Rightarrow> bool" where
  "schema_condition c \<longleftrightarrow> c_lastTransitionTime c \<noteq> None
     \<and> length_within 0 32768 (c_message c)
     \<and> 0 \<le> sint (c_observedGeneration c)
     \<and> length_within 1 1024 (c_reason c) \<and> reason_pattern (c_reason c)
     \<and> c_status c \<in> {''True'', ''False'', ''Unknown''}
     \<and> length_within 0 316 (c_type c) \<and> type_pattern (c_type c)"

definition schema_conditions :: "condition list \<Rightarrow> bool" where
  "schema_conditions cs \<longleftrightarrow> list_all schema_condition cs \<and> distinct (map c_type cs)"

section \<open>Poll\<close>

definition schema_choice :: "ChoiceQuestion \<Rightarrow> bool" where
  "schema_choice c \<longleftrightarrow> 2 \<le> length (cq_options c) \<and> length (cq_options c) \<le> 20"

definition schema_freeText :: "FreeTextQuestion \<Rightarrow> bool" where
  "schema_freeText f \<longleftrightarrow> 1 \<le> sint (fq_maxResponseLength f) \<and> sint (fq_maxResponseLength f) \<le> 10000"

definition schema_question :: "PollQuestion \<Rightarrow> bool" where
  "schema_question q \<longleftrightarrow> length_within 1 63 (q_id q) \<and> id_pattern (q_id q)
     \<and> length_within 1 500 (q_prompt q) \<and> q_type q \<in> {''Choice'', ''FreeText''}
     \<and> (case q_choice q of None \<Rightarrow> True | Some c \<Rightarrow> schema_choice c)
     \<and> (case q_freeText q of None \<Rightarrow> True | Some f \<Rightarrow> schema_freeText f)"

definition schema_poll_spec :: "PollSpec \<Rightarrow> bool" where
  "schema_poll_spec sp \<longleftrightarrow> length_within 1 200 (ps_title sp)
     \<and> 1 \<le> length (ps_questions sp) \<and> length (ps_questions sp) \<le> 50
     \<and> distinct (map q_id (ps_questions sp)) \<and> list_all schema_question (ps_questions sp)"

definition schema_option_result :: "OptionResult \<Rightarrow> bool" where
  "schema_option_result o' \<longleftrightarrow> 0 \<le> sint (opt_votes o')"

definition schema_result :: "QuestionResult \<Rightarrow> bool" where
  "schema_result r \<longleftrightarrow> list_all schema_option_result (qr_options r)
     \<and> distinct (map opt_option (qr_options r)) \<and> 0 \<le> sint (qr_responses r)"

text \<open>An empty phase is left out of the object and not checked.\<close>

definition schema_poll_status :: "PollStatus \<Rightarrow> bool" where
  "schema_poll_status st \<longleftrightarrow> schema_conditions (st_conditions st)
     \<and> st_phase st \<in> {'''', ''Pending'', ''Open'', ''Closed''}
     \<and> list_all schema_result (st_results st) \<and> distinct (map qr_questionID (st_results st))
     \<and> 0 \<le> sint (st_totalResponses st)"

section \<open>PollResponse\<close>

definition schema_answer :: "PollAnswer \<Rightarrow> bool" where
  "schema_answer a \<longleftrightarrow> length_within 1 63 (a_questionID a)
     \<and> length (a_selectedOptions a) \<le> 20 \<and> length_within 0 10000 (a_text a)"

definition schema_reference :: "PollReference \<Rightarrow> bool" where
  "schema_reference r \<longleftrightarrow> length_within 1 253 (ref_name r)"

definition schema_response_spec :: "PollResponseSpec \<Rightarrow> bool" where
  "schema_response_spec sp \<longleftrightarrow> schema_reference (rs_pollRef sp)
     \<and> length_within 0 253 (rs_respondent sp)
     \<and> 1 \<le> length (rs_answers sp) \<and> length (rs_answers sp) \<le> 50
     \<and> distinct (map a_questionID (rs_answers sp)) \<and> list_all schema_answer (rs_answers sp)"

definition schema_response_status :: "PollResponseStatus \<Rightarrow> bool" where
  "schema_response_status st \<longleftrightarrow> schema_conditions (rst_conditions st)
     \<and> rst_phase st \<in> {'''', ''Pending'', ''Accepted'', ''Rejected''}"

lemmas schema_defs = schema_condition_def schema_conditions_def schema_choice_def schema_freeText_def
  schema_question_def schema_poll_spec_def schema_option_result_def schema_result_def
  schema_poll_status_def schema_answer_def schema_reference_def schema_response_spec_def
  schema_response_status_def

section \<open>Counting code points\<close>

lemma rune_count_le_length: "rune_count s \<le> length s"
proof (induction s rule: rune_count.induct)
  case (2 c cs)
  then show ?case using le_trans by fastforce
qed simp

lemma decode_rune_ascii: "b < 128 \<Longrightarrow> decode_rune (b # bs) = (b, 1)"
  by (simp add: decode_rune_def)

lemma rune_count_ascii: "\<forall>c\<in>set s. byte_of c < 128 \<Longrightarrow> rune_count s = length s"
  by (induction s) (simp_all add: decode_rune_ascii)

section \<open>Conditions the controllers write\<close>

definition known_reasons :: "string list" where
  "known_reasons = [reasonAccepted, reasonPollNotFound, reasonPollClosed, reasonUnknownQuestion,
     reasonWrongAnswerType, reasonUnknownOption, reasonEmptyAnswer, reasonTooManyChoices,
     reasonTextTooLong, reasonInvalidQuestion]"

lemma schema_condition_core:
  assumes "cond_core x = cond_core y" and "c_lastTransitionTime x \<noteq> None"
    and "schema_condition (y\<lparr>c_lastTransitionTime := Some u\<rparr>)"
  shows "schema_condition x"
  using assms by (simp add: schema_condition_def cond_core_eq_iff)

text \<open>Lengths of literals: the strings are ASCII, so a character is a byte.\<close>

lemma literal_within:
  "list_all (\<lambda>c. byte_of c < 128) s \<Longrightarrow> lo \<le> length s \<Longrightarrow> length s \<le> hi \<Longrightarrow> length_within lo hi s"
  by (simp add: length_within_def rune_count_ascii list_all_iff)

lemma byte_of_Char [simp]: "byte_of (Char b0 b1 b2 b3 b4 b5 b6 b7)
    = of_bool b0 + 2 * of_bool b1 + 4 * of_bool b2 + 8 * of_bool b3 + 16 * of_bool b4
      + 32 * of_bool b5 + 64 * of_bool b6 + 128 * of_bool b7"
  by (simp add: byte_of_def of_char_def)

lemma known_reasons_schema:
  "list_all (length_within 1 1024) known_reasons"
  unfolding known_reasons_def reason_defs list.pred_inject
  by (intro conjI literal_within) simp_all

lemma known_reasons_pattern: "list_all reason_pattern known_reasons"
  by code_simp

lemma ready_texts:
  "length_within 0 32768 ''Poll is accepting responses''"
  "length_within 0 32768 ''Poll is no longer accepting responses''"
  "length_within 0 32768 ''Poll has not yet been opened''"
  by (rule literal_within; simp)+

lemma ready_reasons:
  "length_within 1 1024 ''Open''" "length_within 1 1024 ''Closed''" "length_within 1 1024 ''Pending''"
  by (rule literal_within; simp)+

lemma ready_patterns:
  "reason_pattern ''Open''" "reason_pattern ''Closed''" "reason_pattern ''Pending''"
  "type_pattern pollReadyCondition"
  by code_simp+

lemma ready_type: "length_within 0 316 pollReadyCondition"
  unfolding pollReadyCondition_def by (rule literal_within; simp)

lemma ready_condition_schema:
  assumes "0 \<le> sint gen"
  shows "schema_condition (readyCondition phase gen t)"
  using assms ready_type ready_patterns ready_texts ready_reasons
  by (simp add: schema_condition_def readyCondition_def Let_def condition_status_defs)

lemma verdict_types_schema:
  "length_within 0 316 pollResponseValidatedCondition" "length_within 0 316 pollResponseCountedCondition"
  unfolding pollResponseValidatedCondition_def pollResponseCountedCondition_def
  by (rule literal_within; simp)+

lemma verdict_patterns:
  "type_pattern pollResponseValidatedCondition" "type_pattern pollResponseCountedCondition"
  by code_simp+

lemma verdict_condition_texts:
  "length_within 0 32768 ''Response passed validation''"
  "length_within 0 32768 ''Response is included in Poll results''"
  "length_within 0 32768 ''Rejected responses are not counted''"
  by (rule literal_within; simp)+

lemma known_reason:
  "reason \<in> set known_reasons \<Longrightarrow> length_within 1 1024 reason \<and> reason_pattern reason"
  using known_reasons_schema known_reasons_pattern unfolding list_all_iff by blast

lemma verdict_condition_schema:
  assumes "0 \<le> sint gen" and "reason \<in> set known_reasons" and "s \<in> {ConditionTrue, ConditionFalse}"
  shows "schema_condition (validatedCondition s reason m gen\<lparr>c_lastTransitionTime := Some t\<rparr>)
      \<longleftrightarrow> length_within 0 32768 m"
    and "schema_condition (countedCondition s reason m gen\<lparr>c_lastTransitionTime := Some t\<rparr>)
      \<longleftrightarrow> length_within 0 32768 m"
  using assms known_reason[OF assms(2)] verdict_types_schema verdict_patterns
  by (auto simp: schema_condition_def validatedCondition_def countedCondition_def condition_status_defs)

context status_condition_setter
begin

lemma sets_schema:
  assumes "schema_conditions cs" and "schema_condition (c\<lparr>c_lastTransitionTime := Some u\<rparr>)"
  shows "schema_conditions (ssc t c cs)"
proof -
  have cs: "distinct (map c_type cs)" "\<forall>x\<in>set cs. schema_condition x"
    using assms(1) by (simp_all add: schema_conditions_def list_all_iff)
  have "\<forall>x\<in>set (ssc t c cs). schema_condition x"
  proof (rule sets_all[OF cs])
    show "c_lastTransitionTime x \<noteq> None" if "schema_condition x" for x
      using that by (simp add: schema_condition_def)
    show "schema_condition x" if "cond_core x = cond_core c" "c_lastTransitionTime x \<noteq> None" for x
      by (rule schema_condition_core[OF that assms(2)])
  qed
  then show ?thesis
    using sets_distinct[OF cs(1)] by (simp add: schema_conditions_def list_all_iff)
qed

lemma accepted_schema:
  assumes "schema_conditions (rst_conditions (r_status resp))" and "0 \<le> sint (m_generation (r_meta resp))"
  shows "schema_response_status (acceptedStatus ssc resp g now t1 t2)"
proof -
  have "reasonAccepted \<in> set known_reasons" by (simp add: known_reasons_def)
  note ok = verdict_condition_schema[OF assms(2) this, of ConditionTrue]
  show ?thesis
    using ok verdict_condition_texts
    by (simp add: schema_response_status_def verdict_fields phase_defs sets_schema assms(1))
qed

text \<open>A rejection can be stored exactly when its message fits.\<close>

lemma rejected_schema_iff:
  assumes "schema_conditions (rst_conditions (r_status resp))" and "0 \<le> sint (m_generation (r_meta resp))"
    and "reason \<in> set known_reasons"
  shows "schema_response_status (rejectedStatus ssc resp g reason message t1 t2)
    \<longleftrightarrow> rune_count message \<le> 32768"
proof -
  let ?v = "validatedCondition ConditionFalse reason message (m_generation (r_meta resp))"
  let ?c = "countedCondition ConditionFalse reason ''Rejected responses are not counted''
    (m_generation (r_meta resp))"
  let ?cs = "ssc t2 ?c (ssc t1 ?v (rst_conditions (r_status resp)))"
  note ok = verdict_condition_schema[OF assms(2,3), of ConditionFalse]
  have "schema_conditions ?cs" if "rune_count message \<le> 32768"
    using ok verdict_condition_texts(3) that
    by (intro sets_schema[OF sets_schema[OF assms(1)]]) (simp_all add: length_within_def)
  moreover have "rune_count message \<le> 32768" if "schema_conditions ?cs"
  proof -
    have "map_option cond_core (find_condition pollResponseValidatedCondition ?cs) = Some ?v"
      by (simp add: sets_find)
    then obtain x where x: "x \<in> set ?cs" "cond_core x = ?v"
      using find_condition_SomeD by blast
    then have "schema_condition x"
      using that by (simp add: schema_conditions_def list_all_iff)
    moreover have "c_message x = message"
      using cond_core_simps(5)[of x] unfolding x(2) by (simp add: validatedCondition_def)
    ultimately show ?thesis by (simp add: schema_condition_def length_within_def)
  qed
  ultimately show ?thesis
    by (auto simp: schema_response_status_def verdict_fields phase_defs)
qed

end

section \<open>Results\<close>

lemma response_bounds:
  assumes "schema_response_spec (r_spec r)"
  shows "length (rs_answers (r_spec r)) \<le> 50"
    and "a \<in> set (rs_answers (r_spec r)) \<Longrightarrow> length (a_selectedOptions a) \<le> 20"
  using assms by (auto simp: schema_response_spec_def schema_answer_def list_all_iff)

lemma counted_answers_bound:
  assumes "\<forall>r\<in>set rs. schema_response_spec (r_spec r)"
  shows "length (countedAnswers poll rs) \<le> 50 * length rs"
  using assms
proof (induction rs)
  case (Cons r rs)
  then show ?case using response_bounds(1)[of r] by (simp add: countedAnswers_def)
qed (simp add: countedAnswers_def)

lemma selections_bound:
  assumes "\<forall>a\<in>set as. length (a_selectedOptions a) \<le> 20"
  shows "length (selectionsFor qid as) \<le> 20 * length as"
  using assms by (induction as) (auto simp: selectionsFor_def)

lemma results_schema:
  assumes wf: "wf_questions (ps_questions (p_spec poll))"
    and small: "1000 * length rs < 2 ^ 31" and ok: "\<forall>r\<in>set rs. schema_response_spec (r_spec r)"
  shows "list_all schema_result (fst (aggregateResults poll rs))
    \<and> distinct (map qr_questionID (fst (aggregateResults poll rs)))
    \<and> 0 \<le> sint (snd (aggregateResults poll rs))"
proof (intro conjI)
  let ?as = "countedAnswers poll rs"
  have sel: "\<forall>a\<in>set ?as. length (a_selectedOptions a) \<le> 20"
    using ok response_bounds(2) by (auto simp: countedAnswers_def)
  have answers: "length ?as \<le> 50 * length rs" by (rule counted_answers_bound[OF ok])
  have "schema_result (specResult ?as q)" if "q \<in> set (ps_questions (p_spec poll))" for q
  proof -
    have votes: "count_list (selectionsFor (q_id q) ?as) opt < 2 ^ 31" for opt
    proof -
      have "count_list (selectionsFor (q_id q) ?as) opt \<le> length (selectionsFor (q_id q) ?as)"
        by (rule count_le_length)
      also have "\<dots> \<le> 20 * length ?as" by (rule selections_bound[OF sel])
      finally show ?thesis using answers small by linarith
    qed
    have responses: "length (answersTo (q_id q) ?as) < 2 ^ 31"
      using answers small length_filter_le[of "\<lambda>a. a_questionID a = q_id q" ?as] unfolding answersTo_def
      by linarith
    show ?thesis
      using that wf talliedOptions_distinct[of q] votes responses
      by (auto simp: schema_result_def schema_option_result_def specResult_def sint_of_nat_int32
          list_all_iff comp_def wf_questions_def)
  qed
  then show "list_all schema_result (fst (aggregateResults poll rs))"
    by (simp add: aggregateResults_eq[OF wf] list_all_iff)
  show "distinct (map qr_questionID (fst (aggregateResults poll rs)))"
    using wf by (simp add: aggregateResults_eq[OF wf] comp_def specResult_def wf_questions_def)
  have "length (filter (counted poll) rs) < 2 ^ 31"
    using small length_filter_le[of "counted poll" rs] by linarith
  then show "0 \<le> sint (snd (aggregateResults poll rs))"
    by (simp add: aggregateResults_total sint_of_nat_int32)
qed

context status_condition_setter
begin

lemma desired_schema:
  assumes "wf_questions (ps_questions (p_spec poll))" and "1000 * length rs < 2 ^ 31"
    and "\<forall>r\<in>set rs. schema_response_spec (r_spec r)"
    and conds: "schema_conditions (st_conditions (p_status poll))"
    and gen: "0 \<le> sint (m_generation (p_meta poll))"
  shows "schema_poll_status (desiredPollStatus ssc poll rs now t)"
proof -
  let ?ready = "readyCondition (fst (computePhase poll (p_status poll) now)) (m_generation (p_meta poll)) t"
  have "?ready\<lparr>c_lastTransitionTime := Some t\<rparr> = ?ready"
    by (simp add: readyCondition_def Let_def)
  then have "schema_conditions (ssc t ?ready (st_conditions (p_status poll)))"
    using ready_condition_schema[OF gen] by (intro sets_schema[OF conds, where u = t]) simp
  then show ?thesis
    using results_schema[OF assms(1-3)]
    by (simp add: schema_poll_status_def desiredPollStatus_fields computePhase_phase phase_defs)
qed

end

section \<open>Quoted text\<close>

text \<open>Printable ASCII that \<open>%q\<close> leaves alone.\<close>

definition plain_text :: "string \<Rightarrow> bool" where
  "plain_text s \<longleftrightarrow> list_all (\<lambda>c. 32 \<le> byte_of c \<and> byte_of c < 127 \<and> byte_of c \<noteq> 34 \<and> byte_of c \<noteq> 92) s"

lemma quote_plain: "plain_text s \<Longrightarrow> quote_body pr s = s"
  by (induction s)
    (auto simp: plain_text_def decode_rune_ascii escape_rune_def is_print_def)

lemma goQuote_plain:
  assumes "plain_text s"
  shows "length (goQuote pr s) = length s + 2" and "\<forall>c\<in>set (goQuote pr s). byte_of c < 128"
proof -
  have "byte_of (char_of (34 :: nat)) < 128" by (simp add: byte_of_def)
  then show "length (goQuote pr s) = length s + 2" "\<forall>c\<in>set (goQuote pr s). byte_of c < 128"
    using assms by (auto simp: goQuote_def quote_plain plain_text_def list_all_iff)
qed

lemma id_pattern_plain:
  assumes "id_pattern s"
  shows "plain_text s"
proof -
  have ok: "32 \<le> byte_of c \<and> byte_of c < 127 \<and> byte_of c \<noteq> 34 \<and> byte_of c \<noteq> 92"
    if "c = CHR ''-'' \<or> is_lower c \<or> is_digit c" for c
    using that by (auto simp: is_lower_def is_digit_def)
  have "list_all (\<lambda>c. c = CHR ''-'' \<or> is_lower c \<or> is_digit c) s"
    using assms unfolding id_pattern_def bounded_by_def by (cases s) auto
  then show ?thesis unfolding plain_text_def by (rule list.pred_mono_strong) (rule ok)
qed

text \<open>The message about an option that is not offered quotes all of it.\<close>

lemma unknown_option_message:
  assumes "id_pattern qid" and "plain_text sel"
  shows "length sel \<le> rune_count (''question '' @ goQuote pr qid @ '': option '' @ goQuote pr sel
    @ '' is not one of the configured choices'')"
proof -
  let ?m = "''question '' @ goQuote pr qid @ '': option '' @ goQuote pr sel
    @ '' is not one of the configured choices''"
  have "\<forall>c\<in>set ?m. byte_of c < 128"
    using goQuote_plain(2)[OF id_pattern_plain[OF assms(1)], of pr] goQuote_plain(2)[OF assms(2), of pr]
    by auto
  then have "rune_count ?m = length ?m" by (rule rune_count_ascii)
  then show ?thesis
    using goQuote_plain(1)[OF assms(2), of pr] by simp
qed

section \<open>A status that differs from every storable one is written each time\<close>

lemma responseStatusEqual_schema:
  assumes "responseStatusEqual st st'" and "schema_response_status st"
    and "distinct (map c_type (rst_conditions st'))"
    and "\<forall>x\<in>set (rst_conditions st'). c_lastTransitionTime x \<noteq> None"
  shows "schema_response_status st'"
proof -
  have types: "distinct (map c_type (rst_conditions st))"
    using assms(2) by (simp add: schema_response_status_def schema_conditions_def)
  have cores: "set (map cond_core (rst_conditions st)) = set (map cond_core (rst_conditions st'))"
    using responseStatusEqual_fields(4)[OF assms(1)] conditionsEqual_iff_set[OF types assms(3)] by simp
  have "schema_condition x" if x: "x \<in> set (rst_conditions st')" for x
  proof -
    have "cond_core x \<in> set (map cond_core (rst_conditions st))" using x unfolding cores by simp
    then obtain y where y: "y \<in> set (rst_conditions st)" "cond_core x = cond_core y" by auto
    then have "schema_condition y"
      using assms(2) by (simp add: schema_response_status_def schema_conditions_def list_all_iff)
    moreover from this obtain u where "c_lastTransitionTime y = Some u"
      by (auto simp: schema_condition_def)
    then have "y\<lparr>c_lastTransitionTime := Some u\<rparr> = y" by simp
    ultimately have "schema_condition (y\<lparr>c_lastTransitionTime := Some u\<rparr>)" by simp
    then show ?thesis
      using schema_condition_core[OF y(2)] assms(4) x by blast
  qed
  then show ?thesis
    using assms(2,3) responseStatusEqual_fields(1)[OF assms(1)]
    by (simp add: schema_response_status_def schema_conditions_def list_all_iff)
qed

end
