(* ===== verification/Ui_Roundtrip.thy ===== *)
theory Ui_Roundtrip
  imports Ui_Views Crd_Schema
begin

text \<open>
  The two round trips of the UI: a ballot filled in on the rendered form (\<open>templates/poll.html\<close>)
  comes back from \<open>buildAnswers\<close> as it was, and the reply to a vote leads the browser back to the
  page of the Poll with the message of the vote.
\<close>

section \<open>Submitting the form\<close>

text \<open>A browser sends a line break of a text area as carriage return and line feed.\<close>

fun browser_newlines :: "string \<Rightarrow> string" where
  "browser_newlines [] = []"
| "browser_newlines (c # cs) =
     (if c = CHR 0x0A then CHR 0x0D # CHR 0x0A # browser_newlines cs else c # browser_newlines cs)"

text \<open>
  The controls of a question with the answer filled in: the checked boxes or the radio button,
  in the order of the page and absent when none is checked, or the text area.
\<close>

definition questionFields :: "PollQuestion \<Rightarrow> PollAnswer option \<Rightarrow> (string \<times> string list) list" where
  "questionFields q a =
     (if q_type q = QuestionTypeChoice
      then let vs = filter (\<lambda>opt. case a of None \<Rightarrow> False | Some a \<Rightarrow> opt \<in> set (a_selectedOptions a))
                      (question_options q)
           in if vs = [] then [] else [(''q.'' @ q_id q, vs)]
      else [(''q.'' @ q_id q, [browser_newlines (case a of None \<Rightarrow> '''' | Some a \<Rightarrow> a_text a)])])"

definition submittedForm :: "Poll \<Rightarrow> string \<Rightarrow> (string \<rightharpoonup> PollAnswer) \<Rightarrow> (string \<rightharpoonup> string list)" where
  "submittedForm poll respondent ballot =
     map_of ((''respondent'', [respondent])
       # concat (map (\<lambda>q. questionFields q (ballot (q_id q))) (ps_questions (p_spec poll))))"

text \<open>
  A ballot that the form can express: options in page order, trimmed single-line texts. (A
  group of radio buttons has at most one option; the round trip does not depend on it.)
\<close>

definition ballot_ok :: "PollQuestion \<Rightarrow> PollAnswer option \<Rightarrow> bool" where
  "ballot_ok q a \<longleftrightarrow> (case a of None \<Rightarrow> True
     | Some a \<Rightarrow> a_questionID a = q_id q
         \<and> (if q_type q = QuestionTypeChoice
            then subseq (a_selectedOptions a) (question_options q) \<and> a_selectedOptions a \<noteq> []
              \<and> a_text a = ''''
            else a_selectedOptions a = [] \<and> a_text a \<noteq> '''' \<and> TrimSpace (a_text a) = a_text a
              \<and> CHR 0x0A \<notin> set (a_text a) \<and> CHR 0x0D \<notin> set (a_text a)))"

lemma browser_newlines_id: "CHR 0x0A \<notin> set t \<Longrightarrow> browser_newlines t = t"
  by (induction t) auto

text \<open>Each line break of a text costs one more byte than the text area counted.\<close>

lemma length_browser_newlines: "length (browser_newlines t) = length t + count_list t CHR 0x0A"
  by (induction t) auto

lemma filter_subseq:
  "subseq xs ys \<Longrightarrow> distinct ys \<Longrightarrow> filter (\<lambda>y. y \<in> set xs) ys = xs"
proof (induction ys arbitrary: xs)
  case Nil
  then show ?case by (cases xs) auto
next
  case (Cons y ys)
  show ?case
  proof (cases "xs \<noteq> [] \<and> hd xs = y")
    case True
    then obtain zs where zs: "xs = y # zs" by (cases xs) auto
    then have sub: "subseq zs ys" using Cons.prems(1) by simp
    have "filter (\<lambda>x. x = y \<or> x \<in> set zs) ys = filter (\<lambda>x. x \<in> set zs) ys"
      using Cons.prems(2) by (intro filter_cong) auto
    then show ?thesis using Cons.IH[OF sub] Cons.prems(2) by (simp add: zs)
  next
    case False
    then have sub: "subseq xs ys" using Cons.prems(1) by (cases xs) auto
    then have "y \<notin> set xs" using Cons.prems(2) by (auto dest: list_emb_set)
    then show ?thesis using Cons.IH[OF sub] Cons.prems(2) by simp
  qed
qed

lemma questionFields_key: "(k, vs) \<in> set (questionFields q a) \<Longrightarrow> k = ''q.'' @ q_id q"
  by (auto simp: questionFields_def Let_def split: if_splits)

lemma map_of_concat_fields:
  assumes "distinct (map q_id qs)" and "q \<in> set qs"
  shows "map_of (concat (map (\<lambda>q. questionFields q (b (q_id q))) qs)) (''q.'' @ q_id q)
    = map_of (questionFields q (b (q_id q))) (''q.'' @ q_id q)"
  using assms
proof (induction qs)
  case Nil
  then show ?case by simp
next
  case (Cons p qs)
  have other: "map_of (questionFields p' a) (''q.'' @ q_id q) = None" if "q_id p' \<noteq> q_id q" for p' a
    using questionFields_key[of "''q.'' @ q_id q" _ p' a] that by (auto simp: map_of_eq_None_iff)
  show ?case
  proof (cases "p = q")
    case True
    have "map_of (concat (map (\<lambda>q. questionFields q (b (q_id q))) qs)) (''q.'' @ q_id q) = None"
      using Cons.prems(1) True by (auto simp: map_of_eq_None_iff dest: questionFields_key)
    then show ?thesis by (simp add: True map_add_def split: option.split)
  next
    case False
    then have "q \<in> set qs" "q_id p \<noteq> q_id q" using Cons.prems by auto
    then show ?thesis
      using Cons.IH Cons.prems(1) other[of p] by (simp add: map_add_def split: option.split)
  qed
qed

lemma submitted_value:
  assumes "distinct (map q_id (ps_questions (p_spec poll)))" and "q \<in> set (ps_questions (p_spec poll))"
  shows "submittedForm poll respondent ballot (''q.'' @ q_id q)
    = map_of (questionFields q (ballot (q_id q))) (''q.'' @ q_id q)"
  using map_of_concat_fields[OF assms, of ballot] by (simp add: submittedForm_def)

lemma answerFor_submitted:
  assumes wf: "wf_question q" and trimmed: "trimmedOptions q" and ok: "ballot_ok q a"
    and form: "form (''q.'' @ q_id q) = map_of (questionFields q a) (''q.'' @ q_id q)"
  shows "answerFor form q = a"
proof (cases "q_type q = QuestionTypeChoice")
  case choice: True
  obtain c where c: "q_choice q = Some c" "distinct (cq_options c)" "'''' \<notin> set (cq_options c)"
    using wf choice by (auto simp: wf_question_def)
  have opts: "question_options q = cq_options c" by (simp add: question_options_def c(1))
  show ?thesis
  proof (cases a)
    case None
    then have "form_values form (''q.'' @ q_id q) = []"
      using form choice by (simp add: form_values_def questionFields_def)
    then show ?thesis using choice by (simp add: answerFor_def None)
  next
    case (Some b)
    have b: "a_questionID b = q_id q" "subseq (a_selectedOptions b) (cq_options c)"
      "a_selectedOptions b \<noteq> []" "a_text b = ''''"
      using ok choice by (simp_all add: ballot_ok_def Some opts)
    have sel: "filter (\<lambda>opt. opt \<in> set (a_selectedOptions b)) (cq_options c) = a_selectedOptions b"
      by (rule filter_subseq[OF b(2) c(2)])
    have vals: "form_values form (''q.'' @ q_id q) = a_selectedOptions b"
      using form choice b(3) by (simp add: form_values_def questionFields_def Some opts sel Let_def)
    have "set (a_selectedOptions b) \<subseteq> set (cq_options c)"
      by (rule subsetI) (erule list_emb_set[OF b(2)], simp)
    then have "trimmedSelections (a_selectedOptions b) = a_selectedOptions b"
      using trimmed c(3) by (intro trimmedSelections_id) (auto simp: trimmedOptions_def opts list_all_iff)
    then show ?thesis
      unfolding answerFor_def Let_def vals using choice b by (simp add: Some)
  qed
next
  case False
  then have free: "q_type q = QuestionTypeFreeText" using wf by (auto simp: wf_question_def)
  have vals: "form_values form (''q.'' @ q_id q)
      = [browser_newlines (case a of None \<Rightarrow> '''' | Some a \<Rightarrow> a_text a)]"
    using form free by (simp add: form_values_def questionFields_def)
  show ?thesis
  proof (cases a)
    case None
    then show ?thesis unfolding answerFor_def Let_def vals using free by simp
  next
    case (Some b)
    have b: "a_questionID b = q_id q" "a_selectedOptions b = []" "a_text b \<noteq> ''''"
      "TrimSpace (a_text b) = a_text b" "CHR 0x0A \<notin> set (a_text b)"
      using ok free by (simp_all add: ballot_ok_def Some)
    then show ?thesis
      unfolding answerFor_def Let_def vals using free by (simp add: Some browser_newlines_id)
  qed
qed

lemma map_filter_cong:
  "(\<And>x. x \<in> set xs \<Longrightarrow> f x = g x) \<Longrightarrow> List.map_filter f xs = List.map_filter g xs"
  by (induction xs) (auto simp: List.map_filter_simps split: option.split)

lemma collect_submitted:
  assumes ids: "distinct (map q_id (ps_questions (p_spec poll)))"
    and wf: "list_all wf_question (ps_questions (p_spec poll))"
    and trimmed: "list_all trimmedOptions (ps_questions (p_spec poll))"
    and ok: "list_all (\<lambda>q. ballot_ok q (ballot (q_id q))) (ps_questions (p_spec poll))"
  shows "collectAnswers (submittedForm poll respondent ballot) (ps_questions (p_spec poll))
    = List.map_filter (\<lambda>q. ballot (q_id q)) (ps_questions (p_spec poll))"
proof -
  have "answerFor (submittedForm poll respondent ballot) q = ballot (q_id q)"
    if "q \<in> set (ps_questions (p_spec poll))" for q
    using that wf trimmed ok submitted_value[OF ids that]
    by (intro answerFor_submitted) (auto simp: list_all_iff)
  then show ?thesis unfolding collectAnswers_eq by (rule map_filter_cong)
qed

section \<open>Following the redirect\<close>

fun split_on :: "char \<Rightarrow> string \<Rightarrow> string list" where
  "split_on d [] = [[]]"
| "split_on d (c # cs) =
     (if c = d then [] # split_on d cs
      else case split_on d cs of [] \<Rightarrow> [[c]] | s # ss \<Rightarrow> (c # s) # ss)"

text \<open>The segments of an absolute path.\<close>

definition path_segments :: "string \<Rightarrow> string list" where
  "path_segments url = tl (split_on CHR ''/'' url)"

text \<open>Names of Kubernetes objects: safe in a URL, and not dot segments.\<close>

definition url_segment :: "string \<Rightarrow> bool" where
  "url_segment s \<longleftrightarrow> s \<noteq> '''' \<and> s \<noteq> ''.'' \<and> s \<noteq> ''..''
     \<and> list_all (\<lambda>c. is_lower c \<or> is_digit c \<or> c = CHR ''-'' \<or> c = CHR ''.'') s"

lemma split_on_plain: "d \<notin> set s \<Longrightarrow> split_on d s = [s]"
  by (induction s) auto

lemma split_on_append: "d \<notin> set s \<Longrightarrow> split_on d (s @ d # t) = s # split_on d t"
  by (induction s) auto

lemma url_segment_no_slash: "url_segment s \<Longrightarrow> CHR ''/'' \<notin> set s"
  by (auto simp: url_segment_def list_all_iff is_lower_def is_digit_def)

lemma poll_path_segments:
  assumes "url_segment ns" and "url_segment name"
  shows "path_segments (''/polls/'' @ ns @ ''/'' @ name) = [''polls'', ns, name]"
proof -
  have slash: "CHR ''/'' \<notin> set ns" "CHR ''/'' \<notin> set name" "CHR ''/'' \<notin> set ''polls''"
    using assms url_segment_no_slash by auto
  have "split_on CHR ''/'' ('''' @ CHR ''/'' # ''polls'' @ CHR ''/'' # ns @ CHR ''/'' # name)
      = ['''', ''polls'', ns, name]"
    using slash by (simp only: split_on_append split_on_plain list.set empty_iff simp_thms)
  then show ?thesis by (simp add: path_segments_def)
qed

text \<open>What a browser does with a reply: follow a redirect, sending back the cookies.\<close>

definition follow_redirect :: "page http_effect list \<Rightarrow> http_request option" where
  "follow_redirect effects =
     (if effects = [] then None else case last effects of
        Redirect url _ \<Rightarrow> Some \<lparr>rq_method = ''GET'', rq_segments = path_segments url,
          rq_postForm = Inr Map.empty, rq_cookies = cookies_set effects\<rparr>
      | _ \<Rightarrow> None)"

lemma handleVote_effects:
  "fst (handleVote env ns name r s) \<in> {[HttpError ''invalid form'' StatusBadRequest], [HttpNotFound],
      serverError ''get poll''}
   \<or> (\<exists>msg. fst (handleVote env ns name r s) = flashAndRedirect ns name msg)"
  by (simp add: handleVote_def split: sum.split prod.split) blast

lemma follow_flash:
  assumes "url_segment ns" and "url_segment name"
  shows "follow_redirect (flashAndRedirect ns name msg)
    = Some \<lparr>rq_method = ''GET'', rq_segments = [''polls'', ns, name], rq_postForm = Inr Map.empty,
        rq_cookies = cookies_set (flashAndRedirect ns name msg :: page http_effect list)\<rparr>"
  using poll_path_segments[OF assms]
  by (simp add: follow_redirect_def flashAndRedirect_def)

end
