(* ===== verification/Ui_Properties.thy ===== *)
theory Ui_Properties
  imports Ui_Roundtrip Samples
begin

text \<open>
  What the web UI guarantees: the votes it builds fit what the webhook and the reconciler
  expect, only a POST to the vote path writes, and its pages show the Polls in order and the
  reconciled results.
\<close>

section \<open>Votes\<close>

text \<open>A vote cast with the rendered form of an open Poll is admitted by the webhook and
  accepted by the reconciler, provided the Poll was admitted, its ids are unique, and its
  options carry no surrounding white space (which the form handler would strip).\<close>

theorem rendered_vote_is_accepted:
  assumes "admitted (Poll_ValidateCreate pr poll)" and "stored_poll poll"
    and "list_all trimmedOptions (ps_questions (p_spec poll))"
    and "list_all (\<lambda>q. formSends q (form_values form (''q.'' @ q_id q))) (ps_questions (p_spec poll))"
    and "\<not> pollClosed poll now" and "buildAnswers poll form = Inr answers"
  shows "admitted (PollResponse_ValidateCreate (voteResponse ns name form answers))
    \<and> validateResponse pr poll (voteResponse ns name form answers) now = None"
proof -
  have ids: "distinct (map q_id (ps_questions (p_spec poll)))"
    using assms(2) by (simp add: stored_poll_def)
  have wf: "list_all wf_question (ps_questions (p_spec poll))"
    using assms(1) by (simp add: poll_validator.create_admits validatePollSpec_Nil_iff)
  have valid: "validateResponse pr poll (voteResponse ns name form answers) now = None"
    by (rule rendered_vote_valid[OF ids wf assms(3-6)])
  then have "list_all (\<lambda>a. distinct (a_selectedOptions a)) answers"
    by (auto simp: validateResponse_None_iff[OF ids] voteResponse_def answer_ok_def list_all_iff)
  then have "list_all wf_answer answers"
    using buildAnswers_InrD[OF assms(6)] collectAnswers_wf_iff by metis
  with valid show ?thesis
    by (simp add: response_validator.create_admits validatePollResponseSpec_Nil_iff voteResponse_def)
qed

definition sampleForm :: "string \<rightharpoonup> string list" where
  "sampleForm = [''q.q1'' \<mapsto> [''tea''], ''q.q2'' \<mapsto> [''mon'', ''tue''], ''q.q3'' \<mapsto> [''soup'']]"

lemma sample_trim:
  "TrimSpace ''tea'' = ''tea''" "TrimSpace ''coffee'' = ''coffee''" "TrimSpace ''mon'' = ''mon''"
  "TrimSpace ''tue'' = ''tue''" "TrimSpace ''soup'' = ''soup''"
  by (simp_all add: TrimSpace_visible visible_byte_def byte_of_def)

lemma sample_answers: "buildAnswers samplePoll sampleForm = Inr goodAnswers"
  by (simp add: buildAnswers_def sample_defs sampleForm_def answerFor_def form_values_def
      sample_trim question_type_defs)

lemma sample_trimmed: "list_all trimmedOptions (ps_questions (p_spec samplePoll))"
  by (simp add: sample_defs trimmedOptions_def question_options_def sample_trim)

lemma sample_sends: "list_all (\<lambda>q. formSends q (form_values sampleForm (''q.'' @ q_id q)))
    (ps_questions (p_spec samplePoll))"
  by (simp add: sample_defs sampleForm_def formSends_def form_values_def question_options_def
      question_type_defs)

theorem rendered_vote_is_accepted_witness:
  "validateResponse (\<lambda>_. False) samplePoll (voteResponse ''ns'' ''lunch'' sampleForm goodAnswers) (utc 5) = None"
proof -
  have "\<not> pollClosed samplePoll (utc 5)" by simp
  from rendered_vote_is_accepted[OF sample_admitted sample_wf(4) sample_trimmed sample_sends this sample_answers]
  show ?thesis by blast
qed

text \<open>The answers built from a form follow the order of the questions, at most one per
  question; each is either a selection of trimmed, non-empty options or a trimmed, non-empty
  text, as the type of its question demands.\<close>

theorem built_answers_fit_questions:
  assumes "buildAnswers poll form = Inr answers"
  shows "subseq (map a_questionID answers) (map q_id (ps_questions (p_spec poll))) \<and> answers \<noteq> []
    \<and> (\<forall>a \<in> set answers. \<exists>q \<in> set (ps_questions (p_spec poll)). q_id q = a_questionID a
        \<and> (q_type q = QuestionTypeChoice \<and> a_text a = '''' \<and> a_selectedOptions a \<noteq> []
             \<and> (\<forall>v \<in> set (a_selectedOptions a). v \<noteq> '''' \<and> TrimSpace v = v)
         \<or> q_type q = QuestionTypeFreeText \<and> a_selectedOptions a = []
             \<and> a_text a \<noteq> '''' \<and> TrimSpace (a_text a) = a_text a))"
proof -
  have answers: "answers = collectAnswers form (ps_questions (p_spec poll))" "answers \<noteq> []"
    using buildAnswers_InrD[OF assms] by blast+
  have "\<exists>q \<in> set (ps_questions (p_spec poll)). q_id q = a_questionID a
      \<and> (q_type q = QuestionTypeChoice \<and> a_text a = '''' \<and> a_selectedOptions a \<noteq> []
           \<and> (\<forall>v \<in> set (a_selectedOptions a). v \<noteq> '''' \<and> TrimSpace v = v)
       \<or> q_type q = QuestionTypeFreeText \<and> a_selectedOptions a = []
           \<and> a_text a \<noteq> '''' \<and> TrimSpace (a_text a) = a_text a)" if "a \<in> set answers" for a
  proof -
    have "a \<in> set (collectAnswers form (ps_questions (p_spec poll)))"
      using that answers(1) by simp
    then obtain q where q: "q \<in> set (ps_questions (p_spec poll))" "answerFor form q = Some a"
      by (auto simp: collectAnswers_mem_iff)
    show ?thesis
      using answerFor_SomeD[OF q(2)] q(1) trimmedSelections_trimmed TrimSpace_idem by metis
  qed
  then show ?thesis
    using answers(2) collectAnswers_ids_subseq[of form "ps_questions (p_spec poll)"]
    by (simp add: answers(1)[symmetric])
qed

theorem built_answers_fit_questions_witness:
  "subseq (map a_questionID goodAnswers) (map q_id (ps_questions (p_spec samplePoll)))"
  using built_answers_fit_questions[OF sample_answers] by blast

text \<open>The webhook can object to a vote from the UI for one reason only, an option selected
  twice for the same question.\<close>

theorem ui_vote_refused_only_for_duplicates:
  assumes "buildAnswers poll form = Inr answers"
  shows "admitted (PollResponse_ValidateCreate (voteResponse ns name form answers))
    \<longleftrightarrow> list_all (\<lambda>a. distinct (a_selectedOptions a)) answers"
proof -
  have "answers = collectAnswers form (ps_questions (p_spec poll))"
    using buildAnswers_InrD[OF assms] by simp
  then show ?thesis
    using collectAnswers_wf_iff
    by (simp add: response_validator.create_admits validatePollResponseSpec_Nil_iff voteResponse_def)
qed

theorem ui_vote_refused_only_for_duplicates_witness:
  "admitted (PollResponse_ValidateCreate (voteResponse ''ns'' ''lunch'' sampleForm goodAnswers))"
  unfolding ui_vote_refused_only_for_duplicates[OF sample_answers] by (simp add: sample_defs)

text \<open>An option with surrounding white space cannot be chosen through the UI at all.\<close>

lemma untrimmed_option_unreachable:
  assumes "buildAnswers poll form = Inr answers" and "TrimSpace opt \<noteq> opt"
    and "a \<in> set answers"
  shows "opt \<notin> set (a_selectedOptions a)"
proof -
  obtain q where "answerFor form q = Some a"
    using assms(3) buildAnswers_InrD[OF assms(1)] by (auto simp: collectAnswers_mem_iff)
  from answerFor_SomeD(2)[OF this] show ?thesis
    using trimmedSelections_trimmed(2) assms(2) by fastforce
qed

section \<open>Handlers\<close>

text \<open>A request that is not a POST makes at most one read: its final state is the one it
  started from, the one after listing Polls, or the one after reading one Poll.\<close>

theorem only_post_writes:
  assumes "rq_method r \<noteq> ''POST''"
  shows "snd (routes env r s) = s \<or> snd (routes env r s) = snd (env_listPolls env s)
    \<or> (\<exists>k. snd (routes env r s) = snd (env_getPoll env k s))"
proof -
  have list: "snd (handleListPolls env s) = snd (env_listPolls env s)"
    by (simp add: handleListPolls_def split: prod.split sum.split)
  have get: "snd (handlePollDetail env ns name r s) = snd (env_getPoll env (NamespacedName ns name) s)"
    for ns name
    by (simp add: handlePollDetail_def split: prod.split sum.split)
  have "routes env r s \<in> insert (handleListPolls env s)
      (range (\<lambda>(ns, name). handlePollDetail env ns name r s) \<union> {(es, s') |es s'. s' = s})"
    using assms by (auto simp: routes_def split: list.splits)
  then show ?thesis
    using list get by auto
qed

definition sampleRequest :: "string \<Rightarrow> string list \<Rightarrow> http_request" where
  "sampleRequest m segs = \<lparr>rq_method = m, rq_segments = segs, rq_postForm = Inr sampleForm, rq_cookies = []\<rparr>"

theorem only_post_writes_witness:
  "snd (routes (sampleEnv 0) (sampleRequest ''GET'' [''polls'', ''ns'', ''lunch'', ''vote'']) sampleStore)
     = sampleStore"
proof -
  have "rq_method (sampleRequest ''GET'' [''polls'', ''ns'', ''lunch'', ''vote'']) \<noteq> ''POST''"
    by (simp add: sampleRequest_def)
  from only_post_writes[OF this, of "sampleEnv 0" sampleStore] show ?thesis
    by (auto simp: sampleEnv_def)
qed

text \<open>The index page lists every Poll once in the order of namespace and name; with distinct
  names that order is the only one, whichever sorting algorithm the library uses.\<close>

theorem index_page_order:
  assumes "distinct (map poll_key polls)" and "mset ys = mset (map listItem polls)"
    and "sorted (map item_key ys)"
  shows "listItems polls = ys"
proof -
  have "distinct (map item_key (map listItem polls))"
    using assms(1) by (simp add: comp_def)
  from items.sort_unique[OF this assms(2,3)] show ?thesis
    by (simp add: listItems_def)
qed

definition namedPoll :: "string \<Rightarrow> Poll" where
  "namedPoll name = samplePoll\<lparr>p_meta := sampleMeta name name\<rparr>"

theorem index_page_order_witness:
  "listItems [namedPoll ''b'', namedPoll ''a''] = map listItem [namedPoll ''a'', namedPoll ''b'']"
  by (rule index_page_order)
    (simp_all add: namedPoll_def poll_key_def sampleMeta_def less_eq_NamespacedName_def)

text \<open>On the detail page of a Poll whose stored results are those of its reconciler, a Choice
  question shows each configured option, in order, with the number of counted answers that
  select it.\<close>

theorem detail_page_shows_tally:
  assumes "wf_questions (ps_questions (p_spec poll))" and "q \<in> set (ps_questions (p_spec poll))"
    and "q_type q = QuestionTypeChoice" and "q_choice q = Some c" and "q_freeText q = None"
    and "st_results (p_status poll) = fst (aggregateResults poll responses)"
  shows "\<exists>v \<in> set (questionViews poll). qv_id v = q_id q
    \<and> qv_allowMultiple v = cq_allowMultipleChoices c
    \<and> qv_options v = map (\<lambda>opt. \<lparr>ov_option = opt, ov_votes =
          of_nat (count_list (selectionsFor (q_id q) (countedAnswers poll responses)) opt)\<rparr>) (cq_options c)"
  by (rule bexI[OF _ choice_view[OF assms]]) simp

theorem detail_page_shows_tally_witness:
  "\<exists>v \<in> set (questionViews (samplePoll\<lparr>p_status := fresh_status\<lparr>st_results :=
        fst (aggregateResults samplePoll sampleResponses)\<rparr>\<rparr>)).
     qv_id v = ''q1'' \<and> qv_options v
       = [\<lparr>ov_option = ''tea'', ov_votes = 1\<rparr>, \<lparr>ov_option = ''coffee'', ov_votes = 0\<rparr>]"
proof -
  let ?p = "samplePoll\<lparr>p_status := fresh_status\<lparr>st_results :=
    fst (aggregateResults samplePoll sampleResponses)\<rparr>\<rparr>"
  let ?q = "hd sampleQuestions"
  have facts: "wf_questions (ps_questions (p_spec ?p))" "?q \<in> set (ps_questions (p_spec ?p))"
    "q_type ?q = QuestionTypeChoice"
    "q_choice ?q = Some \<lparr>cq_options = [''tea'', ''coffee''], cq_allowMultipleChoices = False\<rparr>"
    "q_freeText ?q = None"
    using sample_wf(1) by (simp_all add: samplePoll_def sampleQuestions_def question_type_defs)
  have "st_results (p_status ?p) = fst (aggregateResults ?p sampleResponses)" by simp
  moreover have "countedAnswers ?p sampleResponses = goodAnswers"
    by (simp add: sample_defs code_defs counted_def)
  moreover have "q_id ?q = ''q1''" by (simp add: sampleQuestions_def)
  ultimately show ?thesis
    using detail_page_shows_tally[OF facts, of sampleResponses]
    by (simp add: goodAnswers_def answerChoice_def answerText_def) blast
qed

section \<open>Bars\<close>

text \<open>As long as a hundred times the largest count fits 32 bits, every bar has a width of 0 to
  100 per cent, an option with the most votes fills its bar, and a wider bar never stands for
  fewer votes.\<close>

theorem bar_widths:
  assumes "ov \<in> set ovs" and "ov' \<in> set ovs" and "0 \<le> sint (ov_votes ov)"
    and "sint (ov_votes ov) \<le> sint (ov_votes ov')" and "sint (maxVotes ovs) * 100 < 2 ^ 31"
    and "0 < sint (maxVotes ovs)"
  shows "0 \<le> sint (barWidth (ov_votes ov) (maxVotes ovs))
    \<and> sint (barWidth (ov_votes ov) (maxVotes ovs)) \<le> sint (barWidth (ov_votes ov') (maxVotes ovs))
    \<and> sint (barWidth (ov_votes ov') (maxVotes ovs)) \<le> 100
    \<and> sint (barWidth (maxVotes ovs) (maxVotes ovs)) = 100"
proof -
  let ?m = "sint (maxVotes ovs)"
  have le: "sint (ov_votes ov') \<le> ?m" by (rule maxVotes_ge[OF assms(2)])
  have "sint (barWidth v (maxVotes ovs)) = sint v * 100 div ?m" if "0 \<le> sint v" "sint v \<le> ?m" for v
    using that assms(5,6) by (intro barWidth_value) simp_all
  moreover have "0 \<le> sint (ov_votes ov) * 100 div ?m"
    using assms(3,6) by (simp add: pos_imp_zdiv_nonneg_iff)
  moreover have "sint (ov_votes ov) * 100 div ?m \<le> sint (ov_votes ov') * 100 div ?m"
    using assms(4,6) by (intro zdiv_mono1) simp_all
  moreover have "sint (ov_votes ov') * 100 div ?m \<le> ?m * 100 div ?m"
    using le assms(6) by (intro zdiv_mono1) simp_all
  ultimately show ?thesis
    using assms(3,4,6) le by simp
qed

theorem bar_widths_witness:
  "sint (barWidth (1 :: int32) 3) \<le> sint (barWidth (3 :: int32) 3) \<and> sint (barWidth (3 :: int32) 3) = 100"
  using bar_widths[of "\<lparr>ov_option = ''a'', ov_votes = 1\<rparr>"
      "[\<lparr>ov_option = ''a'', ov_votes = 1\<rparr>, \<lparr>ov_option = ''b'', ov_votes = 3\<rparr>]"
      "\<lparr>ov_option = ''b'', ov_votes = 3\<rparr>"]
  by (simp add: maxVotes_def)

text \<open>Beyond that bound the product overflows and the bar of the leading option turns negative.\<close>

lemma bar_overflows: "sint (barWidth 21474837 21474837) = -99"
  by (simp add: barWidth_def int32_quot_def)

section \<open>Messages\<close>

text \<open>A message set before the redirect is shown on the next page with every byte removed
  that a cookie value cannot carry, so it comes through unchanged exactly when it has none.\<close>

lemma flash_transport:
  "readFlash (r\<lparr>rq_cookies := cookies_set (flashAndRedirect ns name msg)\<rparr>) = filter validCookieValueByte msg
   \<and> (filter validCookieValueByte msg = msg \<longleftrightarrow> list_all validCookieValueByte msg)"
  by (simp add: readFlash_def flashAndRedirect_def transport_cookie_def flash_survives_iff)

text \<open>The confirmation of a recorded vote always loses its dash.\<close>

lemma thanks_message_changes:
  "filter validCookieValueByte (thanksMessage name)
     = ''Thanks  your response was recorded as '' @ filter validCookieValueByte name @ ''.''"
  by (simp add: thanksMessage_def validCookieValueByte_def byte_of_def)

section \<open>Round trips\<close>

text \<open>A ballot filled in on the rendered form comes back as it was: submitting it and building the
  answers from the form gives the ballot's answers in the order of the questions, and the
  respondent without surrounding white space. A text with line breaks is outside the
  round trip, since the browser sends each as two bytes.\<close>

theorem ballot_roundtrip:
  assumes "admitted (Poll_ValidateCreate pr poll)" and "stored_poll poll"
    and "list_all trimmedOptions (ps_questions (p_spec poll))"
    and "list_all (\<lambda>q. ballot_ok q (ballot (q_id q))) (ps_questions (p_spec poll))"
    and "answers = List.map_filter (\<lambda>q. ballot (q_id q)) (ps_questions (p_spec poll))" and "answers \<noteq> []"
    and "form = submittedForm poll respondent ballot"
  shows "buildAnswers poll form = Inr answers
    \<and> rs_answers (r_spec (voteResponse ns name form answers)) = answers
    \<and> rs_respondent (r_spec (voteResponse ns name form answers)) = TrimSpace respondent"
proof -
  have ids: "distinct (map q_id (ps_questions (p_spec poll)))"
    using assms(2) by (simp add: stored_poll_def)
  have wf: "list_all wf_question (ps_questions (p_spec poll))"
    using assms(1) by (simp add: poll_validator.create_admits validatePollSpec_Nil_iff)
  have "form ''respondent'' = Some [respondent]" by (simp add: assms(7) submittedForm_def)
  then show ?thesis
    using collect_submitted[OF ids wf assms(3,4), of respondent] assms(6)
    by (simp add: buildAnswers_def Let_def voteResponse_def assms(5,7) PostFormValue_def form_values_def)
qed

definition sampleBallot :: "string \<rightharpoonup> PollAnswer" where
  "sampleBallot = [''q1'' \<mapsto> answerChoice ''q1'' [''tea''], ''q3'' \<mapsto> answerText ''q3'' ''soup'']"

theorem ballot_roundtrip_witness:
  "buildAnswers samplePoll (submittedForm samplePoll ''me'' sampleBallot)
     = Inr [answerChoice ''q1'' [''tea''], answerText ''q3'' ''soup'']"
proof -
  have ok: "list_all (\<lambda>q. ballot_ok q (sampleBallot (q_id q))) (ps_questions (p_spec samplePoll))"
    by (simp add: sample_defs sampleBallot_def ballot_ok_def question_options_def sample_trim
        question_type_defs)
  have answers: "[answerChoice ''q1'' [''tea''], answerText ''q3'' ''soup'']
      = List.map_filter (\<lambda>q. sampleBallot (q_id q)) (ps_questions (p_spec samplePoll))"
    by (simp add: samplePoll_def sampleQuestions_def sampleBallot_def List.map_filter_simps)
  from ballot_roundtrip[OF sample_admitted sample_wf(4) sample_trimmed ok answers _ refl, of "''me''"]
  show ?thesis by simp
qed

text \<open>C35: post, redirect, get: when the reply to a vote redirects, the browser's next request reaches the
  detail page of the same Poll, with the message of the vote as far as a cookie carries it.\<close>

theorem vote_redirect_shows_poll:
  assumes "url_segment ns" and "url_segment name" and "rq_method r = ''POST''"
    and "rq_segments r = [''polls'', ns, name, ''vote'']" and "routes env r s = (effects, s1)"
    and "follow_redirect effects = Some next_request"
    and "env_getPoll env (NamespacedName ns name) s1 = (Inr poll, s2)"
  shows "\<exists>msg. effects = flashAndRedirect ns name msg
    \<and> routes env next_request s1 = ([RenderPage (PollPage (ps_title (p_spec poll)) poll (questionViews poll)
         (filter validCookieValueByte msg) (st_phase (p_status poll) = PollPhaseOpen))], s2)"
proof -
  have names: "ns \<noteq> ''''" "name \<noteq> ''''" using assms(1,2) by (simp_all add: url_segment_def)
  have effects: "effects = fst (handleVote env ns name r s)"
    using assms(3-5) names by (simp add: routes_def)
  have no_error: "follow_redirect es = None"
    if "es \<in> {[HttpError ''invalid form'' StatusBadRequest], [HttpNotFound], serverError ''get poll''}"
    for es :: "page http_effect list"
    using that by (auto simp: follow_redirect_def serverError_def)
  have "effects \<notin> {[HttpError ''invalid form'' StatusBadRequest], [HttpNotFound], serverError ''get poll''}"
    using no_error[of effects] assms(6) by (metis option.distinct(1))
  then obtain msg where msg: "effects = flashAndRedirect ns name msg"
    using handleVote_effects[of env ns name r s] unfolding effects by blast
  have "next_request = \<lparr>rq_method = ''GET'', rq_segments = [''polls'', ns, name], rq_postForm = Inr Map.empty,
      rq_cookies = cookies_set effects\<rparr>"
    using assms(6) unfolding msg follow_flash[OF assms(1,2)] by simp
  moreover have "readFlash next_request = filter validCookieValueByte msg"
    unfolding calculation msg by (rule readFlash_after_flash)
  ultimately show ?thesis
    using names by (intro exI[of _ msg]) (simp add: msg routes_def handlePollDetail_def assms(7))
qed

theorem vote_redirect_shows_poll_witness:
  "\<exists>effects s1 r' msg s2. routes (sampleEnv 0)
       \<lparr>rq_method = ''POST'', rq_segments = [''polls'', ''ns'', ''lunch'', ''vote''],
        rq_postForm = Inr Map.empty, rq_cookies = []\<rparr> sampleStore = (effects, s1)
     \<and> follow_redirect effects = Some r'
     \<and> routes (sampleEnv 0) r' s1 = ([RenderPage (PollPage ''Lunch'' samplePoll (questionViews samplePoll)
         (filter validCookieValueByte msg) False)], s2)"
proof -
  let ?r = "\<lparr>rq_method = ''POST'', rq_segments = [''polls'', ''ns'', ''lunch'', ''vote''],
    rq_postForm = Inr Map.empty, rq_cookies = []\<rparr> :: http_request"
  let ?msg = "''Could not build response: no answers were provided''"
  have seg: "url_segment ''ns''" "url_segment ''lunch''" by code_simp+
  have get: "env_getPoll (sampleEnv 0) (NamespacedName ''ns'' ''lunch'') sampleStore = (Inr samplePoll, sampleStore)"
    using sample_reads(1) by (simp add: sampleEnv_def read_or_not_found_def poll_key_def samplePoll_def sampleMeta_def)
  have "buildAnswers samplePoll Map.empty = Inl ''no answers were provided''"
    by (simp add: buildAnswers_def sample_defs answerFor_def form_values_def question_type_defs)
  then have vote: "routes (sampleEnv 0) ?r sampleStore = (flashAndRedirect ''ns'' ''lunch'' ?msg, sampleStore)"
    by (simp add: routes_def handleVote_def get)
  have "rq_method ?r = ''POST''" "rq_segments ?r = [''polls'', ''ns'', ''lunch'', ''vote'']" by simp_all
  from vote_redirect_shows_poll[OF seg this vote follow_flash[OF seg] get] vote follow_flash[OF seg, of ?msg]
  show ?thesis by (auto simp: samplePoll_def fresh_status_def phase_defs)
qed

end
