(* ===== verification/Ui_Server.thy ===== *)
theory Ui_Server
  imports Ui_Views
begin

text \<open>
  The life of the UI server (\<open>internal/ui/server.go\<close>): \<open>New\<close>, and \<open>Start\<close> as a step relation
  between the goroutine that serves, the buffered channel it reports on, and the \<open>select\<close>
  that waits for the context or for that report. What \<open>net/http\<close> does is nondeterministic:
  listening may fail at any time, and after \<open>Shutdown\<close> has been called \<open>ListenAndServe\<close>
  returns \<open>ErrServerClosed\<close>.
\<close>

section \<open>Construction\<close>

record Options =
  BindAddress :: string

record 's Server =
  srv_client :: "'s kube_env"
  srv_handler :: "http_request \<Rightarrow> 's \<Rightarrow> page http_effect list \<times> 's"
  srv_addr :: string

text \<open>\<open>New\<close>: no server for an empty address; the error result is always nil.\<close>

definition New :: "'s kube_env \<Rightarrow> Options \<Rightarrow> 's Server option" where
  "New c opts =
     (if BindAddress opts = '''' then None
      else Some \<lparr>srv_client = c, srv_handler = routes c, srv_addr = BindAddress opts\<rparr>)"

definition NeedLeaderElection :: "'s Server \<Rightarrow> bool" where
  "NeedLeaderElection s = False"

text \<open>The \<open>http.Server\<close> that \<open>Start\<close> configures; durations in seconds.\<close>

record 's http_server =
  hs_addr :: string
  hs_handler :: "http_request \<Rightarrow> 's \<Rightarrow> page http_effect list \<times> 's"
  hs_readHeaderTimeout :: int
  hs_readTimeout :: int
  hs_writeTimeout :: int
  hs_idleTimeout :: int

definition httpServer :: "'s Server \<Rightarrow> 's http_server" where
  "httpServer s =
     \<lparr>hs_addr = srv_addr s, hs_handler = srv_handler s, hs_readHeaderTimeout = 10,
      hs_readTimeout = 30, hs_writeTimeout = 30, hs_idleTimeout = 60\<rparr>"

section \<open>\<open>Start\<close> as a step relation\<close>

text \<open>
  The goroutine is serving or has finished; the main thread waits in \<open>select\<close>, is inside
  \<open>Shutdown\<close>, drains the channel, or has returned a value (\<open>None\<close> is nil). \<open>errCh\<close> is the
  channel's buffer of capacity one.
\<close>

datatype main_thread = Selecting | ShuttingDown | Draining | Returned "string option"

record server_state =
  ss_main :: main_thread
  ss_serving :: bool
  ss_errCh :: "string option option"
  ss_ctxDone :: bool
  ss_closed :: bool

definition initial :: server_state where
  "initial = \<lparr>ss_main = Selecting, ss_serving = True, ss_errCh = None, ss_ctxDone = False,
     ss_closed = False\<rparr>"

text \<open>\<open>fmt.Errorf("UI server exited: %w", err)\<close>.\<close>

definition exited :: "string \<Rightarrow> string" where
  "exited err = ''UI server exited: '' @ err"

inductive start_step :: "server_state \<Rightarrow> server_state \<Rightarrow> bool" where
  cancel: "\<not> ss_ctxDone s \<Longrightarrow> start_step s (s\<lparr>ss_ctxDone := True\<rparr>)"
| listen_fails: "ss_serving s \<Longrightarrow> ss_errCh s = None \<Longrightarrow>
    start_step s (s\<lparr>ss_serving := False, ss_errCh := Some (Some (exited err))\<rparr>)"
| listen_closed: "ss_serving s \<Longrightarrow> ss_closed s \<Longrightarrow> ss_errCh s = None \<Longrightarrow>
    start_step s (s\<lparr>ss_serving := False, ss_errCh := Some None\<rparr>)"
| select_done: "ss_main s = Selecting \<Longrightarrow> ss_ctxDone s \<Longrightarrow>
    start_step s (s\<lparr>ss_main := ShuttingDown, ss_closed := True\<rparr>)"
| select_err: "ss_main s = Selecting \<Longrightarrow> ss_errCh s = Some v \<Longrightarrow>
    start_step s (s\<lparr>ss_main := Returned v, ss_errCh := None\<rparr>)"
| shutdown_returns: "ss_main s = ShuttingDown \<Longrightarrow> start_step s (s\<lparr>ss_main := Draining\<rparr>)"
| drain: "ss_main s = Draining \<Longrightarrow> ss_errCh s = Some v \<Longrightarrow>
    start_step s (s\<lparr>ss_main := Returned None, ss_errCh := None\<rparr>)"

inductive_cases start_stepE: "start_step s s'"

inductive server_reachable :: "server_state \<Rightarrow> bool" where
  start: "server_reachable initial"
| step: "server_reachable s \<Longrightarrow> start_step s s' \<Longrightarrow> server_reachable s'"

section \<open>Invariant\<close>

text \<open>
  The goroutine sends exactly once and never blocks: while it serves the buffer is empty,
  and once it has finished its report is in the buffer until the main thread has taken it
  and returned.
\<close>

definition server_inv :: "server_state \<Rightarrow> bool" where
  "server_inv s \<longleftrightarrow>
     (ss_serving s \<longrightarrow> ss_errCh s = None)
   \<and> (\<not> ss_serving s \<longrightarrow> (ss_errCh s \<noteq> None) = (\<forall>v. ss_main s \<noteq> Returned v))
   \<and> ((\<exists>v. ss_main s = Returned v) \<longrightarrow> \<not> ss_serving s)
   \<and> (ss_closed s \<longrightarrow> ss_ctxDone s \<and> ss_main s \<noteq> Selecting)
   \<and> (ss_main s \<in> {ShuttingDown, Draining} \<longrightarrow> ss_closed s)
   \<and> (ss_main s = Selecting \<longrightarrow> ss_errCh s \<noteq> Some None)
   \<and> (ss_main s = Returned None \<longrightarrow> ss_ctxDone s)
   \<and> (\<forall>e. ss_main s = Returned (Some e) \<longrightarrow> (\<exists>err. e = exited err))
   \<and> (\<forall>e. ss_errCh s = Some (Some e) \<longrightarrow> (\<exists>err. e = exited err))"

lemma server_inv_initial: "server_inv initial"
  by (simp add: server_inv_def initial_def)

lemma server_inv_step:
  assumes "start_step s s'" and "server_inv s"
  shows "server_inv s'"
  using assms
proof (induction rule: start_step.induct)
  case (select_err s v)
  then show ?case by (cases v) (auto simp: server_inv_def)
qed (auto simp: server_inv_def)

lemma server_reachable_inv: "server_reachable s \<Longrightarrow> server_inv s"
  by (induction rule: server_reachable.induct) (auto intro: server_inv_initial server_inv_step)

section \<open>Termination and progress\<close>

text \<open>Every step uses up something: the cancellation, the goroutine, or a stage of the main thread.\<close>

fun stage :: "main_thread \<Rightarrow> nat" where
  "stage Selecting = 3"
| "stage ShuttingDown = 2"
| "stage Draining = 1"
| "stage (Returned v) = 0"

definition remaining :: "server_state \<Rightarrow> nat" where
  "remaining s = stage (ss_main s) + (if ss_serving s then 1 else 0) + (if ss_ctxDone s then 0 else 1)"

lemma start_step_remaining: "start_step s s' \<Longrightarrow> remaining s' < remaining s"
  by (induction rule: start_step.induct) (auto simp: remaining_def)

lemma start_steps_bounded:
  assumes "(start_step ^^ n) s s'"
  shows "n + remaining s' \<le> remaining s"
  using assms
proof (induction n arbitrary: s')
  case 0
  then show ?case by simp
next
  case (Suc n)
  then obtain m where "(start_step ^^ n) s m" "start_step m s'" by auto
  with Suc.IH start_step_remaining show ?case by fastforce
qed

text \<open>A run that can go no further after the context was cancelled has returned.\<close>

lemma stuck_after_cancel:
  assumes "server_inv s" and "ss_ctxDone s" and "\<And>s'. \<not> start_step s s'"
  shows "\<exists>v. ss_main s = Returned v"
proof (cases "ss_main s")
  case Selecting
  then show ?thesis using assms(2,3) start_step.select_done by blast
next
  case ShuttingDown
  then show ?thesis using assms(3) start_step.shutdown_returns by blast
next
  case Draining
  then have "ss_closed s" using assms(1) by (simp add: server_inv_def)
  then have "\<not> ss_serving s"
    using assms(1,3) start_step.listen_closed by (auto simp: server_inv_def)
  then obtain v where "ss_errCh s = Some v"
    using assms(1) Draining by (auto simp: server_inv_def)
  then show ?thesis using Draining assms(3) start_step.drain by blast
next
  case (Returned v)
  then show ?thesis by blast
qed

end
