(* ===== verification/Controller_Setup.thy ===== *)
theory Controller_Setup
  imports Poll_Reconciler Response_Reconciler
begin

text \<open>
  The two \<open>SetupWithManager\<close> functions of \<open>internal/controller\<close>: each controller is for one kind
  of object and watches the other through its map function. \<open>requests\<close> is what
  controller-runtime documents for such a registration: an event on an object of the
  controller's own kind enqueues that object's key, and an event on a watched kind enqueues
  what the map function returns for the object.
\<close>

section \<open>Registrations\<close>

datatype object_kind = KindPoll | KindPollResponse

datatype api_object = PollObject Poll | ResponseObject PollResponse

fun kind_of :: "api_object \<Rightarrow> object_kind" where
  "kind_of (PollObject p) = KindPoll"
| "kind_of (ResponseObject r) = KindPollResponse"

fun key_of :: "api_object \<Rightarrow> NamespacedName" where
  "key_of (PollObject p) = poll_key p"
| "key_of (ResponseObject r) = response_key r"

record 's controller =
  ctl_named :: string
  ctl_for :: object_kind
  ctl_watches :: "(object_kind \<times> (api_object \<Rightarrow> 's \<Rightarrow> NamespacedName list)) list"
  ctl_reconciler :: "NamespacedName \<Rightarrow> 's \<Rightarrow> (wrapped_error + ctrl_result) \<times> 's"

text \<open>Both map functions begin with a type assertion and return nothing for another type.\<close>

definition Poll_SetupWithManager :: "'s kube_env \<Rightarrow> 's controller" where
  "Poll_SetupWithManager env =
     \<lparr>ctl_named = ''poll'', ctl_for = KindPoll,
      ctl_watches = [(KindPollResponse, \<lambda>obj s. case obj of
         ResponseObject r \<Rightarrow> mapResponseToPoll r | PollObject _ \<Rightarrow> [])],
      ctl_reconciler = PollReconcile env\<rparr>"

definition PollResponse_SetupWithManager :: "'s kube_env \<Rightarrow> 's controller" where
  "PollResponse_SetupWithManager env =
     \<lparr>ctl_named = ''pollresponse'', ctl_for = KindPollResponse,
      ctl_watches = [(KindPoll, \<lambda>obj s. case obj of
         PollObject p \<Rightarrow> fst (mapPollToResponses env p s) | ResponseObject _ \<Rightarrow> [])],
      ctl_reconciler = PollResponseReconcile env\<rparr>"

section \<open>What an event enqueues\<close>

definition requests :: "'s controller \<Rightarrow> api_object \<Rightarrow> 's \<Rightarrow> NamespacedName list" where
  "requests ctl obj s =
     (if kind_of obj = ctl_for ctl then [key_of obj] else [])
     @ concat (map (\<lambda>(kind, mapper). if kind_of obj = kind then mapper obj s else []) (ctl_watches ctl))"

lemma requests_simps [simp]:
  "requests (Poll_SetupWithManager env) (PollObject p) s = [poll_key p]"
  "requests (Poll_SetupWithManager env) (ResponseObject r) s = mapResponseToPoll r"
  "requests (PollResponse_SetupWithManager env) (ResponseObject r) s = [response_key r]"
  "requests (PollResponse_SetupWithManager env) (PollObject p) s = fst (mapPollToResponses env p s)"
  by (simp_all add: requests_def Poll_SetupWithManager_def PollResponse_SetupWithManager_def)

lemma reconcilers [simp]:
  "ctl_reconciler (Poll_SetupWithManager env) = PollReconcile env"
  "ctl_reconciler (PollResponse_SetupWithManager env) = PollResponseReconcile env"
  by (simp_all add: Poll_SetupWithManager_def PollResponse_SetupWithManager_def)

end
