(* ===== verification/Registration.thy ===== *)
theory Registration
  imports Controller_Setup Poll_Webhook Response_Webhook
begin

text \<open>
  What the process registers before it starts: the kinds of \<open>api/v1\<close> in the scheme
  (\<open>groupversion_info.go\<close>, the \<open>init\<close> functions of the type files and of \<open>cmd/main.go\<close>) and the
  validating webhooks (\<open>internal/webhook/v1\<close>), with the \<open>kubebuilder:webhook\<close> markers from
  which the API server's configuration is generated.
\<close>

section \<open>The scheme\<close>

record group_version =
  gv_group :: string
  gv_version :: string

definition SchemeGroupVersion :: group_version where
  "SchemeGroupVersion = \<lparr>gv_group = ''polls.jef.app'', gv_version = ''v1''\<rparr>"

text \<open>The operations of apimachinery on a scheme; Go types go by their names.\<close>

record 'sch scheme_lib =
  lib_newScheme :: 'sch
  lib_addToGroupVersion :: "group_version \<Rightarrow> 'sch \<Rightarrow> 'sch"
  lib_addKnownTypes :: "group_version \<Rightarrow> string list \<Rightarrow> 'sch \<Rightarrow> 'sch"
  lib_clientgo :: "'sch \<Rightarrow> 'sch"

text \<open>
  A \<open>SchemeBuilder\<close> is the list of functions registered with it. \<open>AddToScheme\<close> is a method value
  of the variable, so it applies the functions that are registered when it is called.
\<close>

type_synonym 'sch builder = "('sch \<Rightarrow> 'sch) list"

definition SchemeBuilder :: "'sch scheme_lib \<Rightarrow> 'sch builder" where
  "SchemeBuilder lib = [lib_addToGroupVersion lib SchemeGroupVersion]"

definition Poll_init :: "'sch scheme_lib \<Rightarrow> 'sch builder \<Rightarrow> 'sch builder" where
  "Poll_init lib b = b @ [lib_addKnownTypes lib SchemeGroupVersion [''Poll'', ''PollList'']]"

definition PollResponse_init :: "'sch scheme_lib \<Rightarrow> 'sch builder \<Rightarrow> 'sch builder" where
  "PollResponse_init lib b =
     b @ [lib_addKnownTypes lib SchemeGroupVersion [''PollResponse'', ''PollResponseList'']]"

fun AddToScheme :: "'sch builder \<Rightarrow> 'sch \<Rightarrow> 'sch" where
  "AddToScheme [] s = s"
| "AddToScheme (f # fs) s = AddToScheme fs (f s)"

text \<open>Package \<open>v1\<close> is initialised, its files in order, before package \<open>main\<close>.\<close>

definition main_init :: "'sch scheme_lib \<Rightarrow> 'sch" where
  "main_init lib =
     AddToScheme (PollResponse_init lib (Poll_init lib (SchemeBuilder lib)))
       (lib_clientgo lib (lib_newScheme lib))"

locale scheme_library =
  fixes lib :: "'sch scheme_lib" and known :: "'sch \<Rightarrow> group_version \<Rightarrow> string \<Rightarrow> bool"
  assumes adds: "known (lib_addKnownTypes lib gv types s) g k \<longleftrightarrow> known s g k \<or> g = gv \<and> k \<in> set types"
    and group_adds: "known s g k \<Longrightarrow> known (lib_addToGroupVersion lib gv s) g k"
begin

lemma registered:
  assumes "k \<in> {''Poll'', ''PollList'', ''PollResponse'', ''PollResponseList''}"
  shows "known (main_init lib) SchemeGroupVersion k"
  using assms
  by (auto simp: main_init_def SchemeBuilder_def Poll_init_def PollResponse_init_def adds)

text \<open>Nothing that client-go registers is lost.\<close>

lemma keeps_clientgo:
  "known (lib_clientgo lib (lib_newScheme lib)) g k \<Longrightarrow> known (main_init lib) g k"
  by (simp add: main_init_def SchemeBuilder_def Poll_init_def PollResponse_init_def adds group_adds)

end

definition documented_scheme :: "(group_version \<times> string) set \<Rightarrow> (group_version \<times> string) set scheme_lib" where
  "documented_scheme clientgo =
     \<lparr>lib_newScheme = {}, lib_addToGroupVersion = (\<lambda>gv s. insert (gv, ''WatchEvent'') s),
      lib_addKnownTypes = (\<lambda>gv types s. s \<union> (\<lambda>k. (gv, k)) ` set types),
      lib_clientgo = (\<lambda>s. s \<union> clientgo)\<rparr>"

interpretation documented_lib: scheme_library "documented_scheme clientgo" "\<lambda>s g k. (g, k) \<in> s" for clientgo
  by unfold_locales (auto simp: documented_scheme_def)

section \<open>Webhooks\<close>

datatype 'o admission_request = AdmitCreate 'o | AdmitUpdate 'o 'o | AdmitDelete 'o

fun operation :: "'o admission_request \<Rightarrow> string" where
  "operation (AdmitCreate obj) = ''create''"
| "operation (AdmitUpdate old new) = ''update''"
| "operation (AdmitDelete obj) = ''delete''"

record 'o validator =
  v_create :: "'o \<Rightarrow> admission_result"
  v_update :: "'o \<Rightarrow> 'o \<Rightarrow> admission_result"
  v_delete :: "'o \<Rightarrow> admission_result"

fun validate_request :: "'o validator \<Rightarrow> 'o admission_request \<Rightarrow> admission_result" where
  "validate_request v (AdmitCreate obj) = v_create v obj"
| "validate_request v (AdmitUpdate old new) = v_update v old new"
| "validate_request v (AdmitDelete obj) = v_delete v obj"

text \<open>The two validators, structures without fields, are their methods.\<close>

definition PollCustomValidator :: "(nat \<Rightarrow> bool) \<Rightarrow> Poll validator" where
  [simp]: "PollCustomValidator pr =
     \<lparr>v_create = Poll_ValidateCreate pr, v_update = Poll_ValidateUpdate pr, v_delete = Poll_ValidateDelete\<rparr>"

definition PollResponseCustomValidator :: "(nat \<Rightarrow> bool) \<Rightarrow> PollResponse validator" where
  [simp]: "PollResponseCustomValidator pr =
     \<lparr>v_create = PollResponse_ValidateCreate, v_update = PollResponse_ValidateUpdate pr,
      v_delete = PollResponse_ValidateDelete\<rparr>"

text \<open>The webhook server's entry: the path that the builder derives from the kind, and the validator.\<close>

definition SetupPollWebhookWithManager ::
    "(group_version \<Rightarrow> string \<Rightarrow> string) \<Rightarrow> (nat \<Rightarrow> bool) \<Rightarrow> string \<times> Poll validator" where
  "SetupPollWebhookWithManager validatePath pr =
     (validatePath SchemeGroupVersion ''Poll'', PollCustomValidator pr)"

definition SetupPollResponseWebhookWithManager ::
    "(group_version \<Rightarrow> string \<Rightarrow> string) \<Rightarrow> (nat \<Rightarrow> bool) \<Rightarrow> string \<times> PollResponse validator" where
  "SetupPollResponseWebhookWithManager validatePath pr =
     (validatePath SchemeGroupVersion ''PollResponse'', PollResponseCustomValidator pr)"

text \<open>The markers; both have \<open>failurePolicy=fail\<close>.\<close>

record webhook_marker =
  wm_path :: string
  wm_groups :: "string list"
  wm_resources :: "string list"
  wm_verbs :: "string list"
  wm_versions :: "string list"

definition Poll_webhook_marker :: webhook_marker where
  "Poll_webhook_marker =
     \<lparr>wm_path = ''/validate-polls-jef-app-v1-poll'', wm_groups = [''polls.jef.app''],
      wm_resources = [''polls''], wm_verbs = [''create'', ''update''], wm_versions = [''v1'']\<rparr>"

definition PollResponse_webhook_marker :: webhook_marker where
  "PollResponse_webhook_marker =
     \<lparr>wm_path = ''/validate-polls-jef-app-v1-pollresponse'', wm_groups = [''polls.jef.app''],
      wm_resources = [''pollresponses''], wm_verbs = [''create'', ''update''], wm_versions = [''v1'']\<rparr>"

text \<open>
  The API server asks the configured path about the configured operations; nobody serving the
  path counts as a refusal.
\<close>

definition review :: "webhook_marker \<Rightarrow> string \<times> 'o validator \<Rightarrow> 'o admission_request \<Rightarrow> bool" where
  "review marker entry req =
     (if operation req \<in> set (wm_verbs marker)
      then wm_path marker = fst entry \<and> admitted (validate_request (snd entry) req)
      else True)"

text \<open>The path documented for a kind: the group with dashes for dots, and all in lower case.\<close>

definition lower_char :: "char \<Rightarrow> char" where
  "lower_char c = (let n = (of_char c :: nat) in if 65 \<le> n \<and> n \<le> 90 then char_of (n + 32) else c)"

definition documented_validatePath :: "group_version \<Rightarrow> string \<Rightarrow> string" where
  "documented_validatePath gv kind =
     ''/validate-'' @ map (\<lambda>c. if c = CHR ''.'' then CHR ''-'' else c) (gv_group gv)
     @ ''-'' @ gv_version gv @ ''-'' @ map lower_char kind"

definition documented_paths :: "(group_version \<Rightarrow> string \<Rightarrow> string) \<Rightarrow> bool" where
  "documented_paths validatePath \<longleftrightarrow>
     (\<forall>kind \<in> {''Poll'', ''PollResponse''}. validatePath SchemeGroupVersion kind
        = documented_validatePath SchemeGroupVersion kind)"

lemma validate_paths:
  "documented_validatePath SchemeGroupVersion ''Poll'' = ''/validate-polls-jef-app-v1-poll''"
  "documented_validatePath SchemeGroupVersion ''PollResponse'' = ''/validate-polls-jef-app-v1-pollresponse''"
  by code_simp+

lemma review_Poll:
  assumes "documented_paths validatePath"
  shows "review Poll_webhook_marker (SetupPollWebhookWithManager validatePath pr) (AdmitCreate p)
      = admitted (Poll_ValidateCreate pr p)"
    and "review Poll_webhook_marker (SetupPollWebhookWithManager validatePath pr) (AdmitUpdate p p')
      = admitted (Poll_ValidateUpdate pr p p')"
    and "review Poll_webhook_marker (SetupPollWebhookWithManager validatePath pr) (AdmitDelete p)"
  using assms
  by (simp_all add: documented_paths_def validate_paths review_def Poll_webhook_marker_def
      SetupPollWebhookWithManager_def)

lemma review_PollResponse:
  assumes "documented_paths validatePath"
  shows "review PollResponse_webhook_marker (SetupPollResponseWebhookWithManager validatePath pr) (AdmitCreate r)
      = admitted (PollResponse_ValidateCreate r)"
    and "review PollResponse_webhook_marker (SetupPollResponseWebhookWithManager validatePath pr) (AdmitUpdate r r')
      = admitted (PollResponse_ValidateUpdate pr r r')"
    and "review PollResponse_webhook_marker (SetupPollResponseWebhookWithManager validatePath pr) (AdmitDelete r)"
  using assms
  by (simp_all add: documented_paths_def validate_paths review_def PollResponse_webhook_marker_def
      SetupPollResponseWebhookWithManager_def)

end
