(* ===== verification/Command_Line.thy ===== *)
theory Command_Line
  imports Go_Runtime
begin

text \<open>
  The command line of \<open>cmd/main.go\<close>: the flags that \<open>main\<close> registers with their defaults, and
  how \<open>flag.Parse\<close> reads the arguments. Flags that the imported packages register on the same
  set (logging, the location of a kubeconfig) are a parameter: whether such a flag is boolean,
  and which values it takes.
\<close>

section \<open>The flags of the program\<close>

record flags =
  metricsAddr :: string
  metricsCertPath :: string
  metricsCertName :: string
  metricsCertKey :: string
  webhookCertPath :: string
  webhookCertName :: string
  webhookCertKey :: string
  enableLeaderElection :: bool
  probeAddr :: string
  secureMetrics :: bool
  enableHTTP2 :: bool
  uiBindAddress :: string

definition defaultFlags :: flags where
  "defaultFlags =
     \<lparr>metricsAddr = ''0'', metricsCertPath = '''', metricsCertName = ''tls.crt'',
      metricsCertKey = ''tls.key'', webhookCertPath = '''', webhookCertName = ''tls.crt'',
      webhookCertKey = ''tls.key'', enableLeaderElection = False, probeAddr = '':8081'',
      secureMetrics = True, enableHTTP2 = False, uiBindAddress = '':8082''\<rparr>"

text \<open>\<open>strconv.ParseBool\<close>.\<close>

definition ParseBool :: "string \<Rightarrow> bool option" where
  "ParseBool s =
     (if s \<in> set [''1'', ''t'', ''T'', ''TRUE'', ''true'', ''True''] then Some True
      else if s \<in> set [''0'', ''f'', ''F'', ''FALSE'', ''false'', ''False''] then Some False
      else None)"

text \<open>A flag: whether it may stand without a value, and what a value does, if it is one.\<close>

record flag_value =
  fv_bool :: bool
  fv_set :: "string \<Rightarrow> flags \<Rightarrow> flags option"

definition StringVar :: "(string \<Rightarrow> flags \<Rightarrow> flags) \<Rightarrow> flag_value" where
  "StringVar upd = \<lparr>fv_bool = False, fv_set = \<lambda>v f. Some (upd v f)\<rparr>"

definition BoolVar :: "(bool \<Rightarrow> flags \<Rightarrow> flags) \<Rightarrow> flag_value" where
  "BoolVar upd = \<lparr>fv_bool = True, fv_set = \<lambda>v f. map_option (\<lambda>b. upd b f) (ParseBool v)\<rparr>"

definition formal :: "(string \<times> flag_value) list" where
  "formal =
     [(''metrics-bind-address'', StringVar (\<lambda>v f. f\<lparr>metricsAddr := v\<rparr>)),
      (''health-probe-bind-address'', StringVar (\<lambda>v f. f\<lparr>probeAddr := v\<rparr>)),
      (''leader-elect'', BoolVar (\<lambda>b f. f\<lparr>enableLeaderElection := b\<rparr>)),
      (''metrics-secure'', BoolVar (\<lambda>b f. f\<lparr>secureMetrics := b\<rparr>)),
      (''webhook-cert-path'', StringVar (\<lambda>v f. f\<lparr>webhookCertPath := v\<rparr>)),
      (''webhook-cert-name'', StringVar (\<lambda>v f. f\<lparr>webhookCertName := v\<rparr>)),
      (''webhook-cert-key'', StringVar (\<lambda>v f. f\<lparr>webhookCertKey := v\<rparr>)),
      (''metrics-cert-path'', StringVar (\<lambda>v f. f\<lparr>metricsCertPath := v\<rparr>)),
      (''metrics-cert-name'', StringVar (\<lambda>v f. f\<lparr>metricsCertName := v\<rparr>)),
      (''metrics-cert-key'', StringVar (\<lambda>v f. f\<lparr>metricsCertKey := v\<rparr>)),
      (''enable-http2'', BoolVar (\<lambda>b f. f\<lparr>enableHTTP2 := b\<rparr>)),
      (''ui-bind-address'', StringVar (\<lambda>v f. f\<lparr>uiBindAddress := v\<rparr>))]"

type_synonym other_flags = "string \<Rightarrow> (bool \<times> (string \<Rightarrow> bool)) option"

definition flag_named :: "other_flags \<Rightarrow> string \<Rightarrow> flag_value option" where
  "flag_named others name =
     (case map_of formal name of
        Some d \<Rightarrow> Some d
      | None \<Rightarrow> map_option (\<lambda>(isBool, ok). \<lparr>fv_bool = isBool, fv_set = \<lambda>v f. if ok v then Some f else None\<rparr>)
          (others name))"

section \<open>\<open>flag.Parse\<close>\<close>

datatype flag_error = HelpRequested | BadSyntax string | NotDefined string | InvalidValue string string
  | NeedsArgument string

text \<open>Parsing ends at the first argument that is no flag, or after two dashes.\<close>

fun parseFlags :: "other_flags \<Rightarrow> string list \<Rightarrow> flags \<Rightarrow> flag_error + flags" where
  "parseFlags others [] f = Inr f"
| "parseFlags others (s # args) f =
     (if length s < 2 \<or> s ! 0 \<noteq> CHR ''-'' \<or> s = ''--'' then Inr f
      else let body = (if s ! 1 = CHR ''-'' then drop 2 s else drop 1 s);
               name = takeWhile (\<lambda>c. c \<noteq> CHR ''='') body;
               val = drop (Suc (length name)) body
           in if body ! 0 = CHR ''-'' \<or> body ! 0 = CHR ''='' then Inl (BadSyntax s)
              else case flag_named others name of
                None \<Rightarrow> Inl (if name = ''help'' \<or> name = ''h'' then HelpRequested else NotDefined name)
              | Some d \<Rightarrow>
                  if CHR ''='' \<in> set body then
                    (case fv_set d val f of
                       None \<Rightarrow> Inl (InvalidValue name val) | Some f' \<Rightarrow> parseFlags others args f')
                  else if fv_bool d then
                    (case fv_set d ''true'' f of
                       None \<Rightarrow> Inl (InvalidValue name ''true'') | Some f' \<Rightarrow> parseFlags others args f')
                  else (case args of
                       [] \<Rightarrow> Inl (NeedsArgument name)
                     | v # rest \<Rightarrow> (case fv_set d v f of
                         None \<Rightarrow> Inl (InvalidValue name v) | Some f' \<Rightarrow> parseFlags others rest f')))"

text \<open>\<open>flag.ExitOnError\<close>: a request for help is no failure.\<close>

definition flag_exit :: "flag_error \<Rightarrow> nat" where
  "flag_exit e = (if e = HelpRequested then 0 else 2)"

section \<open>Every configuration has a command line\<close>

definition show_bool :: "bool \<Rightarrow> string" where
  "show_bool b = (if b then ''true'' else ''false'')"

lemma ParseBool_show [simp]: "ParseBool (show_bool b) = Some b"
  by (simp add: ParseBool_def show_bool_def)

definition assign :: "string \<Rightarrow> string \<Rightarrow> string" where
  "assign name v = ''--'' @ name @ ''='' @ v"

definition command_line :: "flags \<Rightarrow> string list" where
  "command_line f =
     [assign ''metrics-bind-address'' (metricsAddr f), assign ''health-probe-bind-address'' (probeAddr f),
      assign ''leader-elect'' (show_bool (enableLeaderElection f)),
      assign ''metrics-secure'' (show_bool (secureMetrics f)),
      assign ''webhook-cert-path'' (webhookCertPath f), assign ''webhook-cert-name'' (webhookCertName f),
      assign ''webhook-cert-key'' (webhookCertKey f), assign ''metrics-cert-path'' (metricsCertPath f),
      assign ''metrics-cert-name'' (metricsCertName f), assign ''metrics-cert-key'' (metricsCertKey f),
      assign ''enable-http2'' (show_bool (enableHTTP2 f)), assign ''ui-bind-address'' (uiBindAddress f)]"

text \<open>One assignment. The names of flags start with a letter and have no equals sign.\<close>

lemma formal_names:
  "map_of formal name = Some d \<Longrightarrow> name \<noteq> [] \<and> hd name \<noteq> CHR ''-'' \<and> CHR ''='' \<notin> set name"
  by (drule map_of_SomeD) (auto simp: formal_def)

lemma parse_assignment:
  assumes known: "map_of formal name \<noteq> None" and the_d: "d = the (map_of formal name)" and v: "fv_set d v f = Some f'"
  shows "parseFlags others (assign name v # args) f = parseFlags others args f'"
proof -
  have d: "map_of formal name = Some d" using known the_d by auto
  obtain c cs where name: "name = c # cs" "c \<noteq> CHR ''-''" "c \<noteq> CHR ''=''" "CHR ''='' \<notin> set cs"
    using formal_names[OF d] by (cases name) auto
  have stop: "takeWhile (\<lambda>c. c \<noteq> CHR ''='') (cs @ CHR ''='' # v) = cs"
    using name(4) by (subst takeWhile_append2) auto
  have flag: "flag_named others (c # cs) = Some d" using d name(1) by (simp add: flag_named_def)
  show ?thesis using name stop flag v by (simp add: assign_def)
qed

lemma parse_options:
  "parseFlags others (assign ''metrics-bind-address'' v # args) f = parseFlags others args (f\<lparr>metricsAddr := v\<rparr>)"
  "parseFlags others (assign ''health-probe-bind-address'' v # args) f = parseFlags others args (f\<lparr>probeAddr := v\<rparr>)"
  "parseFlags others (assign ''leader-elect'' (show_bool b) # args) f = parseFlags others args (f\<lparr>enableLeaderElection := b\<rparr>)"
  "parseFlags others (assign ''metrics-secure'' (show_bool b) # args) f = parseFlags others args (f\<lparr>secureMetrics := b\<rparr>)"
  "parseFlags others (assign ''webhook-cert-path'' v # args) f = parseFlags others args (f\<lparr>webhookCertPath := v\<rparr>)"
  "parseFlags others (assign ''webhook-cert-name'' v # args) f = parseFlags others args (f\<lparr>webhookCertName := v\<rparr>)"
  "parseFlags others (assign ''webhook-cert-key'' v # args) f = parseFlags others args (f\<lparr>webhookCertKey := v\<rparr>)"
  "parseFlags others (assign ''metrics-cert-path'' v # args) f = parseFlags others args (f\<lparr>metricsCertPath := v\<rparr>)"
  "parseFlags others (assign ''metrics-cert-name'' v # args) f = parseFlags others args (f\<lparr>metricsCertName := v\<rparr>)"
  "parseFlags others (assign ''metrics-cert-key'' v # args) f = parseFlags others args (f\<lparr>metricsCertKey := v\<rparr>)"
  "parseFlags others (assign ''enable-http2'' (show_bool b) # args) f = parseFlags others args (f\<lparr>enableHTTP2 := b\<rparr>)"
  "parseFlags others (assign ''ui-bind-address'' v # args) f = parseFlags others args (f\<lparr>uiBindAddress := v\<rparr>)"
  by - (rule parse_assignment, simp add: formal_def, rule refl, simp add: formal_def StringVar_def BoolVar_def)+

theorem command_line_roundtrip: "parseFlags others (command_line f) g = Inr f"
  by (simp only: command_line_def parse_options parseFlags.simps(1)) (simp add: flags.equality)

end
