(* ===== verification/Manager_Startup.thy ===== *)
theory Manager_Startup
  imports Ui_Server Registration Command_Line
begin

text \<open>
  \<open>cmd/main.go\<close>: the command line, the options derived from it, and the sequence of set-up
  steps that the process performs until the first one fails. What a step does inside
  controller-runtime is a parameter: whether it fails.
\<close>

section \<open>Options\<close>

text \<open>The functions in \<open>TLSOpts\<close> act on the protocols a TLS configuration offers.\<close>

record tls_config =
  NextProtos :: "string list"

definition disableHTTP2 :: "tls_config \<Rightarrow> tls_config" where
  "disableHTTP2 c = c\<lparr>NextProtos := [''http/1.1'']\<rparr>"

definition tlsOpts :: "flags \<Rightarrow> (tls_config \<Rightarrow> tls_config) list" where
  "tlsOpts f = (if \<not> enableHTTP2 f then [] @ [disableHTTP2] else [])"

record webhook_options =
  wo_tlsOpts :: "(tls_config \<Rightarrow> tls_config) list"
  wo_certDir :: string
  wo_certName :: string
  wo_keyName :: string

definition webhookServerOptions :: "flags \<Rightarrow> webhook_options" where
  "webhookServerOptions f =
     (let opts = \<lparr>wo_tlsOpts = tlsOpts f, wo_certDir = '''', wo_certName = '''', wo_keyName = ''''\<rparr>
      in if 0 < length (webhookCertPath f)
         then opts\<lparr>wo_certDir := webhookCertPath f, wo_certName := webhookCertName f,
                   wo_keyName := webhookCertKey f\<rparr>
         else opts)"

record metrics_options =
  mo_bindAddress :: string
  mo_secureServing :: bool
  mo_tlsOpts :: "(tls_config \<Rightarrow> tls_config) list"
  mo_authFilter :: bool
  mo_certDir :: string
  mo_certName :: string
  mo_keyName :: string

definition metricsServerOptions :: "flags \<Rightarrow> metrics_options" where
  "metricsServerOptions f =
     (let opts = \<lparr>mo_bindAddress = metricsAddr f, mo_secureServing = secureMetrics f,
                  mo_tlsOpts = tlsOpts f, mo_authFilter = False,
                  mo_certDir = '''', mo_certName = '''', mo_keyName = ''''\<rparr>;
          opts = (if secureMetrics f then opts\<lparr>mo_authFilter := True\<rparr> else opts)
      in if 0 < length (metricsCertPath f)
         then opts\<lparr>mo_certDir := metricsCertPath f, mo_certName := metricsCertName f,
                   mo_keyName := metricsCertKey f\<rparr>
         else opts)"

section \<open>Set-up\<close>

text \<open>The calls of \<open>main\<close> that can fail; adding the UI carries the server that \<open>ui.New\<close> made.\<close>

datatype 's setup_step =
    NewManager webhook_options metrics_options string bool
  | SetupPollController
  | SetupPollResponseController
  | SetupPollResponseWebhook
  | SetupPollWebhook
  | AddUiServer "'s Server option"
  | AddHealthzCheck
  | AddReadyzCheck
  | StartManager

definition mainSteps :: "'s kube_env \<Rightarrow> flags \<Rightarrow> string \<Rightarrow> 's setup_step list" where
  "mainSteps mgrClient f enableWebhooksVar =
     [NewManager (webhookServerOptions f) (metricsServerOptions f) (probeAddr f) (enableLeaderElection f),
      SetupPollController,
      SetupPollResponseController]
   @ (if enableWebhooksVar \<noteq> ''false'' then [SetupPollResponseWebhook] else [])
   @ (if enableWebhooksVar \<noteq> ''false'' then [SetupPollWebhook] else [])
   @ (if uiBindAddress f \<noteq> '''' then [AddUiServer (New mgrClient \<lparr>BindAddress = uiBindAddress f\<rparr>)] else [])
   @ [AddHealthzCheck, AddReadyzCheck, StartManager]"

text \<open>
  Run the steps until one fails: the steps that succeeded, and the exit code, which is 1
  after a failure (\<open>os.Exit(1)\<close>) and 0 when \<open>main\<close> returns.
\<close>

fun runSteps :: "('s setup_step \<Rightarrow> bool) \<Rightarrow> 's setup_step list \<Rightarrow> 's setup_step list \<times> nat" where
  "runSteps fails [] = ([], 0)"
| "runSteps fails (x # xs) =
     (if fails x then ([], 1)
      else case runSteps fails xs of (done, code) \<Rightarrow> (x # done, code))"

definition main_process ::
    "('s setup_step \<Rightarrow> bool) \<Rightarrow> 's kube_env \<Rightarrow> flags \<Rightarrow> string \<Rightarrow> 's setup_step list \<times> nat" where
  "main_process fails mgrClient f enableWebhooksVar = runSteps fails (mainSteps mgrClient f enableWebhooksVar)"

text \<open>The process with its arguments; \<open>flag.Parse\<close> ends it when they make no sense.\<close>

definition main_program ::
    "other_flags \<Rightarrow> ('s setup_step \<Rightarrow> bool) \<Rightarrow> 's kube_env \<Rightarrow> string list \<Rightarrow> string \<Rightarrow> 's setup_step list \<times> nat" where
  "main_program others fails mgrClient args enableWebhooksVar =
     (case parseFlags others args defaultFlags of
        Inl e \<Rightarrow> ([], flag_exit e)
      | Inr f \<Rightarrow> main_process fails mgrClient f enableWebhooksVar)"

text \<open>
  What the steps leave in the manager: the options it was made with, the controllers, the
  entries of the webhook server, the runnables and the checks, each in the order of the calls.
  \<open>validatePath\<close> is how the webhook builder names the path of a kind.
\<close>

record 's manager =
  mg_webhookServer :: "webhook_options option"
  mg_metrics :: "metrics_options option"
  mg_healthProbeBindAddress :: string
  mg_leaderElection :: bool
  mg_leaderElectionID :: string
  mg_controllers :: "'s controller list"
  mg_pollWebhooks :: "(string \<times> Poll validator) list"
  mg_responseWebhooks :: "(string \<times> PollResponse validator) list"
  mg_runnables :: "'s Server option list"
  mg_healthzChecks :: "string list"
  mg_readyzChecks :: "string list"
  mg_started :: bool

definition no_manager :: "'s manager" where
  "no_manager = \<lparr>mg_webhookServer = None, mg_metrics = None, mg_healthProbeBindAddress = '''',
     mg_leaderElection = False, mg_leaderElectionID = '''', mg_controllers = [], mg_pollWebhooks = [],
     mg_responseWebhooks = [], mg_runnables = [], mg_healthzChecks = [], mg_readyzChecks = [],
     mg_started = False\<rparr>"

fun perform :: "(group_version \<Rightarrow> string \<Rightarrow> string) \<Rightarrow> 's kube_env \<Rightarrow> 's setup_step \<Rightarrow> 's manager \<Rightarrow> 's manager" where
  "perform validatePath c (NewManager webhook metrics probe leader) m =
     no_manager\<lparr>mg_webhookServer := Some webhook, mg_metrics := Some metrics,
       mg_healthProbeBindAddress := probe, mg_leaderElection := leader,
       mg_leaderElectionID := ''ae4bd935.jef.app''\<rparr>"
| "perform validatePath c SetupPollController m =
     m\<lparr>mg_controllers := mg_controllers m @ [Poll_SetupWithManager c]\<rparr>"
| "perform validatePath c SetupPollResponseController m =
     m\<lparr>mg_controllers := mg_controllers m @ [PollResponse_SetupWithManager c]\<rparr>"
| "perform validatePath c SetupPollResponseWebhook m =
     m\<lparr>mg_responseWebhooks := mg_responseWebhooks m
         @ [SetupPollResponseWebhookWithManager validatePath (env_isPrint c)]\<rparr>"
| "perform validatePath c SetupPollWebhook m =
     m\<lparr>mg_pollWebhooks := mg_pollWebhooks m
         @ [SetupPollWebhookWithManager validatePath (env_isPrint c)]\<rparr>"
| "perform validatePath c (AddUiServer srv) m = m\<lparr>mg_runnables := mg_runnables m @ [srv]\<rparr>"
| "perform validatePath c AddHealthzCheck m = m\<lparr>mg_healthzChecks := mg_healthzChecks m @ [''healthz'']\<rparr>"
| "perform validatePath c AddReadyzCheck m = m\<lparr>mg_readyzChecks := mg_readyzChecks m @ [''readyz'']\<rparr>"
| "perform validatePath c StartManager m = m\<lparr>mg_started := True\<rparr>"

lemma runSteps_eq:
  "runSteps fails xs = (takeWhile (\<lambda>x. \<not> fails x) xs, if list_ex fails xs then 1 else 0)"
  by (induction xs) auto

text \<open>\<open>ui.New\<close> is only called with an address, so the manager never gets a nil server.\<close>

lemma ui_server_present:
  "AddUiServer srv \<in> set (mainSteps c f v)
     \<longleftrightarrow> uiBindAddress f \<noteq> ''''
       \<and> srv = Some \<lparr>srv_client = c, srv_handler = routes c, srv_addr = uiBindAddress f\<rparr>"
  by (auto simp: mainSteps_def New_def)

lemma start_is_last:
  assumes "StartManager \<in> set (fst (runSteps fails (mainSteps c f v)))"
  shows "fst (runSteps fails (mainSteps c f v)) = mainSteps c f v"
proof -
  let ?init = "butlast (mainSteps c f v)"
  have split: "mainSteps c f v = ?init @ [StartManager]" and fresh: "StartManager \<notin> set ?init"
    by (auto simp: mainSteps_def butlast_append)
  have "list_all (\<lambda>x. \<not> fails x) ?init"
  proof (rule ccontr)
    assume "\<not> list_all (\<lambda>x. \<not> fails x) ?init"
    then obtain x where "x \<in> set ?init" "\<not> \<not> fails x" by (auto simp: list_all_iff)
    then have "takeWhile (\<lambda>x. \<not> fails x) (?init @ [StartManager]) = takeWhile (\<lambda>x. \<not> fails x) ?init"
      by (rule takeWhile_append1)
    then have "StartManager \<in> set (takeWhile (\<lambda>x. \<not> fails x) ?init)"
      using assms split by (simp add: runSteps_eq)
    with fresh set_takeWhileD show False by metis
  qed
  moreover have "\<not> fails StartManager"
    using assms set_takeWhileD by (fastforce simp: runSteps_eq)
  ultimately have "takeWhile (\<lambda>x. \<not> fails x) (?init @ [StartManager]) = ?init @ [StartManager]"
    by (auto simp: list_all_iff takeWhile_append)
  with split show ?thesis by (simp add: runSteps_eq)
qed

end
