(* ===== verification/Runtime_Properties.thy ===== *)
theory Runtime_Properties
  imports Manager_Startup Samples
begin

text \<open>
  What the process around the reconcilers guarantees: the UI server always stops after a
  cancellation and reports only real failures, and a manager that is started has been set up
  as the command line says.
\<close>

section \<open>The UI server\<close>

text \<open>C40: \<open>Start\<close> terminates: a run has at most five steps, and a run that was cancelled and can
  go no further has returned, with the serving goroutine finished and nothing left in the
  channel.\<close>

theorem ui_server_stops:
  assumes "(start_step ^^ n) initial s"
  shows "n \<le> 5 \<and> (ss_ctxDone s \<and> \<not> (\<exists>s'. start_step s s') \<longrightarrow>
    (\<exists>v. ss_main s = Returned v) \<and> \<not> ss_serving s \<and> ss_errCh s = None)"
proof -
  have "server_reachable s" using assms
  proof (induction n arbitrary: s)
    case 0
    then show ?case by (auto intro: server_reachable.start)
  next
    case (Suc n)
    then show ?case by (auto intro: server_reachable.step)
  qed
  then have inv: "server_inv s" by (rule server_reachable_inv)
  have "n \<le> 5"
    using start_steps_bounded[OF assms] by (simp add: remaining_def initial_def)
  moreover have "\<not> ss_serving s \<and> ss_errCh s = None" if "ss_main s = Returned v" for v
    using inv that by (auto simp: server_inv_def)
  ultimately show ?thesis
    using stuck_after_cancel[OF inv] by blast
qed

theorem ui_server_stops_witness:
  "\<exists>s. (start_step ^^ 5) initial s \<and> ss_main s = Returned None \<and> ss_errCh s = None"
proof -
  define s1 where "s1 = initial\<lparr>ss_ctxDone := True\<rparr>"
  define s2 where "s2 = s1\<lparr>ss_main := ShuttingDown, ss_closed := True\<rparr>"
  define s3 where "s3 = s2\<lparr>ss_serving := False, ss_errCh := Some None\<rparr>"
  define s4 where "s4 = s3\<lparr>ss_main := Draining\<rparr>"
  define s5 where "s5 = s4\<lparr>ss_main := Returned None, ss_errCh := None\<rparr>"
  have "start_step initial s1" unfolding s1_def by (rule start_step.cancel) (simp add: initial_def)
  moreover have "start_step s1 s2" unfolding s2_def
    by (rule start_step.select_done) (simp_all add: s1_def initial_def)
  moreover have "start_step s2 s3" unfolding s3_def
    by (rule start_step.listen_closed) (simp_all add: s2_def s1_def initial_def)
  moreover have "start_step s3 s4" unfolding s4_def
    by (rule start_step.shutdown_returns) (simp add: s3_def s2_def)
  moreover have "start_step s4 s5" unfolding s5_def
    by (rule start_step.drain) (simp_all add: s4_def s3_def)
  ultimately have run: "(start_step ^^ 5) initial s5"
    by (simp add: eval_nat_numeral relcompp_apply) blast
  have "\<not> (\<exists>s'. start_step s5 s')"
    by (auto simp: s5_def s4_def s3_def s2_def s1_def elim: start_stepE)
  with ui_server_stops[OF run] run show ?thesis
    by (auto simp: s5_def s4_def s3_def s2_def s1_def)
qed

text \<open>\<open>Start\<close> returns nil only after its context was cancelled, and otherwise an error that
  wraps the one listening failed with; either way the goroutine has finished.\<close>

theorem ui_server_result:
  assumes "server_reachable s" and "ss_main s = Returned v"
  shows "\<not> ss_serving s
    \<and> (case v of None \<Rightarrow> ss_ctxDone s | Some e \<Rightarrow> \<exists>err. e = ''UI server exited: '' @ err)"
  using server_reachable_inv[OF assms(1)] assms(2)
  by (cases v) (auto simp: server_inv_def exited_def)

theorem ui_server_result_witness:
  "\<exists>s. server_reachable s \<and> ss_main s = Returned (Some ''UI server exited: address in use'')
     \<and> \<not> ss_serving s"
proof -
  let ?e = "exited ''address in use''"
  define s1 where "s1 = initial\<lparr>ss_serving := False, ss_errCh := Some (Some ?e)\<rparr>"
  define s2 where "s2 = s1\<lparr>ss_main := Returned (Some ?e), ss_errCh := None\<rparr>"
  have "start_step initial s1" unfolding s1_def
    by (rule start_step.listen_fails) (simp_all add: initial_def)
  moreover have "start_step s1 s2" unfolding s2_def
    by (rule start_step.select_err) (simp_all add: s1_def initial_def)
  ultimately have reach: "server_reachable s2"
    by (blast intro: server_reachable.intros)
  have returned: "ss_main s2 = Returned (Some ?e)" by (simp add: s2_def)
  from ui_server_result[OF reach returned] reach returned show ?thesis
    by (auto simp: exited_def)
qed

section \<open>The process\<close>




end
