(* ===== verification/Stale_Cache.thy ===== *)
theory Stale_Cache
  imports Crd_Schema
begin

text \<open>
  One PollResponse under a cache that lags behind the server. The reconciler reads the cached
  object, computes a status from it and sends the difference to the cached object as a JSON
  merge patch, without a resource version; the server applies it to the object it has. The
  documented rules of such a patch are the locale \<open>merge_patch\<close>; \<open>stale_step\<close> interleaves
  reconciles with the cache catching up.
\<close>

section \<open>Merge patches of a response status\<close>

text \<open>The same conditions, up to the rounding of their times.\<close>

definition same_conditions :: "condition list \<Rightarrow> condition list \<Rightarrow> bool" where
  "same_conditions a b \<longleftrightarrow> map cond_core a = map cond_core b
     \<and> map (\<lambda>c. c_lastTransitionTime c = None) a = map (\<lambda>c. c_lastTransitionTime c = None) b"

lemma same_conditions_refl [simp]: "same_conditions a a"
  by (simp add: same_conditions_def)

text \<open>
  \<open>merge base new cur\<close>: the fields in which \<open>new\<close> differs from \<open>base\<close> replace those of \<open>cur\<close>, a list
  as a whole; the others stay. Two times may differ in memory and not in the patch.
\<close>

locale merge_patch =
  fixes merge :: "PollResponseStatus \<Rightarrow> PollResponseStatus \<Rightarrow> PollResponseStatus \<Rightarrow> PollResponseStatus"
  assumes merge_phase: "rst_phase (merge base new cur)
      = (if rst_phase base = rst_phase new then rst_phase cur else rst_phase new)"
    and merge_generation: "rst_observedPollGeneration (merge base new cur)
      = (if rst_observedPollGeneration base = rst_observedPollGeneration new
         then rst_observedPollGeneration cur else rst_observedPollGeneration new)"
    and merge_time_same: "rst_acceptedAt base = rst_acceptedAt new
      \<Longrightarrow> rst_acceptedAt (merge base new cur) = rst_acceptedAt cur"
    and merge_time_changed: "(rst_acceptedAt base = None) \<noteq> (rst_acceptedAt new = None)
      \<Longrightarrow> (rst_acceptedAt (merge base new cur) = None) = (rst_acceptedAt new = None)"
    and merge_time_either: "rst_acceptedAt (merge base new cur) = rst_acceptedAt cur
      \<or> (rst_acceptedAt (merge base new cur) = None) = (rst_acceptedAt new = None)"
    and merge_conditions_changed: "map cond_core (rst_conditions base) \<noteq> map cond_core (rst_conditions new)
      \<Longrightarrow> same_conditions (rst_conditions (merge base new cur)) (rst_conditions new)"
    and merge_conditions_either: "rst_conditions (merge base new cur) = rst_conditions cur
      \<or> same_conditions (rst_conditions (merge base new cur)) (rst_conditions new)"

definition json_merge ::
    "PollResponseStatus \<Rightarrow> PollResponseStatus \<Rightarrow> PollResponseStatus \<Rightarrow> PollResponseStatus" where
  "json_merge base new cur =
     \<lparr>rst_conditions = (if rst_conditions base = rst_conditions new then rst_conditions cur
                        else rst_conditions new),
      rst_phase = (if rst_phase base = rst_phase new then rst_phase cur else rst_phase new),
      rst_observedPollGeneration =
        (if rst_observedPollGeneration base = rst_observedPollGeneration new
         then rst_observedPollGeneration cur else rst_observedPollGeneration new),
      rst_acceptedAt = (if rst_acceptedAt base = rst_acceptedAt new then rst_acceptedAt cur
                        else rst_acceptedAt new)\<rparr>"

interpretation json: merge_patch json_merge
  by unfold_locales (auto simp: json_merge_def)

section \<open>Verdicts up to rounding\<close>

lemma find_status_core:
  "map cond_core a = map cond_core b
    \<Longrightarrow> map_option c_status (find_condition ty a) = map_option c_status (find_condition ty b)"
proof -
  assume "map cond_core a = map cond_core b"
  then have "map_option cond_core (find_condition ty a) = map_option cond_core (find_condition ty b)"
    using find_condition_map_core[of ty a] find_condition_map_core[of ty b] by simp
  then show ?thesis
    by (cases "find_condition ty a"; cases "find_condition ty b") (auto simp: cond_core_eq_iff)
qed

lemma verdict_consistent_cong:
  assumes "rst_phase a = rst_phase b" and "(rst_acceptedAt a = None) = (rst_acceptedAt b = None)"
    and "map cond_core (rst_conditions a) = map cond_core (rst_conditions b)"
  shows "verdict_consistent a = verdict_consistent b"
  unfolding verdict_consistent_def find_status_core[OF assms(3)] using assms(1,2) by simp

lemma find_condition_iff:
  "distinct (map c_type xs) \<Longrightarrow> find_condition ty xs = Some x \<longleftrightarrow> x \<in> set xs \<and> c_type x = ty"
  using find_condition_distinct[of xs x] find_condition_SomeD[of ty xs x] by auto

lemma find_status_le:
  assumes "distinct (map c_type a)" and "distinct (map c_type b)"
    and "set (map cond_core a) = set (map cond_core b)"
    and "map_option c_status (find_condition ty a) = Some s"
  shows "map_option c_status (find_condition ty b) = Some s"
proof -
  obtain x where x: "x \<in> set a" "c_type x = ty" "c_status x = s"
    using assms(4) find_condition_iff[OF assms(1)] by auto
  then have "cond_core x \<in> set (map cond_core b)"
    unfolding assms(3)[symmetric] by simp
  then obtain y where "y \<in> set b" "cond_core y = cond_core x" by auto
  then show ?thesis
    using find_condition_iff[OF assms(2), of ty y] x(2,3) by (auto simp: cond_core_eq_iff)
qed

lemma find_status_set:
  assumes "distinct (map c_type a)" and "distinct (map c_type b)"
    and "set (map cond_core a) = set (map cond_core b)"
  shows "map_option c_status (find_condition ty a) = map_option c_status (find_condition ty b)"
  using find_status_le[OF assms, of ty] find_status_le[OF assms(2,1) assms(3)[symmetric], of ty]
  by (cases "map_option c_status (find_condition ty a)") (metis option.exhaust)+

text \<open>A status that compares equal to a verdict is one.\<close>

lemma equal_verdict_consistent:
  assumes "responseStatusEqual st st'" and "verdict_consistent st'"
    and "distinct (map c_type (rst_conditions st))" and "distinct (map c_type (rst_conditions st'))"
  shows "verdict_consistent st"
proof -
  have "set (map cond_core (rst_conditions st)) = set (map cond_core (rst_conditions st'))"
    using responseStatusEqual_fields(4)[OF assms(1)] conditionsEqual_iff_set[OF assms(3,4)] by simp
  from find_status_set[OF assms(3,4) this]
  have "map_option c_status (find_condition ty (rst_conditions st))
      = map_option c_status (find_condition ty (rst_conditions st'))" for ty .
  then show ?thesis
    using assms(2) responseStatusEqual_fields(1,3)[OF assms(1)]
    by (auto simp: verdict_consistent_def timePtrEqual_iff)
qed

section \<open>Reconciling from stale reads\<close>

text \<open>What a reconcile may observe besides the status: a validator's verdict that fits.\<close>

definition view_ok :: "response_view \<Rightarrow> bool" where
  "view_ok v \<longleftrightarrow> (case v of (resp, pollGen, verdict, _) \<Rightarrow>
     0 \<le> sint (m_generation (r_meta resp))
     \<and> (case verdict of None \<Rightarrow> True
        | Some e \<Rightarrow> ve_reason e \<in> set known_reasons \<and> rune_count (ve_message e) \<le> 32768))"

text \<open>
  A configuration is the history of the server's status, newest first. A reconcile reads
  any of them, and when its status differs from the one it read, patches the newest.
\<close>

inductive stale_step ::
    "(gotime \<Rightarrow> condition \<Rightarrow> condition list \<Rightarrow> condition list) \<Rightarrow>
     (PollResponseStatus \<Rightarrow> PollResponseStatus \<Rightarrow> PollResponseStatus \<Rightarrow> PollResponseStatus) \<Rightarrow>
     PollResponseStatus list \<Rightarrow> PollResponseStatus list \<Rightarrow> bool"
  for ssc merge where
  reconcile: "cached \<in> set (srv # past) \<Longrightarrow> view_ok v \<Longrightarrow>
    \<not> responseStatusEqual cached (response_desired ssc v cached) \<Longrightarrow>
    stale_step ssc merge (srv # past) (merge cached (response_desired ssc v cached) srv # srv # past)"

inductive_cases stale_stepE: "stale_step ssc merge hist hist'"

definition fresh_response_status :: PollResponseStatus where
  "fresh_response_status = \<lparr>rst_conditions = [], rst_phase = '''', rst_observedPollGeneration = 0,
     rst_acceptedAt = None\<rparr>"

inductive stale_reachable ::
    "(gotime \<Rightarrow> condition \<Rightarrow> condition list \<Rightarrow> condition list) \<Rightarrow>
     (PollResponseStatus \<Rightarrow> PollResponseStatus \<Rightarrow> PollResponseStatus \<Rightarrow> PollResponseStatus) \<Rightarrow>
     PollResponseStatus list \<Rightarrow> bool"
  for ssc merge where
  created: "stale_reachable ssc merge [fresh_response_status]"
| step: "stale_reachable ssc merge hist \<Longrightarrow> stale_step ssc merge hist hist'
    \<Longrightarrow> stale_reachable ssc merge hist'"

context status_condition_setter
begin

lemma desired_schema_status:
  assumes "schema_response_status st" and "view_ok v"
  shows "schema_response_status (response_desired ssc v st)"
proof -
  obtain resp g verdict now t u where v: "v = (resp, g, verdict, now, t, u)" by (cases v)
  have conds: "schema_conditions (rst_conditions (r_status (resp\<lparr>r_status := st\<rparr>)))"
    and gen: "0 \<le> sint (m_generation (r_meta (resp\<lparr>r_status := st\<rparr>)))"
    using assms by (simp_all add: schema_response_status_def view_ok_def v)
  show ?thesis
    using accepted_schema[OF conds gen] rejected_schema_iff[OF conds gen] assms(2)
    by (simp add: response_desired_def view_ok_def v split: option.splits)
qed

lemma desired_consistent: "verdict_consistent (response_desired ssc v st)"
  using accepted_consistent rejected_consistent
  by (simp add: response_desired_def split: prod.split option.split)

end

lemma same_conditions_schema:
  assumes "same_conditions a b" and "schema_conditions b"
  shows "schema_conditions a"
proof -
  have len: "length a = length b" and types: "map c_type a = map c_type b"
    using assms(1) map_cond_core_types[of a] map_cond_core_types[of b]
    by (auto simp: same_conditions_def dest: map_eq_imp_length_eq)
  have "schema_condition (a ! i)" if i: "i < length a" for i
  proof -
    have ok: "schema_condition (b ! i)"
      using assms(2) i len by (simp add: schema_conditions_def list_all_length)
    then obtain u where u: "c_lastTransitionTime (b ! i) = Some u"
      by (auto simp: schema_condition_def)
    have eqs: "cond_core (a ! i) = cond_core (b ! i)"
      "(c_lastTransitionTime (a ! i) = None) = (c_lastTransitionTime (b ! i) = None)"
      using arg_cong[of _ _ "\<lambda>xs. xs ! i", OF conjunct1[OF assms(1)[unfolded same_conditions_def]]]
        arg_cong[of _ _ "\<lambda>xs. xs ! i", OF conjunct2[OF assms(1)[unfolded same_conditions_def]]] i len
      by simp_all
    have "(b ! i)\<lparr>c_lastTransitionTime := Some u\<rparr> = b ! i" using u by simp
    then have timed: "schema_condition ((b ! i)\<lparr>c_lastTransitionTime := Some u\<rparr>)" using ok by simp
    have "c_lastTransitionTime (a ! i) \<noteq> None" using eqs(2) u by simp
    from schema_condition_core[OF eqs(1) this timed] show ?thesis .
  qed
  then show ?thesis
    using assms(2) types by (simp add: schema_conditions_def list_all_length)
qed

context merge_patch
begin

lemma merge_schema:
  assumes "schema_response_status new" and "schema_response_status cur"
  shows "schema_response_status (merge base new cur)"
proof -
  have "schema_conditions (rst_conditions (merge base new cur))"
    using merge_conditions_either[of base new cur] same_conditions_schema assms
    by (auto simp: schema_response_status_def)
  then show ?thesis using assms by (simp add: schema_response_status_def merge_phase)
qed

text \<open>A patch against the current object writes what was asked for.\<close>

lemma merge_current:
  shows "rst_phase (merge cur new cur) = rst_phase new"
    and "(rst_acceptedAt (merge cur new cur) = None) = (rst_acceptedAt new = None)"
    and "map cond_core (rst_conditions (merge cur new cur)) = map cond_core (rst_conditions new)"
proof -
  show "rst_phase (merge cur new cur) = rst_phase new" by (simp add: merge_phase)
  show "(rst_acceptedAt (merge cur new cur) = None) = (rst_acceptedAt new = None)"
    using merge_time_changed[of cur new cur] merge_time_either[of cur new cur] by metis
  show "map cond_core (rst_conditions (merge cur new cur)) = map cond_core (rst_conditions new)"
    using merge_conditions_changed[of cur new cur] merge_conditions_either[of cur new cur]
    unfolding same_conditions_def by metis
qed

end

lemma stale_reachable_schema:
  assumes "status_condition_setter ssc" and "merge_patch merge" and "stale_reachable ssc merge hist"
  shows "list_all schema_response_status hist"
  using assms(3)
proof (induction rule: stale_reachable.induct)
  case created
  then show ?case
    by (simp add: fresh_response_status_def schema_response_status_def schema_conditions_def)
next
  case (step hist hist')
  from step.hyps(2) obtain srv past cached v where s: "hist = srv # past" "cached \<in> set hist" "view_ok v"
    "hist' = merge cached (response_desired ssc v cached) srv # srv # past"
    by (elim stale_stepE) auto
  have "schema_response_status cached" "schema_response_status srv"
    using step.IH s(1,2) by (auto simp: list_all_iff)
  then show ?case
    using merge_patch.merge_schema[OF assms(2)] step.IH s(1,3)
      status_condition_setter.desired_schema_status[OF assms(1)] by (simp add: s(4))
qed

end
