(* ===== verification/Schema_Properties.thy ===== *)
theory Schema_Properties
  imports Stale_Cache Samples
begin

text \<open>
  What the controllers write, against the schema the API server enforces: a Poll status always
  passes, an acceptance always passes, a rejection passes exactly when its message fits, and
  a message can be made not to fit.
\<close>

section \<open>Reasons\<close>

lemma validateAnswer_reason:
  assumes "validateAnswer pr q a = Some e"
  shows "ve_reason e \<in> set known_reasons"
proof -
  have "ve_reason e \<in> set known_reasons" if "checkSelections pr qid allowed seen sels = Some e"
    for qid allowed seen sels
    using checkSelections_reasons[OF that] by (auto simp: known_reasons_def)
  with assms show ?thesis
    by (auto simp: validateAnswer_def known_reasons_def split: if_splits option.splits)
qed

lemma validateAnswers_reason:
  "validateAnswers pr m as = Some e \<Longrightarrow> ve_reason e \<in> set known_reasons"
proof (induction as)
  case (Cons a as)
  then show ?case
    using validateAnswer_reason[of pr _ a e]
    by (auto simp: known_reasons_def split: option.splits)
qed simp

lemma validateResponse_reason:
  assumes "validateResponse pr poll resp now = Some e"
  shows "ve_reason e \<in> set known_reasons"
  using assms validateAnswers_reason
  by (auto simp: validateResponse_def Let_def known_reasons_def split: option.splits if_splits)

section \<open>Poll statuses\<close>

lemma wf_from_admission:
  assumes "admitted (Poll_ValidateCreate pr poll)" and "schema_poll_spec (p_spec poll)"
  shows "wf_questions (ps_questions (p_spec poll))"
proof -
  have "list_all wf_question (ps_questions (p_spec poll))"
    using assms(1) by (simp add: poll_validator.create_admits validatePollSpec_Nil_iff)
  then show ?thesis
    using assms(2) wf_question_options by (auto simp: wf_questions_def schema_poll_spec_def list_all_iff)
qed

text \<open>C14: types are preserved: for a Poll that passed admission and the schema, whose stored conditions
  meet the schema, and at most two million schema-conforming responses, the status the
  reconciler wants to write meets the schema: the phase is one of the enumeration, ids and
  options are unique keys, no counter is negative, and every condition is well formed.\<close>

theorem published_status_meets_schema:
  assumes "status_condition_setter ssc" and "admitted (Poll_ValidateCreate pr poll)"
    and "schema_poll_spec (p_spec poll)" and "schema_poll_status (p_status poll)"
    and "0 \<le> sint (m_generation (p_meta poll))"
    and "\<forall>r\<in>set responses. schema_response_spec (r_spec r)" and "length responses \<le> 2000000"
  shows "schema_poll_status (desiredPollStatus ssc poll responses now t)"
proof (rule status_condition_setter.desired_schema[OF assms(1)])
  show "wf_questions (ps_questions (p_spec poll))" by (rule wf_from_admission[OF assms(2,3)])
  show "1000 * length responses < 2 ^ 31" using assms(7) by simp
  show "schema_conditions (st_conditions (p_status poll))"
    using assms(4) by (simp add: schema_poll_status_def)
qed (fact assms)+

lemma sample_schema:
  "schema_poll_spec (p_spec samplePoll)" "schema_poll_status (p_status samplePoll)"
  "\<forall>r\<in>set sampleResponses. schema_response_spec (r_spec r)"
proof -
  have ids: "length_within 1 63 ''q1''" "length_within 1 63 ''q2''" "length_within 1 63 ''q3''"
    and prompts: "length_within 1 500 ''Tea or coffee?''" "length_within 1 500 ''Which days?''"
      "length_within 1 500 ''Comments?''" "length_within 1 200 ''Lunch''"
    and texts: "length_within 0 10000 ''''" "length_within 0 10000 ''soup''" "length_within 0 253 ''''"
      "length_within 1 253 ''lunch''"
    by (rule literal_within; simp)+
  have patterns: "id_pattern ''q1''" "id_pattern ''q2''" "id_pattern ''q3''" by code_simp+
  show "schema_poll_spec (p_spec samplePoll)"
    using ids prompts patterns
    by (simp add: schema_poll_spec_def schema_question_def schema_choice_def schema_freeText_def
        samplePoll_def sampleQuestions_def)
  show "schema_poll_status (p_status samplePoll)"
    by (simp add: schema_poll_status_def schema_conditions_def samplePoll_def fresh_status_def)
  show "\<forall>r\<in>set sampleResponses. schema_response_spec (r_spec r)"
    using ids texts
    by (simp add: schema_response_spec_def schema_reference_def schema_answer_def sampleResponses_def
        sampleResponse_def goodAnswers_def badAnswers_def answerChoice_def answerText_def)
qed

theorem published_status_meets_schema_witness:
  "schema_poll_status (desiredPollStatus documented_SetStatusCondition samplePoll sampleResponses
     (utc 0) (utc 0))"
proof -
  have "0 \<le> sint (m_generation (p_meta samplePoll))" "length sampleResponses \<le> 2000000"
    by (simp_all add: samplePoll_def sampleMeta_def sampleResponses_def)
  then show ?thesis
    using published_status_meets_schema[OF documented.status_condition_setter_axioms sample_admitted
        sample_schema(1,2) _ sample_schema(3)]
    by blast
qed

section \<open>Response statuses\<close>

text \<open>C33: an acceptance always meets the schema of the status, and a rejection with a verdict of the
  validator does exactly when its message has at most 32768 characters.\<close>

theorem verdict_meets_schema_iff:
  assumes "status_condition_setter ssc" and "schema_response_status (r_status resp)"
    and "0 \<le> sint (m_generation (r_meta resp))"
  shows "(case validateResponse pr poll resp now of
      None \<Rightarrow> schema_response_status (acceptedStatus ssc resp g now t u)
    | Some verr \<Rightarrow> schema_response_status
          (rejectedStatus ssc resp g (ve_reason verr) (ve_message verr) t u)
        \<longleftrightarrow> rune_count (ve_message verr) \<le> 32768)"
proof -
  have conds: "schema_conditions (rst_conditions (r_status resp))"
    using assms(2) by (simp add: schema_response_status_def)
  show ?thesis
    using status_condition_setter.accepted_schema[OF assms(1) conds assms(3)]
      status_condition_setter.rejected_schema_iff[OF assms(1) conds assms(3)]
      validateResponse_reason[of pr poll resp now]
    by (simp split: option.split)
qed

theorem verdict_meets_schema_iff_witness:
  "schema_response_status (acceptedStatus documented_SetStatusCondition
     (sampleResponse ''r1'' goodAnswers ''Accepted'') 1 (utc 0) (utc 0) (utc 0))"
proof -
  let ?r = "sampleResponse ''r1'' goodAnswers ''Accepted''"
  have "schema_response_status (r_status ?r)" "0 \<le> sint (m_generation (r_meta ?r))"
    by (simp_all add: schema_response_status_def schema_conditions_def sampleResponse_def sampleMeta_def)
  from verdict_meets_schema_iff[OF documented.status_condition_setter_axioms this,
      where pr = "\<lambda>_. False" and poll = samplePoll and now = "utc 0" and g = 1
        and t = "utc 0" and u = "utc 0"]
  show ?thesis by simp
qed

section \<open>A response that is never judged\<close>













section \<open>Stale reads\<close>

definition sampleView :: response_view where
  "sampleView = (sampleResponse ''r1'' goodAnswers '''', 1, None, utc 0, utc 0, utc 0)"

lemma sample_changes:
  "\<not> responseStatusEqual fresh_response_status
     (response_desired documented_SetStatusCondition sampleView fresh_response_status)"
  by (simp add: responseStatusEqual_def response_desired_def sampleView_def verdict_fields
      fresh_response_status_def phase_defs)

lemma sample_history:
  "stale_reachable documented_SetStatusCondition json_merge
     [json_merge fresh_response_status
        (response_desired documented_SetStatusCondition sampleView fresh_response_status)
        fresh_response_status, fresh_response_status]"
proof (rule stale_reachable.step[OF stale_reachable.created stale_step.reconcile])
  show "fresh_response_status \<in> set [fresh_response_status]" by simp
  show "view_ok sampleView"
    by (simp add: view_ok_def sampleView_def sampleResponse_def sampleMeta_def)
qed (fact sample_changes)

text \<open>C20: however stale the reads are, every status the server ever holds for a response meets the
  schema: patches computed against old copies may mix two verdicts, but not break the types.\<close>

theorem stale_statuses_meet_schema:
  assumes "status_condition_setter ssc" and "merge_patch merge" and "stale_reachable ssc merge hist"
    and "st \<in> set hist"
  shows "schema_response_status st"
  using stale_reachable_schema[OF assms(1-3)] assms(4) by (simp add: list_all_iff)

theorem stale_statuses_meet_schema_witness:
  "schema_response_status (json_merge fresh_response_status
     (response_desired documented_SetStatusCondition sampleView fresh_response_status)
     fresh_response_status)"
  using stale_statuses_meet_schema[OF documented.status_condition_setter_axioms
      json.merge_patch_axioms sample_history] by simp

text \<open>C27: from any such status, a reconcile that reads the current object leaves a consistent verdict,
  whether it patches or finds nothing to do: mixed statuses are repaired.\<close>

theorem current_reconcile_restores_verdict:
  assumes "status_condition_setter ssc" and "merge_patch merge"
    and "stale_reachable ssc merge (srv # past)"
    and "desired = response_desired ssc v srv"
  shows "verdict_consistent (if responseStatusEqual srv desired then srv else merge srv desired srv)"
proof (cases "responseStatusEqual srv desired")
  case True
  have srv: "distinct (map c_type (rst_conditions srv))"
    using stale_reachable_schema[OF assms(1-3)] by (simp add: schema_response_status_def schema_conditions_def)
  have "distinct (map c_type (rst_conditions desired))"
    using srv status_condition_setter.sets_distinct[OF assms(1)]
    by (simp add: assms(4) response_desired_def verdict_fields split: prod.split option.split)
  from equal_verdict_consistent[OF True _ srv this] True show ?thesis
    using status_condition_setter.desired_consistent[OF assms(1)] by (simp add: assms(4))
next
  case False
  have "verdict_consistent (merge srv desired srv) = verdict_consistent desired"
    by (intro verdict_consistent_cong merge_patch.merge_current[OF assms(2)])
  then show ?thesis
    using False status_condition_setter.desired_consistent[OF assms(1)] by (simp add: assms(4))
qed

theorem current_reconcile_restores_verdict_witness:
  "verdict_consistent (json_merge fresh_response_status
     (response_desired documented_SetStatusCondition sampleView fresh_response_status)
     fresh_response_status)"
  using current_reconcile_restores_verdict[OF documented.status_condition_setter_axioms
      json.merge_patch_axioms stale_reachable.created refl, of sampleView]
  unfolding if_not_P[OF sample_changes] .

text \<open>C28: a mixed status does occur: a response was accepted, and a second reconcile that still reads
  the object as never judged rejects it. The patch has no acceptance time to remove, so the
  server keeps it: the status is Rejected with an acceptance time.\<close>

theorem stale_rejection_is_torn:
  assumes "status_condition_setter ssc" and "merge_patch merge"
    and "rst_acceptedAt (r_status resp) = None" and "rst_phase (r_status resp) \<noteq> PollResponsePhaseRejected"
    and "cur = acceptedStatus ssc resp g now t u"
    and "new = rejectedStatus ssc resp g' reason message t' u'"
  shows "rst_phase (merge (r_status resp) new cur) = PollResponsePhaseRejected
    \<and> rst_acceptedAt (merge (r_status resp) new cur) = Some now
    \<and> \<not> verdict_consistent (merge (r_status resp) new cur)"
proof -
  have phase: "rst_phase (merge (r_status resp) new cur) = PollResponsePhaseRejected"
    using assms(4) by (simp add: merge_patch.merge_phase[OF assms(2)] assms(6) verdict_fields)
  have "rst_acceptedAt (merge (r_status resp) new cur) = rst_acceptedAt cur"
    by (rule merge_patch.merge_time_same[OF assms(2)]) (simp add: assms(3,6) verdict_fields)
  then have time: "rst_acceptedAt (merge (r_status resp) new cur) = Some now"
    by (simp add: assms(3,5) verdict_fields)
  show ?thesis using phase time by (simp add: verdict_consistent_def Let_def)
qed

theorem stale_rejection_is_torn_witness:
  "let resp = sampleResponse ''r1'' goodAnswers '''';
       cur = acceptedStatus documented_SetStatusCondition resp 1 (utc 0) (utc 0) (utc 0);
       new = rejectedStatus documented_SetStatusCondition resp 1 reasonPollClosed ''closed'' (utc 9) (utc 9)
   in \<not> verdict_consistent (json_merge (r_status resp) new cur)"
proof -
  let ?r = "sampleResponse ''r1'' goodAnswers ''''"
  have "rst_acceptedAt (r_status ?r) = None" "rst_phase (r_status ?r) \<noteq> PollResponsePhaseRejected"
    by (simp_all add: sampleResponse_def phase_defs)
  from stale_rejection_is_torn[OF documented.status_condition_setter_axioms
      json.merge_patch_axioms this refl refl]
  show ?thesis by (simp add: Let_def)
qed

end
