(* ===== verification/Go_Heap.thy ===== *)
theory Go_Heap
  imports Poll_Prelude
begin

text \<open>
  A heap of typed cells for the code whose point is aliasing, the generated deep copies.
  A pointer or slice is nil or the address of the cell that holds its target; memory grows
  by \<open>alloc\<close> and is never freed. \<open>copy_ptr\<close> and \<open>copy_slice\<close> are the two shapes of the
  generated code, over any type of cell. \<open>deep_copier\<close> is the contract of a copy: the result
  reads like the original and shares no memory with it. Values, pairs, structs, pointers
  and slices of copiers are copiers.
\<close>

section \<open>Memory\<close>

type_synonym addr = nat

record 'c heap =
  lim :: addr
  cells :: "addr \<Rightarrow> 'c option"

definition peek :: "'c heap \<Rightarrow> addr \<Rightarrow> 'c option" where
  "peek h a = (if a < lim h then cells h a else None)"

definition alloc :: "'c \<Rightarrow> 'c heap \<Rightarrow> addr \<times> 'c heap" where
  "alloc c h = (lim h, h\<lparr>lim := Suc (lim h), cells := (cells h)(lim h \<mapsto> c)\<rparr>)"

definition poke :: "addr \<Rightarrow> 'c \<Rightarrow> 'c heap \<Rightarrow> 'c heap" where
  "poke a c h = h\<lparr>cells := (cells h)(a \<mapsto> c)\<rparr>"

lemma lim_poke [simp]: "lim (poke a c h) = lim h"
  by (simp add: poke_def)

lemma lim_alloc [simp]: "lim (snd (alloc c h)) = Suc (lim h)"
  by (simp add: alloc_def)

lemma fst_alloc [simp]: "fst (alloc c h) = lim h"
  by (simp add: alloc_def)

lemma peek_poke: "peek (poke a c h) b = (if b = a \<and> a < lim h then Some c else peek h b)"
  by (simp add: peek_def poke_def)

lemma peek_alloc: "peek (snd (alloc c h)) b = (if b = lim h then Some c else peek h b)"
  by (simp add: peek_def alloc_def)

lemma peek_bound: "peek h a = Some c \<Longrightarrow> a < lim h"
  by (simp add: peek_def split: if_splits)

text \<open>\<open>h'\<close> has all of the memory of \<open>h\<close>, unchanged.\<close>

definition extends :: "'c heap \<Rightarrow> 'c heap \<Rightarrow> bool" where
  "extends h h' \<longleftrightarrow> lim h \<le> lim h' \<and> (\<forall>a<lim h. peek h' a = peek h a)"

lemma extends_refl [simp]: "extends h h"
  by (simp add: extends_def)

lemma extends_trans: "extends h h1 \<Longrightarrow> extends h1 h2 \<Longrightarrow> extends h h2"
  by (fastforce simp: extends_def)

lemma extends_alloc: "extends h (snd (alloc c h))"
  by (simp add: extends_def peek_alloc)

lemma extends_poke: "extends h h' \<Longrightarrow> lim h \<le> a \<Longrightarrow> extends h (poke a c h')"
  by (auto simp: extends_def peek_poke)

lemma extends_lim: "extends h h' \<Longrightarrow> lim h \<le> lim h'"
  by (simp add: extends_def)

section \<open>Types of cells\<close>

text \<open>How the values of one Go type are stored in a cell: a constructor and its inverse.\<close>

locale cell_type =
  fixes emb :: "'x \<Rightarrow> 'c" and prj :: "'c \<Rightarrow> 'x option"
  assumes prj_iff: "prj c = Some x \<longleftrightarrow> c = emb x"
begin

lemma prj_emb [simp]: "prj (emb x) = Some x"
  by (simp add: prj_iff)

end

definition load :: "('c \<Rightarrow> 'x option) \<Rightarrow> 'c heap \<Rightarrow> addr \<Rightarrow> 'x option" where
  "load prj h a = Option.bind (peek h a) prj"

lemma load_cong: "peek h' a = peek h a \<Longrightarrow> load prj h' a = load prj h a"
  by (simp add: load_def)

lemma load_bound: "load prj h a = Some x \<Longrightarrow> a < lim h"
  by (auto simp: load_def bind_eq_Some_conv dest: peek_bound)

section \<open>The generated code's two shapes\<close>

text \<open>
  \<open>if in == nil { return nil }; out := new(T); in.DeepCopyInto(out); return out\<close>, also inlined
  for a pointer field. A dangling pointer, which Go does not have, is treated like nil.
\<close>

definition copy_ptr :: "('x \<Rightarrow> 'c) \<Rightarrow> ('c \<Rightarrow> 'x option) \<Rightarrow> 'x \<Rightarrow> ('x \<Rightarrow> 'c heap \<Rightarrow> 'x \<times> 'c heap) \<Rightarrow>
    addr option \<Rightarrow> 'c heap \<Rightarrow> addr option \<times> 'c heap" where
  "copy_ptr emb prj zero into p h =
     (case p of None \<Rightarrow> (None, h)
      | Some src \<Rightarrow> (case load prj h src of None \<Rightarrow> (None, h)
         | Some x \<Rightarrow> (case alloc (emb zero) h of (dst, h1) \<Rightarrow>
                     case into x h1 of (y, h2) \<Rightarrow> (Some dst, poke dst (emb y) h2))))"

text \<open>\<open>(*in)[i].DeepCopyInto(&(*out)[i])\<close>\<close>

definition copy_item :: "('x list \<Rightarrow> 'c) \<Rightarrow> ('c \<Rightarrow> 'x list option) \<Rightarrow> ('x \<Rightarrow> 'c heap \<Rightarrow> 'x \<times> 'c heap) \<Rightarrow>
    addr \<Rightarrow> addr \<Rightarrow> nat \<Rightarrow> 'c heap \<Rightarrow> 'c heap" where
  "copy_item emb prj into src dst i h =
     (case load prj h src of None \<Rightarrow> h
      | Some xs \<Rightarrow> (case into (xs ! i) h of (y, h1) \<Rightarrow>
          (case load prj h1 dst of None \<Rightarrow> h1
           | Some ys \<Rightarrow> poke dst (emb (ys[i := y])) h1)))"

text \<open>\<open>*out = make([]T, len(*in)); for i := range *in { ... }\<close>, a nil slice staying nil.\<close>

definition copy_slice :: "('x list \<Rightarrow> 'c) \<Rightarrow> ('c \<Rightarrow> 'x list option) \<Rightarrow> 'x \<Rightarrow>
    ('x \<Rightarrow> 'c heap \<Rightarrow> 'x \<times> 'c heap) \<Rightarrow> addr option \<Rightarrow> 'c heap \<Rightarrow> addr option \<times> 'c heap" where
  "copy_slice emb prj zero into p h =
     (case p of None \<Rightarrow> (None, h)
      | Some src \<Rightarrow> (case load prj h src of None \<Rightarrow> (None, h)
         | Some xs \<Rightarrow> (case alloc (emb (replicate (length xs) zero)) h of (dst, h1) \<Rightarrow>
             (Some dst, fold (copy_item emb prj into src dst) [0..<length xs] h1))))"

text \<open>\<open>*out = make([]T, len(*in)); copy(*out, *in)\<close>: the built-in copies up to the shorter length.\<close>

definition copy_plain :: "('x list \<Rightarrow> 'c) \<Rightarrow> ('c \<Rightarrow> 'x list option) \<Rightarrow> 'x \<Rightarrow>
    addr option \<Rightarrow> 'c heap \<Rightarrow> addr option \<times> 'c heap" where
  "copy_plain emb prj zero p h =
     (case p of None \<Rightarrow> (None, h)
      | Some src \<Rightarrow> (case load prj h src of None \<Rightarrow> (None, h)
         | Some xs \<Rightarrow> (case alloc (emb (replicate (length xs) zero)) h of (dst, h1) \<Rightarrow>
             (case load prj h1 dst of None \<Rightarrow> (None, h1)
              | Some ys \<Rightarrow>
                  (Some dst, poke dst (emb (take (length ys) xs @ drop (length xs) ys)) h1)))))"

section \<open>What a reference denotes, and the memory it reaches\<close>

definition view_ptr :: "('c \<Rightarrow> 'x option) \<Rightarrow> ('c heap \<Rightarrow> 'x \<Rightarrow> 'v option) \<Rightarrow>
    'c heap \<Rightarrow> addr option \<Rightarrow> 'v option option" where
  "view_ptr prj view h p = (case p of None \<Rightarrow> Some None
     | Some a \<Rightarrow> (case load prj h a of None \<Rightarrow> None | Some x \<Rightarrow> map_option Some (view h x)))"

definition reach_ptr :: "('c \<Rightarrow> 'x option) \<Rightarrow> ('c heap \<Rightarrow> 'x \<Rightarrow> addr set) \<Rightarrow>
    'c heap \<Rightarrow> addr option \<Rightarrow> addr set" where
  "reach_ptr prj reach h p = (case p of None \<Rightarrow> {}
     | Some a \<Rightarrow> insert a (case load prj h a of None \<Rightarrow> {} | Some x \<Rightarrow> reach h x))"

definition view_slice :: "('c \<Rightarrow> 'x list option) \<Rightarrow> ('c heap \<Rightarrow> 'x \<Rightarrow> 'v option) \<Rightarrow>
    'c heap \<Rightarrow> addr option \<Rightarrow> 'v list option" where
  "view_slice prj view h p = (case p of None \<Rightarrow> Some []
     | Some a \<Rightarrow> (case load prj h a of None \<Rightarrow> None | Some xs \<Rightarrow> those (map (view h) xs)))"

definition reach_slice :: "('c \<Rightarrow> 'x list option) \<Rightarrow> ('c heap \<Rightarrow> 'x \<Rightarrow> addr set) \<Rightarrow>
    'c heap \<Rightarrow> addr option \<Rightarrow> addr set" where
  "reach_slice prj reach h p = (case p of None \<Rightarrow> {}
     | Some a \<Rightarrow> insert a (case load prj h a of None \<Rightarrow> {} | Some xs \<Rightarrow> \<Union>x\<in>set xs. reach h x))"

lemma those_Some_iff: "those ys = Some vs \<longleftrightarrow> ys = map Some vs"
  by (induction ys arbitrary: vs) (auto split: option.splits)

lemma those_view_iff:
  "those (map f xs) = Some vs \<longleftrightarrow> length vs = length xs \<and> (\<forall>i<length xs. f (xs ! i) = Some (vs ! i))"
  unfolding those_Some_iff by (auto simp: list_eq_iff_nth_eq)

section \<open>The contract of a deep copy\<close>

text \<open>
  \<open>view\<close> reads a value through its references (None where one dangles) and \<open>reach\<close> collects
  the addresses it goes through. What is read depends on those cells only; a copy denotes
  the same value, all of its cells are new, and nothing that was there changes.
\<close>

locale deep_copier =
  fixes copy :: "'x \<Rightarrow> 'c heap \<Rightarrow> 'x \<times> 'c heap"
    and view :: "'c heap \<Rightarrow> 'x \<Rightarrow> 'v option"
    and reach :: "'c heap \<Rightarrow> 'x \<Rightarrow> addr set"
  assumes frame: "view h x = Some v \<Longrightarrow> \<forall>a\<in>reach h x. peek h' a = peek h a
      \<Longrightarrow> view h' x = Some v \<and> reach h' x = reach h x"
    and bounded: "view h x = Some v \<Longrightarrow> reach h x \<subseteq> {..<lim h}"
    and copies: "view h x = Some v \<Longrightarrow> copy x h = (y, h')
      \<Longrightarrow> extends h h' \<and> view h' y = Some v \<and> reach h' y \<subseteq> {lim h..<lim h'}"
begin

lemma frame_extends:
  assumes "view h x = Some v" and "extends h h'"
  shows "view h' x = Some v" "reach h' x = reach h x"
  using frame[OF assms(1), of h'] bounded[OF assms(1)] assms(2) by (auto simp: extends_def)

lemma frame_outside:
  assumes "view h x = Some v" and "\<forall>a. a \<notin> W \<longrightarrow> peek h' a = peek h a" and "reach h x \<inter> W = {}"
  shows "view h' x = Some v" "reach h' x = reach h x"
  using frame[OF assms(1), of h'] assms(2,3) by auto

lemma frame_poke:
  assumes "view h x = Some v" and "a \<notin> reach h x"
  shows "view (poke a c h) x = Some v" "reach (poke a c h) x = reach h x"
  using frame_outside[OF assms(1), of "{a}" "poke a c h"] assms(2) by (simp_all add: peek_poke)

text \<open>A later write through the original leaves the copy alone, and the other way round.\<close>

lemma isolated:
  assumes "view h x = Some v" and "copy x h = (y, h')"
  shows "view h' x = Some v" "view h' y = Some v" "reach h' x \<inter> reach h' y = {}"
proof -
  have c: "extends h h'" "view h' y = Some v" "reach h' y \<subseteq> {lim h..<lim h'}"
    using copies[OF assms] by blast+
  have x: "view h' x = Some v" "reach h' x = reach h x"
    using frame_extends[OF assms(1) c(1)] by blast+
  show "view h' y = Some v" "view h' x = Some v" by fact+
  have "{..<lim h} \<inter> {lim h..<lim h'} = {}" by auto
  then show "reach h' x \<inter> reach h' y = {}"
    using c(3) bounded[OF assms(1)] unfolding x(2) by blast
qed

end

section \<open>Building copiers\<close>

text \<open>\<open>*out = *in\<close> on a type without references.\<close>

lemma value_copier: "deep_copier Pair (\<lambda>h x. Some (f x)) (\<lambda>h x. {})"
  by unfold_locales auto

text \<open>Two fields, one after the other.\<close>

definition copy_pair :: "('x \<Rightarrow> 'c heap \<Rightarrow> 'x \<times> 'c heap) \<Rightarrow> ('y \<Rightarrow> 'c heap \<Rightarrow> 'y \<times> 'c heap) \<Rightarrow>
    'x \<times> 'y \<Rightarrow> 'c heap \<Rightarrow> ('x \<times> 'y) \<times> 'c heap" where
  "copy_pair c d = (\<lambda>(x, y) h. case c x h of (x', h1) \<Rightarrow> case d y h1 of (y', h2) \<Rightarrow> ((x', y'), h2))"

definition view_pair :: "('c heap \<Rightarrow> 'x \<Rightarrow> 'v option) \<Rightarrow> ('c heap \<Rightarrow> 'y \<Rightarrow> 'w option) \<Rightarrow>
    'c heap \<Rightarrow> 'x \<times> 'y \<Rightarrow> ('v \<times> 'w) option" where
  "view_pair v w h = (\<lambda>(x, y). Option.bind (v h x) (\<lambda>a. map_option (Pair a) (w h y)))"

definition reach_pair :: "('c heap \<Rightarrow> 'x \<Rightarrow> addr set) \<Rightarrow> ('c heap \<Rightarrow> 'y \<Rightarrow> addr set) \<Rightarrow>
    'c heap \<Rightarrow> 'x \<times> 'y \<Rightarrow> addr set" where
  "reach_pair r s h = (\<lambda>(x, y). r h x \<union> s h y)"

lemma view_pair_Some:
  "view_pair v w h (x, y) = Some p \<longleftrightarrow> v h x = Some (fst p) \<and> w h y = Some (snd p)"
  by (cases p) (auto simp: view_pair_def bind_eq_Some_conv)

lemma pair_copier:
  fixes c :: "'x \<Rightarrow> 'c heap \<Rightarrow> 'x \<times> 'c heap" and d :: "'y \<Rightarrow> 'c heap \<Rightarrow> 'y \<times> 'c heap"
  assumes "deep_copier c v r" and "deep_copier d w s"
  shows "deep_copier (copy_pair c d) (view_pair v w) (reach_pair r s)"
proof
  fix h h' :: "'c heap" and x p
  obtain a :: 'x and b :: 'y where x: "x = (a, b)" by (cases x)
  assume "view_pair v w h x = Some p"
  then have va: "v h a = Some (fst p)" and vb: "w h b = Some (snd p)" by (simp_all add: x view_pair_Some)
  show "reach_pair r s h x \<subseteq> {..<lim h}"
    using deep_copier.bounded[OF assms(1) va] deep_copier.bounded[OF assms(2) vb]
    by (simp add: x reach_pair_def)
  show "view_pair v w h' x = Some p \<and> reach_pair r s h' x = reach_pair r s h x"
    if "\<forall>z\<in>reach_pair r s h x. peek h' z = peek h z"
    using that deep_copier.frame[OF assms(1) va, of h'] deep_copier.frame[OF assms(2) vb, of h']
    by (simp add: x view_pair_Some reach_pair_def)
  fix y
  assume copy: "copy_pair c d x h = (y, h')"
  obtain a' h1 where c: "c a h = (a', h1)" by fastforce
  obtain b' h2 where d: "d b h1 = (b', h2)" by fastforce
  have y: "y = (a', b')" "h' = h2" using copy by (simp_all add: copy_pair_def x c d)
  have ca: "extends h h1" "v h1 a' = Some (fst p)" "r h1 a' \<subseteq> {lim h..<lim h1}"
    using deep_copier.copies[OF assms(1) va c] by blast+
  have cb: "extends h1 h2" "w h2 b' = Some (snd p)" "s h2 b' \<subseteq> {lim h1..<lim h2}"
    using deep_copier.copies[OF assms(2) deep_copier.frame_extends(1)[OF assms(2) vb ca(1)] d] by blast+
  have va2: "v h2 a' = Some (fst p)" "r h2 a' = r h1 a'"
    using deep_copier.frame_extends[OF assms(1) ca(2) cb(1)] by blast+
  have "lim h \<le> lim h1" "lim h1 \<le> lim h2" using ca(1) cb(1) by (blast intro: extends_lim)+
  then have "r h2 a' \<union> s h2 b' \<subseteq> {lim h..<lim h2}"
    using ca(3) cb(3) unfolding va2(2) by fastforce
  then show "extends h h' \<and> view_pair v w h' y = Some p \<and> reach_pair r s h' y \<subseteq> {lim h..<lim h'}"
    using cb(2) va2(1) extends_trans[OF ca(1) cb(1)] by (simp add: y view_pair_Some reach_pair_def)
qed

text \<open>
  A struct whose references are in the part \<open>get\<close>: its copy starts from \<open>*out = *in\<close> and puts
  the copied part in place.
\<close>

lemma struct_copier:
  assumes "deep_copier c v r"
    and copy: "\<And>x h. copy x h = (case c (get x) h of (y, h1) \<Rightarrow> (put y x, h1))"
    and view: "\<And>h x. view h x = map_option (mk x) (v h (get x))"
    and reach: "\<And>h x. reach h x = r h (get x)"
    and get_put: "\<And>x y. get (put y x) = y" and mk_put: "\<And>x y. mk (put y x) = mk x"
  shows "deep_copier copy view reach"
proof
  fix h h' x w
  assume "view h x = Some w"
  then obtain u where u: "v h (get x) = Some u" "w = mk x u" by (auto simp: view)
  show "reach h x \<subseteq> {..<lim h}"
    using deep_copier.bounded[OF assms(1) u(1)] by (simp add: reach)
  show "view h' x = Some w \<and> reach h' x = reach h x" if "\<forall>a\<in>reach h x. peek h' a = peek h a"
    using that deep_copier.frame[OF assms(1) u(1), of h'] by (simp add: view reach u(2))
  fix z
  assume "copy x h = (z, h')"
  then obtain y where y: "c (get x) h = (y, h')" "z = put y x" by (auto simp: copy split: prod.splits)
  show "extends h h' \<and> view h' z = Some w \<and> reach h' z \<subseteq> {lim h..<lim h'}"
    using deep_copier.copies[OF assms(1) u(1) y(1)] by (simp add: y(2) view reach get_put mk_put u(2))
qed

text \<open>A pointer.\<close>

lemma view_ptr_Some:
  "view_ptr prj v h (Some a) = Some w \<longleftrightarrow> (\<exists>x u. load prj h a = Some x \<and> v h x = Some u \<and> w = Some u)"
  by (auto simp: view_ptr_def split: option.splits)

lemma view_slice_Some:
  "view_slice prj v h (Some a) = Some vs \<longleftrightarrow> (\<exists>xs. load prj h a = Some xs \<and> those (map (v h) xs) = Some vs)"
  by (auto simp: view_slice_def split: option.splits)

lemma load_poke:
  assumes "cell_type emb prj" and "a < lim h"
  shows "load prj (poke a (emb x) h) a = Some x"
  using assms(2) cell_type.prj_iff[OF assms(1)] by (simp add: load_def peek_poke)

lemma load_extends: "load prj h a = Some x \<Longrightarrow> extends h h' \<Longrightarrow> load prj h' a = Some x"
  using load_bound[of prj h a x] load_cong[of h' a h prj] by (simp add: extends_def)

lemma ptr_copier:
  fixes into :: "'x \<Rightarrow> 'c heap \<Rightarrow> 'x \<times> 'c heap"
  assumes cell: "cell_type emb prj" and into: "deep_copier into v r"
  shows "deep_copier (copy_ptr emb prj zero into) (view_ptr prj v) (reach_ptr prj r)"
proof
  fix h h' :: "'c heap" and p w
  assume view: "view_ptr prj v h p = Some w"
  show "view_ptr prj v h' p = Some w \<and> reach_ptr prj r h' p = reach_ptr prj r h p"
    if same: "\<forall>a\<in>reach_ptr prj r h p. peek h' a = peek h a"
  proof (cases p)
    case None
    with view show ?thesis by (simp add: view_ptr_def reach_ptr_def)
  next
    case (Some a)
    with view obtain x u where x: "load prj h a = Some x" "v h x = Some u" "w = Some u"
      by (auto simp: view_ptr_Some)
    have "load prj h' a = Some x"
      using same x(1) load_cong[of h' a h prj] by (simp add: Some reach_ptr_def)
    moreover have "v h' x = Some u \<and> r h' x = r h x"
      using same by (intro deep_copier.frame[OF into x(2)]) (simp add: Some reach_ptr_def x(1))
    ultimately show ?thesis by (simp add: Some x reach_ptr_def view_ptr_def)
  qed
  show "reach_ptr prj r h p \<subseteq> {..<lim h}"
    using view by (cases p) (auto simp: view_ptr_Some reach_ptr_def dest: load_bound
        dest!: deep_copier.bounded[OF into])
  fix q
  assume copy: "copy_ptr emb prj zero into p h = (q, h')"
  show "extends h h' \<and> view_ptr prj v h' q = Some w \<and> reach_ptr prj r h' q \<subseteq> {lim h..<lim h'}"
  proof (cases p)
    case None
    with view copy show ?thesis by (simp add: view_ptr_def reach_ptr_def copy_ptr_def)
  next
    case (Some a)
    with view obtain x u where x: "load prj h a = Some x" "v h x = Some u" "w = Some u"
      by (auto simp: view_ptr_Some)
    let ?h1 = "snd (alloc (emb zero) h)"
    obtain y h2 where y: "into x ?h1 = (y, h2)" by fastforce
    have q: "q = Some (lim h)" "h' = poke (lim h) (emb y) h2"
      using copy y by (simp_all add: copy_ptr_def Some x(1) alloc_def)
    have x1: "v ?h1 x = Some u"
      using deep_copier.frame_extends(1)[OF into x(2) extends_alloc] .
    have y2: "extends ?h1 h2" "v h2 y = Some u" "r h2 y \<subseteq> {Suc (lim h)..<lim h2}"
      using deep_copier.copies[OF into x1 y] by simp_all
    have lim: "lim h < lim h2" using extends_lim[OF y2(1)] by simp
    have out: "load prj h' (lim h) = Some y"
      using load_poke[OF cell lim] by (simp add: q(2))
    have "lim h \<notin> r h2 y" using y2(3) by auto
    from deep_copier.frame_poke[OF into y2(2) this, of "emb y"]
    have y': "v h' y = Some u" "r h' y = r h2 y" by (simp_all add: q(2))
    have "extends h h'"
      using extends_poke[OF extends_trans[OF extends_alloc y2(1)]] by (simp add: q(2))
    moreover have "insert (lim h) (r h2 y) \<subseteq> {lim h..<lim h'}"
      using y2(3) lim by (auto simp: q(2))
    ultimately show ?thesis by (simp add: q(1) view_ptr_def reach_ptr_def out y' x(3))
  qed
qed

text \<open>A slice: the loop has copied a prefix, and writes only the new array.\<close>

lemma copy_items:
  fixes into :: "'x \<Rightarrow> 'c heap \<Rightarrow> 'x \<times> 'c heap"
  assumes cell: "cell_type emb prj" and into: "deep_copier into v r"
    and src: "load prj h src = Some xs" and vs: "\<forall>i<length xs. v h (xs ! i) = Some (vs ! i)"
    and "i \<le> length xs"
    and "hi = fold (copy_item emb prj into src (lim h)) [0..<i]
           (snd (alloc (emb (replicate (length xs) zero)) h))"
  shows "extends h hi \<and> lim h < lim hi \<and> (\<exists>ys. load prj hi (lim h) = Some ys \<and> length ys = length xs
    \<and> (\<forall>j<i. v hi (ys ! j) = Some (vs ! j) \<and> r hi (ys ! j) \<subseteq> {Suc (lim h)..<lim hi}))"
  using assms(5,6)
proof (induction i arbitrary: hi)
  case 0
  then show ?case
    using cell_type.prj_emb[OF cell] by (simp add: extends_alloc load_def peek_alloc)
next
  case (Suc i)
  let ?step = "copy_item emb prj into src (lim h)"
  define h1 where "h1 = fold ?step [0..<i] (snd (alloc (emb (replicate (length xs) zero)) h))"
  from Suc.IH[OF _ h1_def] Suc.prems(1) obtain ys where ext: "extends h h1" and lim: "lim h < lim h1"
    and ys: "load prj h1 (lim h) = Some ys" "length ys = length xs"
    and copied: "\<And>j. j < i \<Longrightarrow> v h1 (ys ! j) = Some (vs ! j) \<and> r h1 (ys ! j) \<subseteq> {Suc (lim h)..<lim h1}"
    by auto
  have i: "i < length xs" using Suc.prems(1) by simp
  obtain y h2 where y: "into (xs ! i) h1 = (y, h2)" by fastforce
  have "v h1 (xs ! i) = Some (vs ! i)"
    using deep_copier.frame_extends(1)[OF into _ ext] vs i by blast
  from deep_copier.copies[OF into this y]
  have y2: "extends h1 h2" "v h2 y = Some (vs ! i)" "r h2 y \<subseteq> {lim h1..<lim h2}" by blast+
  have lim2: "lim h < lim h2" "lim h1 \<le> lim h2" using lim extends_lim[OF y2(1)] by simp_all
  have hi: "hi = poke (lim h) (emb (ys[i := y])) h2"
  proof -
    have "hi = ?step i h1" by (simp add: Suc.prems(2) h1_def)
    also have "\<dots> = poke (lim h) (emb (ys[i := y])) h2"
      using load_extends[OF src ext] load_extends[OF ys(1) y2(1)] y by (simp add: copy_item_def)
    finally show ?thesis .
  qed
  have old: "v hi (ys ! j) = Some (vs ! j) \<and> r hi (ys ! j) \<subseteq> {Suc (lim h)..<lim hi}" if "j < i" for j
  proof -
    have j: "v h1 (ys ! j) = Some (vs ! j)" "r h1 (ys ! j) \<subseteq> {Suc (lim h)..<lim h1}"
      using copied[OF that] by blast+
    note j2 = deep_copier.frame_extends[OF into j(1) y2(1)]
    have "lim h \<notin> r h2 (ys ! j)" using j(2) unfolding j2(2) by auto
    from deep_copier.frame_poke[OF into j2(1) this] j(2) lim2(2) show ?thesis
      unfolding hi j2(2) by fastforce
  qed
  have "lim h \<notin> r h2 y" using y2(3) lim by auto
  from deep_copier.frame_poke[OF into y2(2) this] y2(3) lim
  have new: "v hi y = Some (vs ! i) \<and> r hi y \<subseteq> {Suc (lim h)..<lim hi}"
    unfolding hi by fastforce
  have "extends h hi"
    using extends_poke[OF extends_trans[OF ext y2(1)]] by (simp add: hi)
  moreover have "load prj hi (lim h) = Some (ys[i := y])"
    unfolding hi by (rule load_poke[OF cell lim2(1)])
  moreover have "v hi (ys[i := y] ! j) = Some (vs ! j) \<and> r hi (ys[i := y] ! j) \<subseteq> {Suc (lim h)..<lim hi}"
    if "j < Suc i" for j
    using that old[of j] new i ys(2) by (cases "j = i") auto
  ultimately show ?case
    using lim2(1) ys(2) by (intro conjI exI[of _ "ys[i := y]"]) (auto simp: hi)
qed

lemma slice_frame:
  fixes into :: "'x \<Rightarrow> 'c heap \<Rightarrow> 'x \<times> 'c heap"
  assumes into: "deep_copier into v r" and view: "view_slice prj v h p = Some vs"
    and same: "\<forall>a\<in>reach_slice prj r h p. peek h' a = peek h a"
  shows "view_slice prj v h' p = Some vs \<and> reach_slice prj r h' p = reach_slice prj r h p"
proof (cases p)
  case None
  with view show ?thesis by (simp add: view_slice_def reach_slice_def)
next
  case (Some a)
  with view obtain xs where xs: "load prj h a = Some xs" "those (map (v h) xs) = Some vs"
    by (auto simp: view_slice_Some)
  have load: "load prj h' a = Some xs"
    using same xs(1) load_cong[of h' a h prj] by (simp add: Some reach_slice_def)
  have item: "v h' (xs ! i) = Some (vs ! i) \<and> r h' (xs ! i) = r h (xs ! i)" if "i < length xs" for i
  proof (rule deep_copier.frame[OF into])
    show "v h (xs ! i) = Some (vs ! i)" using xs(2) that by (simp add: those_view_iff)
    show "\<forall>b\<in>r h (xs ! i). peek h' b = peek h b"
      using same that by (auto simp: Some reach_slice_def xs(1))
  qed
  then have "those (map (v h') xs) = Some vs" "\<forall>x\<in>set xs. r h' x = r h x"
    using xs(2) by (auto simp: those_view_iff in_set_conv_nth)
  then show ?thesis by (simp add: Some view_slice_def reach_slice_def load xs(1))
qed

lemma slice_bounded:
  fixes into :: "'x \<Rightarrow> 'c heap \<Rightarrow> 'x \<times> 'c heap"
  assumes into: "deep_copier into v r" and view: "view_slice prj v h p = Some vs"
  shows "reach_slice prj r h p \<subseteq> {..<lim h}"
proof (cases p)
  case None
  then show ?thesis by (simp add: reach_slice_def)
next
  case (Some a)
  with view obtain xs where xs: "load prj h a = Some xs" "those (map (v h) xs) = Some vs"
    by (auto simp: view_slice_Some)
  have "r h x \<subseteq> {..<lim h}" if "x \<in> set xs" for x
    using that xs(2) deep_copier.bounded[OF into] unfolding those_view_iff in_set_conv_nth by blast
  then show ?thesis using load_bound[OF xs(1)] by (auto simp: Some reach_slice_def xs(1))
qed

lemma slice_copier:
  fixes into :: "'x \<Rightarrow> 'c heap \<Rightarrow> 'x \<times> 'c heap"
  assumes cell: "cell_type emb prj" and into: "deep_copier into v r"
  shows "deep_copier (copy_slice emb prj zero into) (view_slice prj v) (reach_slice prj r)"
proof
  fix h h' :: "'c heap" and p vs
  assume view: "view_slice prj v h p = Some vs"
  show "view_slice prj v h' p = Some vs \<and> reach_slice prj r h' p = reach_slice prj r h p"
    if "\<forall>a\<in>reach_slice prj r h p. peek h' a = peek h a"
    by (rule slice_frame[OF into view that])
  show "reach_slice prj r h p \<subseteq> {..<lim h}" by (rule slice_bounded[OF into view])
  fix q
  assume copy: "copy_slice emb prj zero into p h = (q, h')"
  show "extends h h' \<and> view_slice prj v h' q = Some vs \<and> reach_slice prj r h' q \<subseteq> {lim h..<lim h'}"
  proof (cases p)
    case None
    with view copy show ?thesis by (simp add: view_slice_def reach_slice_def copy_slice_def)
  next
    case (Some a)
    with view obtain xs where xs: "load prj h a = Some xs" "those (map (v h) xs) = Some vs"
      by (auto simp: view_slice_Some)
    have q: "q = Some (lim h)" and h': "h' = fold (copy_item emb prj into a (lim h)) [0..<length xs]
        (snd (alloc (emb (replicate (length xs) zero)) h))"
      using copy by (simp_all add: copy_slice_def Some xs(1) alloc_def)
    have "\<forall>i<length xs. v h (xs ! i) = Some (vs ! i)" using xs(2) by (simp add: those_view_iff)
    from copy_items[OF cell into xs(1) this order_refl h'] obtain ys where
      ys: "extends h h'" "lim h < lim h'" "load prj h' (lim h) = Some ys" "length ys = length xs"
      and items: "\<And>j. j < length xs \<Longrightarrow> v h' (ys ! j) = Some (vs ! j)
        \<and> r h' (ys ! j) \<subseteq> {Suc (lim h)..<lim h'}"
      by blast
    have "those (map (v h') ys) = Some vs"
      using items xs(2) by (simp add: those_view_iff ys(4))
    moreover have "r h' y \<subseteq> {lim h..<lim h'}" if "y \<in> set ys" for y
      using that items ys(4) by (fastforce simp: in_set_conv_nth)
    ultimately show ?thesis
      using ys(1,2) by (auto simp: q view_slice_def reach_slice_def ys(3))
  qed
qed

text \<open>The built-in copy gives what the loop over \<open>*out = *in\<close> gives.\<close>

lemma plain_copier:
  fixes prj :: "'c \<Rightarrow> 'x list option"
  assumes cell: "cell_type emb prj"
  shows "deep_copier (copy_plain emb prj zero) (view_slice prj (\<lambda>h x. Some (f x)))
    (reach_slice prj (\<lambda>h x. {}))"
proof
  fix h h' :: "'c heap" and p vs
  assume view: "view_slice prj (\<lambda>h x. Some (f x)) h p = Some vs"
  show "view_slice prj (\<lambda>h x. Some (f x)) h' p = Some vs
      \<and> reach_slice prj (\<lambda>h x. {}) h' p = reach_slice prj (\<lambda>h x. {}) h p"
    if "\<forall>a\<in>reach_slice prj (\<lambda>h x. {}) h p. peek h' a = peek h a"
    by (rule slice_frame[OF value_copier view that])
  show "reach_slice prj (\<lambda>h x. {}) h p \<subseteq> {..<lim h}" by (rule slice_bounded[OF value_copier view])
  fix q
  assume copy: "copy_plain emb prj zero p h = (q, h')"
  show "extends h h' \<and> view_slice prj (\<lambda>h x. Some (f x)) h' q = Some vs
      \<and> reach_slice prj (\<lambda>h x. {}) h' q \<subseteq> {lim h..<lim h'}"
  proof (cases p)
    case None
    with view copy show ?thesis by (simp add: view_slice_def reach_slice_def copy_plain_def)
  next
    case (Some a)
    with view obtain xs where xs: "load prj h a = Some xs" "those (map (\<lambda>x. Some (f x)) xs) = Some vs"
      by (auto simp: view_slice_Some)
    let ?h1 = "snd (alloc (emb (replicate (length xs) zero)) h)"
    have "load prj ?h1 (lim h) = Some (replicate (length xs) zero)"
      using cell_type.prj_emb[OF cell] by (simp add: load_def peek_alloc)
    then have q: "q = Some (lim h)" and h': "h' = poke (lim h) (emb xs) ?h1"
      using copy by (simp_all add: copy_plain_def Some xs(1) alloc_def)
    have "load prj h' (lim h) = Some xs"
      unfolding h' by (rule load_poke[OF cell]) simp
    moreover have "extends h h'"
      unfolding h' by (rule extends_poke[OF extends_alloc order_refl])
    ultimately show ?thesis
      using xs(2) by (auto simp: q view_slice_def reach_slice_def h')
  qed
qed

end
