(* ===== verification/Heap_Types.thy ===== *)
theory Heap_Types
  imports Go_Heap Poll_Types
begin

text \<open>
  The API types as they lie in memory: in the heap version \<open>g_T\<close> of a type \<open>T\<close> of
  \<open>Poll_Types\<close>, a pointer or slice field is nil or an address (a slice covers its whole array).
  A cell holds one target; \<open>as_...\<close> reads a cell at a type.
\<close>

section \<open>The types in memory\<close>

record type_meta =
  tm_kind :: string
  tm_apiVersion :: string

record list_meta =
  lm_resourceVersion :: string
  lm_continue :: string
  lm_remainingItemCount :: "int64 option"

record g_list_meta =
  glm_resourceVersion :: string
  glm_continue :: string
  glm_remainingItemCount :: "addr option"

record g_object_meta =
  gm_name :: string
  gm_generateName :: string
  gm_namespace :: string
  gm_uid :: string
  gm_generation :: int64
  gm_deletionTimestamp :: "addr option"
  gm_ownerReferences :: "addr option"

record g_ChoiceQuestion =
  gcq_options :: "addr option"
  gcq_allowMultipleChoices :: bool

record g_PollQuestion =
  gq_id :: string
  gq_prompt :: string
  gq_type :: QuestionType
  gq_choice :: "addr option"
  gq_freeText :: "addr option"

record g_PollSpec =
  gps_title :: string
  gps_questions :: "addr option"
  gps_closesAt :: "addr option"

record g_QuestionResult =
  gqr_questionID :: string
  gqr_options :: "addr option"
  gqr_responses :: int32

record g_PollStatus =
  gst_conditions :: "addr option"
  gst_phase :: PollPhase
  gst_openedAt :: "addr option"
  gst_closedAt :: "addr option"
  gst_results :: "addr option"
  gst_totalResponses :: int32

record g_Poll =
  gp_type :: type_meta
  gp_meta :: g_object_meta
  gp_spec :: g_PollSpec
  gp_status :: g_PollStatus

record g_PollList =
  gpl_type :: type_meta
  gpl_meta :: g_list_meta
  gpl_items :: "addr option"

record g_PollAnswer =
  ga_questionID :: string
  ga_selectedOptions :: "addr option"
  ga_text :: string

record g_PollResponseSpec =
  grs_pollRef :: PollReference
  grs_respondent :: string
  grs_answers :: "addr option"
  grs_submittedAt :: "addr option"

record g_PollResponseStatus =
  grst_conditions :: "addr option"
  grst_phase :: PollResponsePhase
  grst_observedPollGeneration :: int64
  grst_acceptedAt :: "addr option"

record g_PollResponse =
  gr_type :: type_meta
  gr_meta :: g_object_meta
  gr_spec :: g_PollResponseSpec
  gr_status :: g_PollResponseStatus

record g_PollResponseList =
  grl_type :: type_meta
  grl_meta :: g_list_meta
  grl_items :: "addr option"

text \<open>A cell holds the target of a pointer or the array behind a slice.\<close>

datatype cell =
    MStrings "string list" | MTime gotime | MInt64 int64
  | MOwners "owner_reference list" | MConditions "condition list"
  | MChoice g_ChoiceQuestion | MFreeText FreeTextQuestion
  | MQuestion g_PollQuestion | MQuestions "g_PollQuestion list"
  | MOption OptionResult | MOptions "OptionResult list"
  | MResult g_QuestionResult | MResults "g_QuestionResult list"
  | MAnswer g_PollAnswer | MAnswers "g_PollAnswer list"
  | MReference PollReference
  | MPollSpec g_PollSpec | MPollStatus g_PollStatus | MPoll g_Poll | MPolls "g_Poll list"
  | MPollList g_PollList
  | MResponseSpec g_PollResponseSpec | MResponseStatus g_PollResponseStatus
  | MResponse g_PollResponse | MResponses "g_PollResponse list" | MResponseList g_PollResponseList

type_synonym memory_heap = "cell heap"

definition as_strings where "as_strings c = (case c of MStrings x \<Rightarrow> Some x | _ \<Rightarrow> None)"
definition as_time where "as_time c = (case c of MTime x \<Rightarrow> Some x | _ \<Rightarrow> None)"
definition as_int64 where "as_int64 c = (case c of MInt64 x \<Rightarrow> Some x | _ \<Rightarrow> None)"
definition as_owners where "as_owners c = (case c of MOwners x \<Rightarrow> Some x | _ \<Rightarrow> None)"
definition as_conditions where "as_conditions c = (case c of MConditions x \<Rightarrow> Some x | _ \<Rightarrow> None)"
definition as_choice where "as_choice c = (case c of MChoice x \<Rightarrow> Some x | _ \<Rightarrow> None)"
definition as_freeText where "as_freeText c = (case c of MFreeText x \<Rightarrow> Some x | _ \<Rightarrow> None)"
definition as_question where "as_question c = (case c of MQuestion x \<Rightarrow> Some x | _ \<Rightarrow> None)"
definition as_questions where "as_questions c = (case c of MQuestions x \<Rightarrow> Some x | _ \<Rightarrow> None)"
definition as_option where "as_option c = (case c of MOption x \<Rightarrow> Some x | _ \<Rightarrow> None)"
definition as_options where "as_options c = (case c of MOptions x \<Rightarrow> Some x | _ \<Rightarrow> None)"
definition as_result where "as_result c = (case c of MResult x \<Rightarrow> Some x | _ \<Rightarrow> None)"
definition as_results where "as_results c = (case c of MResults x \<Rightarrow> Some x | _ \<Rightarrow> None)"
definition as_answer where "as_answer c = (case c of MAnswer x \<Rightarrow> Some x | _ \<Rightarrow> None)"
definition as_answers where "as_answers c = (case c of MAnswers x \<Rightarrow> Some x | _ \<Rightarrow> None)"
definition as_reference where "as_reference c = (case c of MReference x \<Rightarrow> Some x | _ \<Rightarrow> None)"
definition as_pollSpec where "as_pollSpec c = (case c of MPollSpec x \<Rightarrow> Some x | _ \<Rightarrow> None)"
definition as_pollStatus where "as_pollStatus c = (case c of MPollStatus x \<Rightarrow> Some x | _ \<Rightarrow> None)"
definition as_poll where "as_poll c = (case c of MPoll x \<Rightarrow> Some x | _ \<Rightarrow> None)"
definition as_polls where "as_polls c = (case c of MPolls x \<Rightarrow> Some x | _ \<Rightarrow> None)"
definition as_pollList where "as_pollList c = (case c of MPollList x \<Rightarrow> Some x | _ \<Rightarrow> None)"
definition as_responseSpec where "as_responseSpec c = (case c of MResponseSpec x \<Rightarrow> Some x | _ \<Rightarrow> None)"
definition as_responseStatus where "as_responseStatus c = (case c of MResponseStatus x \<Rightarrow> Some x | _ \<Rightarrow> None)"
definition as_response where "as_response c = (case c of MResponse x \<Rightarrow> Some x | _ \<Rightarrow> None)"
definition as_responses where "as_responses c = (case c of MResponses x \<Rightarrow> Some x | _ \<Rightarrow> None)"
definition as_responseList where "as_responseList c = (case c of MResponseList x \<Rightarrow> Some x | _ \<Rightarrow> None)"

lemmas as_defs =
  as_strings_def as_time_def as_int64_def as_owners_def as_conditions_def as_choice_def as_freeText_def as_question_def as_questions_def as_option_def as_options_def as_result_def as_results_def as_answer_def as_answers_def as_reference_def as_pollSpec_def as_pollStatus_def as_poll_def as_polls_def as_pollList_def as_responseSpec_def as_responseStatus_def as_response_def as_responses_def as_responseList_def

interpretation cell_strings: cell_type MStrings as_strings
  by unfold_locales (simp add: as_strings_def split: cell.split)
interpretation cell_time: cell_type MTime as_time
  by unfold_locales (simp add: as_time_def split: cell.split)
interpretation cell_int64: cell_type MInt64 as_int64
  by unfold_locales (simp add: as_int64_def split: cell.split)
interpretation cell_owners: cell_type MOwners as_owners
  by unfold_locales (simp add: as_owners_def split: cell.split)
interpretation cell_conditions: cell_type MConditions as_conditions
  by unfold_locales (simp add: as_conditions_def split: cell.split)
interpretation cell_choice: cell_type MChoice as_choice
  by unfold_locales (simp add: as_choice_def split: cell.split)
interpretation cell_freeText: cell_type MFreeText as_freeText
  by unfold_locales (simp add: as_freeText_def split: cell.split)
interpretation cell_question: cell_type MQuestion as_question
  by unfold_locales (simp add: as_question_def split: cell.split)
interpretation cell_questions: cell_type MQuestions as_questions
  by unfold_locales (simp add: as_questions_def split: cell.split)
interpretation cell_option: cell_type MOption as_option
  by unfold_locales (simp add: as_option_def split: cell.split)
interpretation cell_options: cell_type MOptions as_options
  by unfold_locales (simp add: as_options_def split: cell.split)
interpretation cell_result: cell_type MResult as_result
  by unfold_locales (simp add: as_result_def split: cell.split)
interpretation cell_results: cell_type MResults as_results
  by unfold_locales (simp add: as_results_def split: cell.split)
interpretation cell_answer: cell_type MAnswer as_answer
  by unfold_locales (simp add: as_answer_def split: cell.split)
interpretation cell_answers: cell_type MAnswers as_answers
  by unfold_locales (simp add: as_answers_def split: cell.split)
interpretation cell_reference: cell_type MReference as_reference
  by unfold_locales (simp add: as_reference_def split: cell.split)
interpretation cell_pollSpec: cell_type MPollSpec as_pollSpec
  by unfold_locales (simp add: as_pollSpec_def split: cell.split)
interpretation cell_pollStatus: cell_type MPollStatus as_pollStatus
  by unfold_locales (simp add: as_pollStatus_def split: cell.split)
interpretation cell_poll: cell_type MPoll as_poll
  by unfold_locales (simp add: as_poll_def split: cell.split)
interpretation cell_polls: cell_type MPolls as_polls
  by unfold_locales (simp add: as_polls_def split: cell.split)
interpretation cell_pollList: cell_type MPollList as_pollList
  by unfold_locales (simp add: as_pollList_def split: cell.split)
interpretation cell_responseSpec: cell_type MResponseSpec as_responseSpec
  by unfold_locales (simp add: as_responseSpec_def split: cell.split)
interpretation cell_responseStatus: cell_type MResponseStatus as_responseStatus
  by unfold_locales (simp add: as_responseStatus_def split: cell.split)
interpretation cell_response: cell_type MResponse as_response
  by unfold_locales (simp add: as_response_def split: cell.split)
interpretation cell_responses: cell_type MResponses as_responses
  by unfold_locales (simp add: as_responses_def split: cell.split)
interpretation cell_responseList: cell_type MResponseList as_responseList
  by unfold_locales (simp add: as_responseList_def split: cell.split)

end
