(* ===== verification/Deep_Copy.thy ===== *)
theory Deep_Copy
  imports Heap_Types
begin

text \<open>
  The generated deep copies, \<open>api/v1/zz_generated.deepcopy.go\<close>, over the heap of \<open>Heap_Types\<close>.
  \<open>T_DeepCopyInto\<close> takes the receiver's value and returns what it leaves in \<open>*out\<close>; \<open>T_DeepCopy\<close>
  takes and returns a pointer. The copies of \<open>metav1.Time\<close>, \<open>Condition\<close>, \<open>ObjectMeta\<close> and
  \<open>ListMeta\<close> are library code: a parameter \<open>copy_lib\<close>.
\<close>

section \<open>Zero values\<close>

definition zero_object_meta :: g_object_meta where
  "zero_object_meta = \<lparr>gm_name = '''', gm_generateName = '''', gm_namespace = '''', gm_uid = '''',
     gm_generation = 0, gm_deletionTimestamp = None, gm_ownerReferences = None\<rparr>"

definition zero_type_meta :: type_meta where
  "zero_type_meta = \<lparr>tm_kind = '''', tm_apiVersion = ''''\<rparr>"

definition zero_list_meta :: g_list_meta where
  "zero_list_meta = \<lparr>glm_resourceVersion = '''', glm_continue = '''', glm_remainingItemCount = None\<rparr>"

definition zero_condition :: condition where
  "zero_condition = \<lparr>c_type = '''', c_status = '''', c_observedGeneration = 0,
     c_lastTransitionTime = None, c_reason = '''', c_message = ''''\<rparr>"

definition zero_choice :: g_ChoiceQuestion where
  "zero_choice = \<lparr>gcq_options = None, gcq_allowMultipleChoices = False\<rparr>"

definition zero_freeText :: FreeTextQuestion where
  "zero_freeText = \<lparr>fq_maxResponseLength = 0\<rparr>"

definition zero_question :: g_PollQuestion where
  "zero_question = \<lparr>gq_id = '''', gq_prompt = '''', gq_type = '''', gq_choice = None, gq_freeText = None\<rparr>"

definition zero_pollSpec :: g_PollSpec where
  "zero_pollSpec = \<lparr>gps_title = '''', gps_questions = None, gps_closesAt = None\<rparr>"

definition zero_option :: OptionResult where
  "zero_option = \<lparr>opt_option = '''', opt_votes = 0\<rparr>"

definition zero_result :: g_QuestionResult where
  "zero_result = \<lparr>gqr_questionID = '''', gqr_options = None, gqr_responses = 0\<rparr>"

definition zero_pollStatus :: g_PollStatus where
  "zero_pollStatus = \<lparr>gst_conditions = None, gst_phase = '''', gst_openedAt = None,
     gst_closedAt = None, gst_results = None, gst_totalResponses = 0\<rparr>"

definition zero_poll :: g_Poll where
  "zero_poll = \<lparr>gp_type = zero_type_meta, gp_meta = zero_object_meta, gp_spec = zero_pollSpec,
     gp_status = zero_pollStatus\<rparr>"

definition zero_pollList :: g_PollList where
  "zero_pollList = \<lparr>gpl_type = zero_type_meta, gpl_meta = zero_list_meta, gpl_items = None\<rparr>"

definition zero_answer :: g_PollAnswer where
  "zero_answer = \<lparr>ga_questionID = '''', ga_selectedOptions = None, ga_text = ''''\<rparr>"

definition zero_reference :: PollReference where
  "zero_reference = \<lparr>ref_name = ''''\<rparr>"

definition zero_responseSpec :: g_PollResponseSpec where
  "zero_responseSpec = \<lparr>grs_pollRef = zero_reference, grs_respondent = '''', grs_answers = None,
     grs_submittedAt = None\<rparr>"

definition zero_responseStatus :: g_PollResponseStatus where
  "zero_responseStatus = \<lparr>grst_conditions = None, grst_phase = '''', grst_observedPollGeneration = 0,
     grst_acceptedAt = None\<rparr>"

definition zero_response :: g_PollResponse where
  "zero_response = \<lparr>gr_type = zero_type_meta, gr_meta = zero_object_meta, gr_spec = zero_responseSpec,
     gr_status = zero_responseStatus\<rparr>"

definition zero_responseList :: g_PollResponseList where
  "zero_responseList = \<lparr>grl_type = zero_type_meta, grl_meta = zero_list_meta, grl_items = None\<rparr>"

section \<open>The library's copies\<close>

record copy_lib =
  lib_time :: "addr option \<Rightarrow> memory_heap \<Rightarrow> addr option \<times> memory_heap"
  lib_condition :: "condition \<Rightarrow> memory_heap \<Rightarrow> condition \<times> memory_heap"
  lib_objectMeta :: "g_object_meta \<Rightarrow> memory_heap \<Rightarrow> g_object_meta \<times> memory_heap"
  lib_listMeta :: "g_list_meta \<Rightarrow> memory_heap \<Rightarrow> g_list_meta \<times> memory_heap"

text \<open>\<open>if in.F != nil { *out = (*in).DeepCopy() }\<close> for a field of type \<open>*metav1.Time\<close>.\<close>

definition copy_time ::
    "copy_lib \<Rightarrow> addr option \<Rightarrow> memory_heap \<Rightarrow> addr option \<times> memory_heap" where
  "copy_time lib p h = (case p of None \<Rightarrow> (None, h) | Some a \<Rightarrow> lib_time lib (Some a) h)"

section \<open>The types of a Poll\<close>

definition ChoiceQuestion_DeepCopyInto ::
    "g_ChoiceQuestion \<Rightarrow> memory_heap \<Rightarrow> g_ChoiceQuestion \<times> memory_heap" where
  "ChoiceQuestion_DeepCopyInto x h =
     (case copy_plain MStrings as_strings '''' (gcq_options x) h of (p, h1) \<Rightarrow>
        (x\<lparr>gcq_options := p\<rparr>, h1))"

definition ChoiceQuestion_DeepCopy :: "addr option \<Rightarrow> memory_heap \<Rightarrow> addr option \<times> memory_heap" where
  "ChoiceQuestion_DeepCopy = copy_ptr MChoice as_choice zero_choice ChoiceQuestion_DeepCopyInto"

definition FreeTextQuestion_DeepCopyInto ::
    "FreeTextQuestion \<Rightarrow> memory_heap \<Rightarrow> FreeTextQuestion \<times> memory_heap" where
  "FreeTextQuestion_DeepCopyInto x h = (x, h)"

definition FreeTextQuestion_DeepCopy :: "addr option \<Rightarrow> memory_heap \<Rightarrow> addr option \<times> memory_heap" where
  "FreeTextQuestion_DeepCopy = copy_ptr MFreeText as_freeText zero_freeText FreeTextQuestion_DeepCopyInto"

definition OptionResult_DeepCopyInto :: "OptionResult \<Rightarrow> memory_heap \<Rightarrow> OptionResult \<times> memory_heap" where
  "OptionResult_DeepCopyInto x h = (x, h)"

definition OptionResult_DeepCopy :: "addr option \<Rightarrow> memory_heap \<Rightarrow> addr option \<times> memory_heap" where
  "OptionResult_DeepCopy = copy_ptr MOption as_option zero_option OptionResult_DeepCopyInto"

text \<open>The \<open>FreeText\<close> field is copied in place, \<open>**out = **in\<close>.\<close>

definition PollQuestion_DeepCopyInto ::
    "g_PollQuestion \<Rightarrow> memory_heap \<Rightarrow> g_PollQuestion \<times> memory_heap" where
  "PollQuestion_DeepCopyInto x h =
     (case copy_ptr MChoice as_choice zero_choice ChoiceQuestion_DeepCopyInto (gq_choice x) h of
        (c, h1) \<Rightarrow> case copy_ptr MFreeText as_freeText zero_freeText Pair (gq_freeText x) h1 of
          (f, h2) \<Rightarrow> (x\<lparr>gq_choice := c, gq_freeText := f\<rparr>, h2))"

definition PollQuestion_DeepCopy :: "addr option \<Rightarrow> memory_heap \<Rightarrow> addr option \<times> memory_heap" where
  "PollQuestion_DeepCopy = copy_ptr MQuestion as_question zero_question PollQuestion_DeepCopyInto"

definition PollSpec_DeepCopyInto ::
    "copy_lib \<Rightarrow> g_PollSpec \<Rightarrow> memory_heap \<Rightarrow> g_PollSpec \<times> memory_heap" where
  "PollSpec_DeepCopyInto lib x h =
     (case copy_slice MQuestions as_questions zero_question PollQuestion_DeepCopyInto (gps_questions x) h of
        (qs, h1) \<Rightarrow> case copy_time lib (gps_closesAt x) h1 of
          (t, h2) \<Rightarrow> (x\<lparr>gps_questions := qs, gps_closesAt := t\<rparr>, h2))"

definition PollSpec_DeepCopy ::
    "copy_lib \<Rightarrow> addr option \<Rightarrow> memory_heap \<Rightarrow> addr option \<times> memory_heap" where
  "PollSpec_DeepCopy lib = copy_ptr MPollSpec as_pollSpec zero_pollSpec (PollSpec_DeepCopyInto lib)"

definition QuestionResult_DeepCopyInto ::
    "g_QuestionResult \<Rightarrow> memory_heap \<Rightarrow> g_QuestionResult \<times> memory_heap" where
  "QuestionResult_DeepCopyInto x h =
     (case copy_plain MOptions as_options zero_option (gqr_options x) h of (p, h1) \<Rightarrow>
        (x\<lparr>gqr_options := p\<rparr>, h1))"

definition QuestionResult_DeepCopy :: "addr option \<Rightarrow> memory_heap \<Rightarrow> addr option \<times> memory_heap" where
  "QuestionResult_DeepCopy = copy_ptr MResult as_result zero_result QuestionResult_DeepCopyInto"

definition PollStatus_DeepCopyInto ::
    "copy_lib \<Rightarrow> g_PollStatus \<Rightarrow> memory_heap \<Rightarrow> g_PollStatus \<times> memory_heap" where
  "PollStatus_DeepCopyInto lib x h =
     (case copy_slice MConditions as_conditions zero_condition (lib_condition lib) (gst_conditions x) h of
        (cs, h1) \<Rightarrow> case copy_time lib (gst_openedAt x) h1 of
        (o', h2) \<Rightarrow> case copy_time lib (gst_closedAt x) h2 of
        (c, h3) \<Rightarrow> case copy_slice MResults as_results zero_result QuestionResult_DeepCopyInto
                          (gst_results x) h3 of
        (rs, h4) \<Rightarrow>
          (x\<lparr>gst_conditions := cs, gst_openedAt := o', gst_closedAt := c, gst_results := rs\<rparr>, h4))"

definition PollStatus_DeepCopy ::
    "copy_lib \<Rightarrow> addr option \<Rightarrow> memory_heap \<Rightarrow> addr option \<times> memory_heap" where
  "PollStatus_DeepCopy lib =
     copy_ptr MPollStatus as_pollStatus zero_pollStatus (PollStatus_DeepCopyInto lib)"

definition Poll_DeepCopyInto :: "copy_lib \<Rightarrow> g_Poll \<Rightarrow> memory_heap \<Rightarrow> g_Poll \<times> memory_heap" where
  "Poll_DeepCopyInto lib x h =
     (case lib_objectMeta lib (gp_meta x) h of (m, h1) \<Rightarrow>
      case PollSpec_DeepCopyInto lib (gp_spec x) h1 of (sp, h2) \<Rightarrow>
      case PollStatus_DeepCopyInto lib (gp_status x) h2 of (st, h3) \<Rightarrow>
        (x\<lparr>gp_meta := m, gp_spec := sp, gp_status := st\<rparr>, h3))"

definition Poll_DeepCopy :: "copy_lib \<Rightarrow> addr option \<Rightarrow> memory_heap \<Rightarrow> addr option \<times> memory_heap" where
  "Poll_DeepCopy lib = copy_ptr MPoll as_poll zero_poll (Poll_DeepCopyInto lib)"

definition PollList_DeepCopyInto ::
    "copy_lib \<Rightarrow> g_PollList \<Rightarrow> memory_heap \<Rightarrow> g_PollList \<times> memory_heap" where
  "PollList_DeepCopyInto lib x h =
     (case lib_listMeta lib (gpl_meta x) h of (m, h1) \<Rightarrow>
      case copy_slice MPolls as_polls zero_poll (Poll_DeepCopyInto lib) (gpl_items x) h1 of (ps, h2) \<Rightarrow>
        (x\<lparr>gpl_meta := m, gpl_items := ps\<rparr>, h2))"

definition PollList_DeepCopy ::
    "copy_lib \<Rightarrow> addr option \<Rightarrow> memory_heap \<Rightarrow> addr option \<times> memory_heap" where
  "PollList_DeepCopy lib = copy_ptr MPollList as_pollList zero_pollList (PollList_DeepCopyInto lib)"

section \<open>The types of a PollResponse\<close>

definition PollAnswer_DeepCopyInto :: "g_PollAnswer \<Rightarrow> memory_heap \<Rightarrow> g_PollAnswer \<times> memory_heap" where
  "PollAnswer_DeepCopyInto x h =
     (case copy_plain MStrings as_strings '''' (ga_selectedOptions x) h of (p, h1) \<Rightarrow>
        (x\<lparr>ga_selectedOptions := p\<rparr>, h1))"

definition PollAnswer_DeepCopy :: "addr option \<Rightarrow> memory_heap \<Rightarrow> addr option \<times> memory_heap" where
  "PollAnswer_DeepCopy = copy_ptr MAnswer as_answer zero_answer PollAnswer_DeepCopyInto"

definition PollReference_DeepCopyInto :: "PollReference \<Rightarrow> memory_heap \<Rightarrow> PollReference \<times> memory_heap" where
  "PollReference_DeepCopyInto x h = (x, h)"

definition PollReference_DeepCopy :: "addr option \<Rightarrow> memory_heap \<Rightarrow> addr option \<times> memory_heap" where
  "PollReference_DeepCopy = copy_ptr MReference as_reference zero_reference PollReference_DeepCopyInto"

definition PollResponseSpec_DeepCopyInto ::
    "copy_lib \<Rightarrow> g_PollResponseSpec \<Rightarrow> memory_heap \<Rightarrow> g_PollResponseSpec \<times> memory_heap" where
  "PollResponseSpec_DeepCopyInto lib x h =
     (case copy_slice MAnswers as_answers zero_answer PollAnswer_DeepCopyInto (grs_answers x) h of
        (as, h1) \<Rightarrow> case copy_time lib (grs_submittedAt x) h1 of
          (t, h2) \<Rightarrow> (x\<lparr>grs_answers := as, grs_submittedAt := t\<rparr>, h2))"

definition PollResponseSpec_DeepCopy ::
    "copy_lib \<Rightarrow> addr option \<Rightarrow> memory_heap \<Rightarrow> addr option \<times> memory_heap" where
  "PollResponseSpec_DeepCopy lib =
     copy_ptr MResponseSpec as_responseSpec zero_responseSpec (PollResponseSpec_DeepCopyInto lib)"

definition PollResponseStatus_DeepCopyInto ::
    "copy_lib \<Rightarrow> g_PollResponseStatus \<Rightarrow> memory_heap \<Rightarrow> g_PollResponseStatus \<times> memory_heap" where
  "PollResponseStatus_DeepCopyInto lib x h =
     (case copy_slice MConditions as_conditions zero_condition (lib_condition lib) (grst_conditions x) h of
        (cs, h1) \<Rightarrow> case copy_time lib (grst_acceptedAt x) h1 of
          (t, h2) \<Rightarrow> (x\<lparr>grst_conditions := cs, grst_acceptedAt := t\<rparr>, h2))"

definition PollResponseStatus_DeepCopy ::
    "copy_lib \<Rightarrow> addr option \<Rightarrow> memory_heap \<Rightarrow> addr option \<times> memory_heap" where
  "PollResponseStatus_DeepCopy lib =
     copy_ptr MResponseStatus as_responseStatus zero_responseStatus (PollResponseStatus_DeepCopyInto lib)"

definition PollResponse_DeepCopyInto ::
    "copy_lib \<Rightarrow> g_PollResponse \<Rightarrow> memory_heap \<Rightarrow> g_PollResponse \<times> memory_heap" where
  "PollResponse_DeepCopyInto lib x h =
     (case lib_objectMeta lib (gr_meta x) h of (m, h1) \<Rightarrow>
      case PollResponseSpec_DeepCopyInto lib (gr_spec x) h1 of (sp, h2) \<Rightarrow>
      case PollResponseStatus_DeepCopyInto lib (gr_status x) h2 of (st, h3) \<Rightarrow>
        (x\<lparr>gr_meta := m, gr_spec := sp, gr_status := st\<rparr>, h3))"

definition PollResponse_DeepCopy ::
    "copy_lib \<Rightarrow> addr option \<Rightarrow> memory_heap \<Rightarrow> addr option \<times> memory_heap" where
  "PollResponse_DeepCopy lib = copy_ptr MResponse as_response zero_response (PollResponse_DeepCopyInto lib)"

definition PollResponseList_DeepCopyInto ::
    "copy_lib \<Rightarrow> g_PollResponseList \<Rightarrow> memory_heap \<Rightarrow> g_PollResponseList \<times> memory_heap" where
  "PollResponseList_DeepCopyInto lib x h =
     (case lib_listMeta lib (grl_meta x) h of (m, h1) \<Rightarrow>
      case copy_slice MResponses as_responses zero_response (PollResponse_DeepCopyInto lib)
             (grl_items x) h1 of (rs, h2) \<Rightarrow>
        (x\<lparr>grl_meta := m, grl_items := rs\<rparr>, h2))"

definition PollResponseList_DeepCopy ::
    "copy_lib \<Rightarrow> addr option \<Rightarrow> memory_heap \<Rightarrow> addr option \<times> memory_heap" where
  "PollResponseList_DeepCopy lib =
     copy_ptr MResponseList as_responseList zero_responseList (PollResponseList_DeepCopyInto lib)"

section \<open>\<open>runtime.Object\<close>\<close>

text \<open>\<open>DeepCopyObject\<close> returns an interface: nil for a nil copy, not an interface holding nil.\<close>

datatype runtime_object =
    ObjPoll addr | ObjPollList addr | ObjPollResponse addr | ObjPollResponseList addr

definition as_object :: "(addr \<Rightarrow> runtime_object) \<Rightarrow> addr option \<times> memory_heap \<Rightarrow>
    runtime_object option \<times> memory_heap" where
  "as_object mk r = (case r of (None, h) \<Rightarrow> (None, h) | (Some c, h) \<Rightarrow> (Some (mk c), h))"

definition Poll_DeepCopyObject where
  "Poll_DeepCopyObject lib p h = as_object ObjPoll (Poll_DeepCopy lib p h)"

definition PollList_DeepCopyObject where
  "PollList_DeepCopyObject lib p h = as_object ObjPollList (PollList_DeepCopy lib p h)"

definition PollResponse_DeepCopyObject where
  "PollResponse_DeepCopyObject lib p h = as_object ObjPollResponse (PollResponse_DeepCopy lib p h)"

definition PollResponseList_DeepCopyObject where
  "PollResponseList_DeepCopyObject lib p h = as_object ObjPollResponseList (PollResponseList_DeepCopy lib p h)"

end
