(* ===== verification/Deep_Copy_Laws.thy ===== *)
theory Deep_Copy_Laws
  imports Deep_Copy
begin

text \<open>
  What a structure in memory denotes (\<open>view_...\<close>), the memory it reaches (\<open>reach_...\<close>), and
  the proof that every generated copy meets the contract \<open>deep_copier\<close>, given that the library's
  do (\<open>metav1_copies\<close>).
\<close>

section \<open>Views\<close>

abbreviation plain_view :: "memory_heap \<Rightarrow> 'x \<Rightarrow> 'x option" where
  "plain_view h x \<equiv> Some x"

abbreviation plain_reach :: "memory_heap \<Rightarrow> 'x \<Rightarrow> addr set" where
  "plain_reach h x \<equiv> {}"

definition view_time :: "memory_heap \<Rightarrow> addr option \<Rightarrow> gotime option option" where
  "view_time = view_ptr as_time plain_view"

definition reach_time :: "memory_heap \<Rightarrow> addr option \<Rightarrow> addr set" where
  "reach_time = reach_ptr as_time plain_reach"

definition view_conditions :: "memory_heap \<Rightarrow> addr option \<Rightarrow> condition list option" where
  "view_conditions = view_slice as_conditions plain_view"

definition reach_conditions :: "memory_heap \<Rightarrow> addr option \<Rightarrow> addr set" where
  "reach_conditions = reach_slice as_conditions plain_reach"

definition view_objectMeta :: "memory_heap \<Rightarrow> g_object_meta \<Rightarrow> object_meta option" where
  "view_objectMeta h x = map_option (\<lambda>(t, refs).
       \<lparr>m_name = gm_name x, m_generateName = gm_generateName x, m_namespace = gm_namespace x,
        m_uid = gm_uid x, m_generation = gm_generation x, m_deletionTimestamp = t,
        m_ownerReferences = refs\<rparr>)
     (view_pair view_time (view_slice as_owners plain_view) h (gm_deletionTimestamp x, gm_ownerReferences x))"

definition reach_objectMeta :: "memory_heap \<Rightarrow> g_object_meta \<Rightarrow> addr set" where
  "reach_objectMeta h x = reach_pair reach_time (reach_slice as_owners plain_reach) h
     (gm_deletionTimestamp x, gm_ownerReferences x)"

definition view_listMeta :: "memory_heap \<Rightarrow> g_list_meta \<Rightarrow> list_meta option" where
  "view_listMeta h x = map_option (\<lambda>n. \<lparr>lm_resourceVersion = glm_resourceVersion x,
       lm_continue = glm_continue x, lm_remainingItemCount = n\<rparr>)
     (view_ptr as_int64 plain_view h (glm_remainingItemCount x))"

definition reach_listMeta :: "memory_heap \<Rightarrow> g_list_meta \<Rightarrow> addr set" where
  "reach_listMeta h x = reach_ptr as_int64 plain_reach h (glm_remainingItemCount x)"

definition view_choice :: "memory_heap \<Rightarrow> g_ChoiceQuestion \<Rightarrow> ChoiceQuestion option" where
  "view_choice h x = map_option (\<lambda>os. \<lparr>cq_options = os,
       cq_allowMultipleChoices = gcq_allowMultipleChoices x\<rparr>)
     (view_slice as_strings plain_view h (gcq_options x))"

definition reach_choice :: "memory_heap \<Rightarrow> g_ChoiceQuestion \<Rightarrow> addr set" where
  "reach_choice h x = reach_slice as_strings plain_reach h (gcq_options x)"

definition view_question :: "memory_heap \<Rightarrow> g_PollQuestion \<Rightarrow> PollQuestion option" where
  "view_question h x = map_option (\<lambda>(c, f). \<lparr>q_id = gq_id x, q_prompt = gq_prompt x,
       q_type = gq_type x, q_choice = c, q_freeText = f\<rparr>)
     (view_pair (view_ptr as_choice view_choice) (view_ptr as_freeText plain_view) h
        (gq_choice x, gq_freeText x))"

definition reach_question :: "memory_heap \<Rightarrow> g_PollQuestion \<Rightarrow> addr set" where
  "reach_question h x = reach_pair (reach_ptr as_choice reach_choice) (reach_ptr as_freeText plain_reach) h
     (gq_choice x, gq_freeText x)"

definition view_pollSpec :: "memory_heap \<Rightarrow> g_PollSpec \<Rightarrow> PollSpec option" where
  "view_pollSpec h x = map_option (\<lambda>(qs, t). \<lparr>ps_title = gps_title x, ps_questions = qs, ps_closesAt = t\<rparr>)
     (view_pair (view_slice as_questions view_question) view_time h (gps_questions x, gps_closesAt x))"

definition reach_pollSpec :: "memory_heap \<Rightarrow> g_PollSpec \<Rightarrow> addr set" where
  "reach_pollSpec h x = reach_pair (reach_slice as_questions reach_question) reach_time h
     (gps_questions x, gps_closesAt x)"

definition view_result :: "memory_heap \<Rightarrow> g_QuestionResult \<Rightarrow> QuestionResult option" where
  "view_result h x = map_option (\<lambda>os. \<lparr>qr_questionID = gqr_questionID x, qr_options = os,
       qr_responses = gqr_responses x\<rparr>)
     (view_slice as_options plain_view h (gqr_options x))"

definition reach_result :: "memory_heap \<Rightarrow> g_QuestionResult \<Rightarrow> addr set" where
  "reach_result h x = reach_slice as_options plain_reach h (gqr_options x)"

definition view_pollStatus :: "memory_heap \<Rightarrow> g_PollStatus \<Rightarrow> PollStatus option" where
  "view_pollStatus h x = map_option (\<lambda>(cs, o', c, rs). \<lparr>st_conditions = cs, st_phase = gst_phase x,
       st_openedAt = o', st_closedAt = c, st_results = rs, st_totalResponses = gst_totalResponses x\<rparr>)
     (view_pair view_conditions (view_pair view_time (view_pair view_time (view_slice as_results view_result)))
        h (gst_conditions x, gst_openedAt x, gst_closedAt x, gst_results x))"

definition reach_pollStatus :: "memory_heap \<Rightarrow> g_PollStatus \<Rightarrow> addr set" where
  "reach_pollStatus h x =
     reach_pair reach_conditions (reach_pair reach_time (reach_pair reach_time
       (reach_slice as_results reach_result)))
       h (gst_conditions x, gst_openedAt x, gst_closedAt x, gst_results x)"

text \<open>An object together with its type metadata, which the other theories leave out.\<close>

definition view_poll :: "memory_heap \<Rightarrow> g_Poll \<Rightarrow> (type_meta \<times> Poll) option" where
  "view_poll h x = map_option (\<lambda>(m, sp, st). (gp_type x, \<lparr>p_meta = m, p_spec = sp, p_status = st\<rparr>))
     (view_pair view_objectMeta (view_pair view_pollSpec view_pollStatus) h
        (gp_meta x, gp_spec x, gp_status x))"

definition reach_poll :: "memory_heap \<Rightarrow> g_Poll \<Rightarrow> addr set" where
  "reach_poll h x = reach_pair reach_objectMeta (reach_pair reach_pollSpec reach_pollStatus) h
     (gp_meta x, gp_spec x, gp_status x)"

definition view_pollList :: "memory_heap \<Rightarrow> g_PollList \<Rightarrow> (type_meta \<times> list_meta \<times> (type_meta \<times> Poll) list) option"
where
  "view_pollList h x = map_option (\<lambda>(m, ps). (gpl_type x, m, ps))
     (view_pair view_listMeta (view_slice as_polls view_poll) h (gpl_meta x, gpl_items x))"

definition reach_pollList :: "memory_heap \<Rightarrow> g_PollList \<Rightarrow> addr set" where
  "reach_pollList h x = reach_pair reach_listMeta (reach_slice as_polls reach_poll) h
     (gpl_meta x, gpl_items x)"

definition view_answer :: "memory_heap \<Rightarrow> g_PollAnswer \<Rightarrow> PollAnswer option" where
  "view_answer h x = map_option (\<lambda>os. \<lparr>a_questionID = ga_questionID x, a_selectedOptions = os,
       a_text = ga_text x\<rparr>)
     (view_slice as_strings plain_view h (ga_selectedOptions x))"

definition reach_answer :: "memory_heap \<Rightarrow> g_PollAnswer \<Rightarrow> addr set" where
  "reach_answer h x = reach_slice as_strings plain_reach h (ga_selectedOptions x)"

definition view_responseSpec :: "memory_heap \<Rightarrow> g_PollResponseSpec \<Rightarrow> PollResponseSpec option" where
  "view_responseSpec h x = map_option (\<lambda>(as, t). \<lparr>rs_pollRef = grs_pollRef x,
       rs_respondent = grs_respondent x, rs_answers = as, rs_submittedAt = t\<rparr>)
     (view_pair (view_slice as_answers view_answer) view_time h (grs_answers x, grs_submittedAt x))"

definition reach_responseSpec :: "memory_heap \<Rightarrow> g_PollResponseSpec \<Rightarrow> addr set" where
  "reach_responseSpec h x = reach_pair (reach_slice as_answers reach_answer) reach_time h
     (grs_answers x, grs_submittedAt x)"

definition view_responseStatus :: "memory_heap \<Rightarrow> g_PollResponseStatus \<Rightarrow> PollResponseStatus option" where
  "view_responseStatus h x = map_option (\<lambda>(cs, t). \<lparr>rst_conditions = cs, rst_phase = grst_phase x,
       rst_observedPollGeneration = grst_observedPollGeneration x, rst_acceptedAt = t\<rparr>)
     (view_pair view_conditions view_time h (grst_conditions x, grst_acceptedAt x))"

definition reach_responseStatus :: "memory_heap \<Rightarrow> g_PollResponseStatus \<Rightarrow> addr set" where
  "reach_responseStatus h x = reach_pair reach_conditions reach_time h
     (grst_conditions x, grst_acceptedAt x)"

definition view_response :: "memory_heap \<Rightarrow> g_PollResponse \<Rightarrow> (type_meta \<times> PollResponse) option" where
  "view_response h x = map_option (\<lambda>(m, sp, st). (gr_type x, \<lparr>r_meta = m, r_spec = sp, r_status = st\<rparr>))
     (view_pair view_objectMeta (view_pair view_responseSpec view_responseStatus) h
        (gr_meta x, gr_spec x, gr_status x))"

definition reach_response :: "memory_heap \<Rightarrow> g_PollResponse \<Rightarrow> addr set" where
  "reach_response h x = reach_pair reach_objectMeta (reach_pair reach_responseSpec reach_responseStatus) h
     (gr_meta x, gr_spec x, gr_status x)"

definition view_responseList ::
    "memory_heap \<Rightarrow> g_PollResponseList \<Rightarrow> (type_meta \<times> list_meta \<times> (type_meta \<times> PollResponse) list) option"
where
  "view_responseList h x = map_option (\<lambda>(m, rs). (grl_type x, m, rs))
     (view_pair view_listMeta (view_slice as_responses view_response) h (grl_meta x, grl_items x))"

definition reach_responseList :: "memory_heap \<Rightarrow> g_PollResponseList \<Rightarrow> addr set" where
  "reach_responseList h x = reach_pair reach_listMeta (reach_slice as_responses reach_response) h
     (grl_meta x, grl_items x)"

section \<open>Types without library parts\<close>

interpretation choice: deep_copier ChoiceQuestion_DeepCopyInto view_choice reach_choice
  by (rule struct_copier[where get = gcq_options and mk = "\<lambda>x os. \<lparr>cq_options = os, cq_allowMultipleChoices = gcq_allowMultipleChoices x\<rparr>"
        and put = "\<lambda>p x. x\<lparr>gcq_options := p\<rparr>",
        OF plain_copier[where f = "\<lambda>x. x", OF cell_strings.cell_type_axioms]])
    (simp_all add: ChoiceQuestion_DeepCopyInto_def view_choice_def reach_choice_def)

interpretation freeText: deep_copier FreeTextQuestion_DeepCopyInto plain_view plain_reach
  by unfold_locales (simp_all add: FreeTextQuestion_DeepCopyInto_def)

interpretation option_result: deep_copier OptionResult_DeepCopyInto plain_view plain_reach
  by unfold_locales (simp_all add: OptionResult_DeepCopyInto_def)

interpretation reference: deep_copier PollReference_DeepCopyInto plain_view plain_reach
  by unfold_locales (simp_all add: PollReference_DeepCopyInto_def)

interpretation result: deep_copier QuestionResult_DeepCopyInto view_result reach_result
  by (rule struct_copier[where get = gqr_options and mk = "\<lambda>x os. \<lparr>qr_questionID = gqr_questionID x, qr_options = os, qr_responses = gqr_responses x\<rparr>"
        and put = "\<lambda>p x. x\<lparr>gqr_options := p\<rparr>",
        OF plain_copier[where f = "\<lambda>x. x", OF cell_options.cell_type_axioms]])
    (simp_all add: QuestionResult_DeepCopyInto_def view_result_def reach_result_def)

interpretation answer: deep_copier PollAnswer_DeepCopyInto view_answer reach_answer
  by (rule struct_copier[where get = ga_selectedOptions and mk = "\<lambda>x os. \<lparr>a_questionID = ga_questionID x, a_selectedOptions = os, a_text = ga_text x\<rparr>"
        and put = "\<lambda>p x. x\<lparr>ga_selectedOptions := p\<rparr>",
        OF plain_copier[where f = "\<lambda>x. x", OF cell_strings.cell_type_axioms]])
    (simp_all add: PollAnswer_DeepCopyInto_def view_answer_def reach_answer_def)

interpretation question: deep_copier PollQuestion_DeepCopyInto view_question reach_question
proof (rule struct_copier[where get = "\<lambda>x. (gq_choice x, gq_freeText x)"
      and mk = "\<lambda>x (c, f). \<lparr>q_id = gq_id x, q_prompt = gq_prompt x, q_type = gq_type x,
                q_choice = c, q_freeText = f\<rparr>"
      and put = "\<lambda>(c, f) x. x\<lparr>gq_choice := c, gq_freeText := f\<rparr>"])
  show "deep_copier (copy_pair
      (copy_ptr MChoice as_choice zero_choice ChoiceQuestion_DeepCopyInto)
      (copy_ptr MFreeText as_freeText zero_freeText Pair))
    (view_pair (view_ptr as_choice view_choice) (view_ptr as_freeText plain_view))
    (reach_pair (reach_ptr as_choice reach_choice) (reach_ptr as_freeText plain_reach))"
    by (intro pair_copier ptr_copier value_copier cell_choice.cell_type_axioms
        cell_freeText.cell_type_axioms choice.deep_copier_axioms)
qed (auto simp: PollQuestion_DeepCopyInto_def view_question_def reach_question_def copy_pair_def
    split: prod.splits)

section \<open>The contract of the library's copies, and the types that use them\<close>

locale metav1_copies =
  fixes lib :: copy_lib
  assumes time_copies: "deep_copier (lib_time lib) view_time reach_time"
    and condition_copies: "deep_copier (lib_condition lib) plain_view plain_reach"
    and objectMeta_copies: "deep_copier (lib_objectMeta lib) view_objectMeta reach_objectMeta"
    and listMeta_copies: "deep_copier (lib_listMeta lib) view_listMeta reach_listMeta"
begin

lemma time_field_copier: "deep_copier (copy_time lib) view_time reach_time"
proof
  fix h h' p v q
  assume view: "view_time h p = Some v"
  show "reach_time h p \<subseteq> {..<lim h}"
    by (rule deep_copier.bounded[OF time_copies view])
  show "view_time h' p = Some v \<and> reach_time h' p = reach_time h p"
    if "\<forall>a\<in>reach_time h p. peek h' a = peek h a"
    by (rule deep_copier.frame[OF time_copies view that])
  show "extends h h' \<and> view_time h' q = Some v \<and> reach_time h' q \<subseteq> {lim h..<lim h'}"
    if "copy_time lib p h = (q, h')"
  proof (cases p)
    case None
    with view that show ?thesis
      by (simp add: copy_time_def view_time_def reach_time_def view_ptr_def reach_ptr_def)
  next
    case (Some a)
    with that deep_copier.copies[OF time_copies view] show ?thesis by (simp add: copy_time_def)
  qed
qed

lemma pollSpec_copier: "deep_copier (PollSpec_DeepCopyInto lib) view_pollSpec reach_pollSpec"
proof (rule struct_copier[where get = "\<lambda>x. (gps_questions x, gps_closesAt x)"
      and mk = "\<lambda>x (qs, t). \<lparr>ps_title = gps_title x, ps_questions = qs, ps_closesAt = t\<rparr>"
      and put = "\<lambda>(qs, t) x. x\<lparr>gps_questions := qs, gps_closesAt := t\<rparr>"])
  show "deep_copier (copy_pair
      (copy_slice MQuestions as_questions zero_question PollQuestion_DeepCopyInto) (copy_time lib))
    (view_pair (view_slice as_questions view_question) view_time)
    (reach_pair (reach_slice as_questions reach_question) reach_time)"
    by (intro pair_copier slice_copier time_field_copier cell_questions.cell_type_axioms
        question.deep_copier_axioms)
qed (auto simp: PollSpec_DeepCopyInto_def view_pollSpec_def reach_pollSpec_def copy_pair_def
    split: prod.splits)

lemma conditions_copier:
  "deep_copier (copy_slice MConditions as_conditions zero_condition (lib_condition lib))
    view_conditions reach_conditions"
  unfolding view_conditions_def reach_conditions_def
  by (intro slice_copier cell_conditions.cell_type_axioms condition_copies)

lemma pollStatus_copier: "deep_copier (PollStatus_DeepCopyInto lib) view_pollStatus reach_pollStatus"
proof (rule struct_copier[where
      get = "\<lambda>x. (gst_conditions x, gst_openedAt x, gst_closedAt x, gst_results x)"
      and mk = "\<lambda>x (cs, o', c, rs). \<lparr>st_conditions = cs, st_phase = gst_phase x, st_openedAt = o',
                st_closedAt = c, st_results = rs, st_totalResponses = gst_totalResponses x\<rparr>"
      and put = "\<lambda>(cs, o', c, rs) x. x\<lparr>gst_conditions := cs, gst_openedAt := o', gst_closedAt := c,
                gst_results := rs\<rparr>"])
  show "deep_copier (copy_pair
      (copy_slice MConditions as_conditions zero_condition (lib_condition lib))
      (copy_pair (copy_time lib) (copy_pair (copy_time lib)
        (copy_slice MResults as_results zero_result QuestionResult_DeepCopyInto))))
    (view_pair view_conditions (view_pair view_time (view_pair view_time (view_slice as_results view_result))))
    (reach_pair reach_conditions (reach_pair reach_time (reach_pair reach_time
      (reach_slice as_results reach_result))))"
    by (intro pair_copier conditions_copier time_field_copier slice_copier
        cell_results.cell_type_axioms result.deep_copier_axioms)
qed (auto simp: PollStatus_DeepCopyInto_def view_pollStatus_def reach_pollStatus_def copy_pair_def
    split: prod.splits)

lemma poll_copier: "deep_copier (Poll_DeepCopyInto lib) view_poll reach_poll"
proof (rule struct_copier[where get = "\<lambda>x. (gp_meta x, gp_spec x, gp_status x)"
      and mk = "\<lambda>x (m, sp, st). (gp_type x, \<lparr>p_meta = m, p_spec = sp, p_status = st\<rparr>)"
      and put = "\<lambda>(m, sp, st) x. x\<lparr>gp_meta := m, gp_spec := sp, gp_status := st\<rparr>"])
  show "deep_copier (copy_pair (lib_objectMeta lib)
      (copy_pair (PollSpec_DeepCopyInto lib) (PollStatus_DeepCopyInto lib)))
    (view_pair view_objectMeta (view_pair view_pollSpec view_pollStatus))
    (reach_pair reach_objectMeta (reach_pair reach_pollSpec reach_pollStatus))"
    by (intro pair_copier objectMeta_copies pollSpec_copier pollStatus_copier)
qed (auto simp: Poll_DeepCopyInto_def view_poll_def reach_poll_def copy_pair_def split: prod.splits)

lemma pollList_copier: "deep_copier (PollList_DeepCopyInto lib) view_pollList reach_pollList"
proof (rule struct_copier[where get = "\<lambda>x. (gpl_meta x, gpl_items x)"
      and mk = "\<lambda>x (m, ps). (gpl_type x, m, ps)"
      and put = "\<lambda>(m, ps) x. x\<lparr>gpl_meta := m, gpl_items := ps\<rparr>"])
  show "deep_copier (copy_pair (lib_listMeta lib)
      (copy_slice MPolls as_polls zero_poll (Poll_DeepCopyInto lib)))
    (view_pair view_listMeta (view_slice as_polls view_poll))
    (reach_pair reach_listMeta (reach_slice as_polls reach_poll))"
    by (intro pair_copier listMeta_copies slice_copier cell_polls.cell_type_axioms poll_copier)
qed (auto simp: PollList_DeepCopyInto_def view_pollList_def reach_pollList_def copy_pair_def
    split: prod.splits)

lemma responseSpec_copier:
  "deep_copier (PollResponseSpec_DeepCopyInto lib) view_responseSpec reach_responseSpec"
proof (rule struct_copier[where get = "\<lambda>x. (grs_answers x, grs_submittedAt x)"
      and mk = "\<lambda>x (as, t). \<lparr>rs_pollRef = grs_pollRef x, rs_respondent = grs_respondent x,
                rs_answers = as, rs_submittedAt = t\<rparr>"
      and put = "\<lambda>(as, t) x. x\<lparr>grs_answers := as, grs_submittedAt := t\<rparr>"])
  show "deep_copier (copy_pair
      (copy_slice MAnswers as_answers zero_answer PollAnswer_DeepCopyInto) (copy_time lib))
    (view_pair (view_slice as_answers view_answer) view_time)
    (reach_pair (reach_slice as_answers reach_answer) reach_time)"
    by (intro pair_copier slice_copier time_field_copier cell_answers.cell_type_axioms
        answer.deep_copier_axioms)
qed (auto simp: PollResponseSpec_DeepCopyInto_def view_responseSpec_def reach_responseSpec_def
    copy_pair_def split: prod.splits)

lemma responseStatus_copier:
  "deep_copier (PollResponseStatus_DeepCopyInto lib) view_responseStatus reach_responseStatus"
proof (rule struct_copier[where get = "\<lambda>x. (grst_conditions x, grst_acceptedAt x)"
      and mk = "\<lambda>x (cs, t). \<lparr>rst_conditions = cs, rst_phase = grst_phase x,
                rst_observedPollGeneration = grst_observedPollGeneration x, rst_acceptedAt = t\<rparr>"
      and put = "\<lambda>(cs, t) x. x\<lparr>grst_conditions := cs, grst_acceptedAt := t\<rparr>"])
  show "deep_copier (copy_pair
      (copy_slice MConditions as_conditions zero_condition (lib_condition lib)) (copy_time lib))
    (view_pair view_conditions view_time) (reach_pair reach_conditions reach_time)"
    by (intro pair_copier conditions_copier time_field_copier)
qed (auto simp: PollResponseStatus_DeepCopyInto_def view_responseStatus_def reach_responseStatus_def
    copy_pair_def split: prod.splits)

lemma response_copier: "deep_copier (PollResponse_DeepCopyInto lib) view_response reach_response"
proof (rule struct_copier[where get = "\<lambda>x. (gr_meta x, gr_spec x, gr_status x)"
      and mk = "\<lambda>x (m, sp, st). (gr_type x, \<lparr>r_meta = m, r_spec = sp, r_status = st\<rparr>)"
      and put = "\<lambda>(m, sp, st) x. x\<lparr>gr_meta := m, gr_spec := sp, gr_status := st\<rparr>"])
  show "deep_copier (copy_pair (lib_objectMeta lib)
      (copy_pair (PollResponseSpec_DeepCopyInto lib) (PollResponseStatus_DeepCopyInto lib)))
    (view_pair view_objectMeta (view_pair view_responseSpec view_responseStatus))
    (reach_pair reach_objectMeta (reach_pair reach_responseSpec reach_responseStatus))"
    by (intro pair_copier objectMeta_copies responseSpec_copier responseStatus_copier)
qed (auto simp: PollResponse_DeepCopyInto_def view_response_def reach_response_def copy_pair_def
    split: prod.splits)

lemma responseList_copier:
  "deep_copier (PollResponseList_DeepCopyInto lib) view_responseList reach_responseList"
proof (rule struct_copier[where get = "\<lambda>x. (grl_meta x, grl_items x)"
      and mk = "\<lambda>x (m, rs). (grl_type x, m, rs)"
      and put = "\<lambda>(m, rs) x. x\<lparr>grl_meta := m, grl_items := rs\<rparr>"])
  show "deep_copier (copy_pair (lib_listMeta lib)
      (copy_slice MResponses as_responses zero_response (PollResponse_DeepCopyInto lib)))
    (view_pair view_listMeta (view_slice as_responses view_response))
    (reach_pair reach_listMeta (reach_slice as_responses reach_response))"
    by (intro pair_copier listMeta_copies slice_copier cell_responses.cell_type_axioms response_copier)
qed (auto simp: PollResponseList_DeepCopyInto_def view_responseList_def reach_responseList_def
    copy_pair_def split: prod.splits)

end

section \<open>The library's documented behaviour\<close>

definition zero_time :: gotime where
  "zero_time = \<lparr>unixNano = - 62135596800000000000, zoneOffset = 0\<rparr>"

definition zero_owner :: owner_reference where
  "zero_owner = \<lparr>or_kind = '''', or_name = '''', or_uid = '''', or_controller = False\<rparr>"

definition documented_copies :: copy_lib where
  "documented_copies =
     \<lparr>lib_time = copy_ptr MTime as_time zero_time Pair,
      lib_condition = Pair,
      lib_objectMeta = (\<lambda>x h.
        case copy_ptr MTime as_time zero_time Pair (gm_deletionTimestamp x) h of (t, h1) \<Rightarrow>
        case copy_plain MOwners as_owners zero_owner (gm_ownerReferences x) h1 of (os, h2) \<Rightarrow>
          (x\<lparr>gm_deletionTimestamp := t, gm_ownerReferences := os\<rparr>, h2)),
      lib_listMeta = (\<lambda>x h.
        case copy_ptr MInt64 as_int64 0 Pair (glm_remainingItemCount x) h of (n, h1) \<Rightarrow>
          (x\<lparr>glm_remainingItemCount := n\<rparr>, h1))\<rparr>"

lemma documented_time:
  "deep_copier (copy_ptr MTime as_time zero_time Pair) view_time reach_time"
  unfolding view_time_def reach_time_def by (intro ptr_copier cell_time.cell_type_axioms value_copier)

interpretation documented_copy: metav1_copies documented_copies
proof (rule metav1_copies.intro)
  show "deep_copier (lib_time documented_copies) view_time reach_time"
    by (simp add: documented_copies_def documented_time)
  show "deep_copier (lib_condition documented_copies) plain_view plain_reach"
    using value_copier[where f = "\<lambda>x. x"] by (simp add: documented_copies_def)
  show "deep_copier (lib_objectMeta documented_copies) view_objectMeta reach_objectMeta"
  proof (rule struct_copier[where get = "\<lambda>x. (gm_deletionTimestamp x, gm_ownerReferences x)"
        and mk = "\<lambda>x (t, refs). \<lparr>m_name = gm_name x, m_generateName = gm_generateName x,
          m_namespace = gm_namespace x, m_uid = gm_uid x, m_generation = gm_generation x,
          m_deletionTimestamp = t, m_ownerReferences = refs\<rparr>"
        and put = "\<lambda>(t, refs) x. x\<lparr>gm_deletionTimestamp := t, gm_ownerReferences := refs\<rparr>"])
    show "deep_copier (copy_pair (copy_ptr MTime as_time zero_time Pair)
        (copy_plain MOwners as_owners zero_owner))
      (view_pair view_time (view_slice as_owners plain_view))
      (reach_pair reach_time (reach_slice as_owners plain_reach))"
      by (intro pair_copier documented_time plain_copier cell_owners.cell_type_axioms)
  qed (auto simp: documented_copies_def view_objectMeta_def reach_objectMeta_def copy_pair_def
      split: prod.splits)
  show "deep_copier (lib_listMeta documented_copies) view_listMeta reach_listMeta"
  proof (rule struct_copier[where get = glm_remainingItemCount
        and mk = "\<lambda>x n. \<lparr>lm_resourceVersion = glm_resourceVersion x, lm_continue = glm_continue x,
          lm_remainingItemCount = n\<rparr>"
        and put = "\<lambda>n x. x\<lparr>glm_remainingItemCount := n\<rparr>"])
    show "deep_copier (copy_ptr MInt64 as_int64 0 Pair) (view_ptr as_int64 plain_view)
      (reach_ptr as_int64 plain_reach)"
      by (intro ptr_copier cell_int64.cell_type_axioms value_copier)
  qed (simp_all add: documented_copies_def view_listMeta_def reach_listMeta_def)
qed

end
