(* ===== verification/Copy_Properties.thy ===== *)
theory Copy_Properties
  imports Deep_Copy_Laws
begin

text \<open>
  What the reconcilers rely on when they copy before they write: the base of a patch is a
  snapshot, a status under edit is private, and a copy of a cached list is equal and separate.
\<close>

section \<open>Copies through pointers\<close>

context metav1_copies
begin

lemma pollSpec_ptr: "deep_copier (PollSpec_DeepCopy lib) (view_ptr as_pollSpec view_pollSpec)
    (reach_ptr as_pollSpec reach_pollSpec)"
  unfolding PollSpec_DeepCopy_def by (intro ptr_copier cell_pollSpec.cell_type_axioms pollSpec_copier)

lemma pollStatus_ptr: "deep_copier (PollStatus_DeepCopy lib) (view_ptr as_pollStatus view_pollStatus)
    (reach_ptr as_pollStatus reach_pollStatus)"
  unfolding PollStatus_DeepCopy_def
  by (intro ptr_copier cell_pollStatus.cell_type_axioms pollStatus_copier)

lemma poll_ptr: "deep_copier (Poll_DeepCopy lib) (view_ptr as_poll view_poll) (reach_ptr as_poll reach_poll)"
  unfolding Poll_DeepCopy_def by (intro ptr_copier cell_poll.cell_type_axioms poll_copier)

lemma pollList_ptr: "deep_copier (PollList_DeepCopy lib) (view_ptr as_pollList view_pollList)
    (reach_ptr as_pollList reach_pollList)"
  unfolding PollList_DeepCopy_def by (intro ptr_copier cell_pollList.cell_type_axioms pollList_copier)

lemma responseSpec_ptr: "deep_copier (PollResponseSpec_DeepCopy lib)
    (view_ptr as_responseSpec view_responseSpec) (reach_ptr as_responseSpec reach_responseSpec)"
  unfolding PollResponseSpec_DeepCopy_def
  by (intro ptr_copier cell_responseSpec.cell_type_axioms responseSpec_copier)

lemma responseStatus_ptr: "deep_copier (PollResponseStatus_DeepCopy lib)
    (view_ptr as_responseStatus view_responseStatus) (reach_ptr as_responseStatus reach_responseStatus)"
  unfolding PollResponseStatus_DeepCopy_def
  by (intro ptr_copier cell_responseStatus.cell_type_axioms responseStatus_copier)

lemma response_ptr: "deep_copier (PollResponse_DeepCopy lib) (view_ptr as_response view_response)
    (reach_ptr as_response reach_response)"
  unfolding PollResponse_DeepCopy_def by (intro ptr_copier cell_response.cell_type_axioms response_copier)

lemma responseList_ptr: "deep_copier (PollResponseList_DeepCopy lib)
    (view_ptr as_responseList view_responseList) (reach_ptr as_responseList reach_responseList)"
  unfolding PollResponseList_DeepCopy_def
  by (intro ptr_copier cell_responseList.cell_type_axioms responseList_copier)

end

text \<open>Pointers to the types without library parts.\<close>

interpretation choice_ptr: deep_copier ChoiceQuestion_DeepCopy
    "view_ptr as_choice view_choice" "reach_ptr as_choice reach_choice"
  unfolding ChoiceQuestion_DeepCopy_def
  by (intro ptr_copier cell_choice.cell_type_axioms choice.deep_copier_axioms)

interpretation freeText_ptr: deep_copier FreeTextQuestion_DeepCopy
    "view_ptr as_freeText plain_view" "reach_ptr as_freeText plain_reach"
  unfolding FreeTextQuestion_DeepCopy_def
  by (intro ptr_copier cell_freeText.cell_type_axioms freeText.deep_copier_axioms)

interpretation option_ptr: deep_copier OptionResult_DeepCopy
    "view_ptr as_option plain_view" "reach_ptr as_option plain_reach"
  unfolding OptionResult_DeepCopy_def
  by (intro ptr_copier cell_option.cell_type_axioms option_result.deep_copier_axioms)

interpretation question_ptr: deep_copier PollQuestion_DeepCopy
    "view_ptr as_question view_question" "reach_ptr as_question reach_question"
  unfolding PollQuestion_DeepCopy_def
  by (intro ptr_copier cell_question.cell_type_axioms question.deep_copier_axioms)

interpretation result_ptr: deep_copier QuestionResult_DeepCopy
    "view_ptr as_result view_result" "reach_ptr as_result reach_result"
  unfolding QuestionResult_DeepCopy_def
  by (intro ptr_copier cell_result.cell_type_axioms result.deep_copier_axioms)

interpretation answer_ptr: deep_copier PollAnswer_DeepCopy
    "view_ptr as_answer view_answer" "reach_ptr as_answer reach_answer"
  unfolding PollAnswer_DeepCopy_def
  by (intro ptr_copier cell_answer.cell_type_axioms answer.deep_copier_axioms)

interpretation reference_ptr: deep_copier PollReference_DeepCopy
    "view_ptr as_reference plain_view" "reach_ptr as_reference plain_reach"
  unfolding PollReference_DeepCopy_def
  by (intro ptr_copier cell_reference.cell_type_axioms reference.deep_copier_axioms)

section \<open>A Poll in memory\<close>

text \<open>One Choice question; its options are at address 0, the Poll itself at address 4.\<close>

definition demoHeap :: memory_heap where
  "demoHeap = \<lparr>lim = 5, cells =
     [0 \<mapsto> MStrings [''tea'', ''coffee''],
      1 \<mapsto> MChoice \<lparr>gcq_options = Some 0, gcq_allowMultipleChoices = False\<rparr>,
      2 \<mapsto> MQuestions [zero_question\<lparr>gq_id := ''q1'', gq_choice := Some 1\<rparr>],
      3 \<mapsto> MTime zero_time,
      4 \<mapsto> MPoll (zero_poll\<lparr>gp_spec := zero_pollSpec\<lparr>gps_questions := Some 2\<rparr>,
             gp_status := zero_pollStatus\<lparr>gst_openedAt := Some 3\<rparr>\<rparr>)]\<rparr>"

lemmas demo_defs = demoHeap_def zero_question_def zero_poll_def zero_pollSpec_def zero_pollStatus_def
  zero_object_meta_def zero_type_meta_def

lemmas view_defs = view_ptr_def view_slice_def view_pair_def load_def peek_def as_defs
  view_poll_def view_objectMeta_def view_pollSpec_def view_pollStatus_def view_time_def
  view_question_def view_choice_def view_conditions_def

lemma demo_view:
  "view_ptr as_poll view_poll demoHeap (Some 4) = Some (Some (\<lparr>tm_kind = '''', tm_apiVersion = ''''\<rparr>,
     \<lparr>p_meta = \<lparr>m_name = '''', m_generateName = '''', m_namespace = '''', m_uid = '''', m_generation = 0,
        m_deletionTimestamp = None, m_ownerReferences = []\<rparr>,
      p_spec = \<lparr>ps_title = '''', ps_questions = [\<lparr>q_id = ''q1'', q_prompt = '''', q_type = '''',
        q_choice = Some \<lparr>cq_options = [''tea'', ''coffee''], cq_allowMultipleChoices = False\<rparr>,
        q_freeText = None\<rparr>], ps_closesAt = None\<rparr>,
      p_status = \<lparr>st_conditions = [], st_phase = '''', st_openedAt = Some zero_time, st_closedAt = None,
        st_results = [], st_totalResponses = 0\<rparr>\<rparr>))"
  by (simp add: view_defs demo_defs)

section \<open>The properties\<close>

text \<open>C19: the base of a merge patch is a snapshot: the Poll that \<open>poll.DeepCopy()\<close> returns denotes
  the same object, it shares no memory with the original, and it still denotes that object
  after any writes to memory that the copy did not allocate, such as assigning the new
  status or editing its slices in place.\<close>

theorem patch_base_is_snapshot:
  assumes "metav1_copies lib" and "view_ptr as_poll view_poll h (Some a) = Some (Some poll)"
    and "Poll_DeepCopy lib (Some a) h = (base, h1)"
    and "\<forall>b. lim h \<le> b \<and> b < lim h1 \<longrightarrow> peek h2 b = peek h1 b"
  shows "view_ptr as_poll view_poll h1 (Some a) = Some (Some poll)
    \<and> reach_ptr as_poll reach_poll h1 (Some a) \<inter> reach_ptr as_poll reach_poll h1 base = {}
    \<and> view_ptr as_poll view_poll h2 base = Some (Some poll)"
proof -
  note copier = metav1_copies.poll_ptr[OF assms(1)]
  note iso = deep_copier.isolated[OF copier assms(2,3)]
  have "reach_ptr as_poll reach_poll h1 base \<subseteq> {lim h..<lim h1}"
    using deep_copier.copies[OF copier assms(2,3)] by blast
  then have "\<forall>b \<in> reach_ptr as_poll reach_poll h1 base. peek h2 b = peek h1 b"
    using assms(4) by auto
  from deep_copier.frame[OF copier iso(2) this] iso(1,3) show ?thesis by blast
qed

theorem patch_base_is_snapshot_witness:
  "\<exists>poll base h1. Poll_DeepCopy documented_copies (Some 4) demoHeap = (base, h1)
     \<and> view_ptr as_poll view_poll (poke 0 (MStrings [''water'']) h1) base = Some (Some poll)
     \<and> view_ptr as_poll view_poll demoHeap (Some 4) = Some (Some poll)"
proof -
  obtain base h1 where copy: "Poll_DeepCopy documented_copies (Some 4) demoHeap = (base, h1)"
    by fastforce
  have lim: "lim demoHeap = 5" by (simp add: demoHeap_def)
  have "\<forall>b. lim demoHeap \<le> b \<and> b < lim h1 \<longrightarrow> peek (poke 0 (MStrings [''water'']) h1) b = peek h1 b"
    by (simp add: lim peek_poke)
  from patch_base_is_snapshot[OF documented_copy.metav1_copies_axioms demo_view copy this] copy demo_view
  show ?thesis by blast
qed

text \<open>C38: a status under edit is private: after \<open>resp.Status.DeepCopy()\<close> the original status keeps its
  value whatever is written to memory allocated since, so that comparing it with the
  edited status later compares with what was stored.\<close>

theorem status_edits_stay_private:
  assumes "metav1_copies lib" and "view_responseStatus h x = Some st"
    and "PollResponseStatus_DeepCopyInto lib x h = (y, h1)"
    and "\<forall>b<lim h. peek h2 b = peek h1 b"
  shows "view_responseStatus h1 y = Some st \<and> reach_responseStatus h1 y \<subseteq> {lim h..<lim h1}
    \<and> view_responseStatus h2 x = Some st"
proof -
  note copier = metav1_copies.responseStatus_copier[OF assms(1)]
  note c = deep_copier.copies[OF copier assms(2,3)]
  have "\<forall>b \<in> reach_responseStatus h x. peek h2 b = peek h b"
    using assms(4) c deep_copier.bounded[OF copier assms(2)] by (auto simp: extends_def)
  from deep_copier.frame[OF copier assms(2) this] c show ?thesis by blast
qed

theorem status_edits_stay_private_witness:
  "\<exists>y h1. PollResponseStatus_DeepCopyInto documented_copies
         (zero_responseStatus\<lparr>grst_acceptedAt := Some 3\<rparr>) demoHeap = (y, h1)
     \<and> view_responseStatus (poke 5 (MConditions []) h1) (zero_responseStatus\<lparr>grst_acceptedAt := Some 3\<rparr>)
         = view_responseStatus demoHeap (zero_responseStatus\<lparr>grst_acceptedAt := Some 3\<rparr>)"
proof -
  let ?x = "zero_responseStatus\<lparr>grst_acceptedAt := Some 3\<rparr>"
  obtain y h1 where copy: "PollResponseStatus_DeepCopyInto documented_copies ?x demoHeap = (y, h1)"
    by fastforce
  have view: "view_responseStatus demoHeap ?x = Some \<lparr>rst_conditions = [], rst_phase = '''',
      rst_observedPollGeneration = 0, rst_acceptedAt = Some zero_time\<rparr>"
    by (simp add: view_defs view_responseStatus_def zero_responseStatus_def demo_defs)
  have "\<forall>b<lim demoHeap. peek (poke 5 (MConditions []) h1) b = peek h1 b"
    by (simp add: demoHeap_def peek_poke)
  from status_edits_stay_private[OF documented_copy.metav1_copies_axioms view copy this] copy view
  show ?thesis by auto
qed

text \<open>The object that \<open>DeepCopyObject\<close> hands out for a cached list of responses is the identity on
  what the list denotes, the list in the cache keeps its value under any writes to memory
  allocated since, and a nil list gives a nil interface.\<close>

theorem cached_list_is_protected:
  assumes "metav1_copies lib"
    and "view_ptr as_responseList view_responseList h (Some a) = Some (Some l)"
    and "PollResponseList_DeepCopyObject lib (Some a) h = (obj, h1)"
    and "\<forall>b<lim h. peek h2 b = peek h1 b"
  shows "(\<exists>c. obj = Some (ObjPollResponseList c)
      \<and> view_ptr as_responseList view_responseList h1 (Some c) = Some (Some l))
    \<and> view_ptr as_responseList view_responseList h2 (Some a) = Some (Some l)
    \<and> PollResponseList_DeepCopyObject lib None h = (None, h)"
proof -
  note copier = metav1_copies.responseList_ptr[OF assms(1)]
  obtain p where copy: "PollResponseList_DeepCopy lib (Some a) h = (p, h1)"
    and obj: "obj = fst (as_object ObjPollResponseList (p, h1))"
    using assms(3) by (auto simp: PollResponseList_DeepCopyObject_def as_object_def
        split: prod.splits option.splits)
  note c = deep_copier.copies[OF copier assms(2) copy]
  have "\<forall>b \<in> reach_ptr as_responseList reach_responseList h (Some a). peek h2 b = peek h b"
    using assms(4) c deep_copier.bounded[OF copier assms(2)] by (auto simp: extends_def)
  from deep_copier.frame[OF copier assms(2) this]
  have "view_ptr as_responseList view_responseList h2 (Some a) = Some (Some l)" ..
  moreover obtain q where "p = Some q"
    using c by (cases p) (auto simp: view_ptr_def)
  ultimately show ?thesis
    using c by (simp add: obj as_object_def PollResponseList_DeepCopyObject_def
        PollResponseList_DeepCopy_def copy_ptr_def)
qed

definition demoList :: memory_heap where
  "demoList = \<lparr>lim = 2, cells =
     [0 \<mapsto> MResponses [zero_response, zero_response],
      1 \<mapsto> MResponseList (zero_responseList\<lparr>grl_items := Some 0\<rparr>)]\<rparr>"

theorem cached_list_is_protected_witness:
  "\<exists>c h1 l. PollResponseList_DeepCopyObject documented_copies (Some 1) demoList
        = (Some (ObjPollResponseList c), h1)
     \<and> view_ptr as_responseList view_responseList h1 (Some c) = Some (Some l)
     \<and> view_ptr as_responseList view_responseList (poke 3 (MResponses []) h1) (Some 1) = Some (Some l)"
proof -
  obtain obj h1 where copy:
    "PollResponseList_DeepCopyObject documented_copies (Some 1) demoList = (obj, h1)" by fastforce
  obtain l where view: "view_ptr as_responseList view_responseList demoList (Some 1) = Some (Some l)"
    by (simp add: view_defs demo_defs demoList_def zero_responseList_def zero_response_def zero_list_meta_def
        zero_responseSpec_def zero_responseStatus_def zero_reference_def
        view_responseList_def view_response_def view_responseSpec_def view_responseStatus_def view_listMeta_def)
  have "\<forall>b<lim demoList. peek (poke 3 (MResponses []) h1) b = peek h1 b"
    by (simp add: demoList_def peek_poke)
  from cached_list_is_protected[OF documented_copy.metav1_copies_axioms view copy this] copy
  show ?thesis by blast
qed

end
