(* ===== verification/Ui_Html.thy ===== *)
theory Ui_Html
  imports Ui_Roundtrip
begin

text \<open>
  HTML pages as trees, what \<open>html/template\<close> writes for one, and what a browser makes of it:
  reading the text back into tags and characters, the links and forms of a page, and the
  entries a filled-in form submits. White space between tags is left out on both sides.
\<close>

section \<open>Trees\<close>

datatype html =
    Elem string "(string \<times> string) list" "html list"
  | Txt string

fun el_tag :: "html \<Rightarrow> string" where
  "el_tag (Elem t as cs) = t"
| "el_tag (Txt s) = ''''"

fun el_attr :: "string \<Rightarrow> html \<Rightarrow> string option" where
  "el_attr k (Elem t as cs) = map_of as k"
| "el_attr k (Txt s) = None"

text \<open>All elements of a tree, in the order of their opening tags.\<close>

fun elements :: "html \<Rightarrow> html list" where
  "elements (Elem t as cs) = Elem t as cs # concat (map elements cs)"
| "elements (Txt s) = []"

definition elements_named :: "string \<Rightarrow> html \<Rightarrow> html list" where
  "elements_named t h = filter (\<lambda>e. el_tag e = t) (elements h)"

definition hrefs :: "html \<Rightarrow> string list" where
  "hrefs h = List.map_filter (el_attr ''href'') (elements_named ''a'' h)"

section \<open>Escaping\<close>

text \<open>
  \<open>htmlReplacementTable\<close> of \<open>html/template\<close>, used for text, titles and quoted attributes; a
  NUL byte becomes U+FFFD.
\<close>

definition replacement :: string where
  "replacement = [CHR 0xEF, CHR 0xBF, CHR 0xBD]"

definition escape_char :: "char \<Rightarrow> string" where
  "escape_char c =
     (if c = CHR 0x00 then replacement
      else if c = CHR 0x22 then ''&#34;''
      else if c = CHR ''&'' then ''&amp;''
      else if c = CHR 0x27 then ''&#39;''
      else if c = CHR ''+'' then ''&#43;''
      else if c = CHR ''<'' then ''&lt;''
      else if c = CHR ''>'' then ''&gt;''
      else [c])"

definition escape :: "string \<Rightarrow> string" where
  "escape s = concat (map escape_char s)"

text \<open>What a reader sees of a string: the NUL bytes are the only loss.\<close>

definition legible :: "string \<Rightarrow> string" where
  "legible s = concat (map (\<lambda>c. if c = CHR 0x00 then replacement else [c]) s)"

text \<open>Reading the character references back.\<close>

function unescape :: "string \<Rightarrow> string" where
  "unescape s =
     (if s = '''' then ''''
      else if take 5 s = ''&#34;'' then CHR 0x22 # unescape (drop 5 s)
      else if take 5 s = ''&amp;'' then CHR ''&'' # unescape (drop 5 s)
      else if take 5 s = ''&#39;'' then CHR 0x27 # unescape (drop 5 s)
      else if take 5 s = ''&#43;'' then CHR ''+'' # unescape (drop 5 s)
      else if take 4 s = ''&lt;'' then CHR ''<'' # unescape (drop 4 s)
      else if take 4 s = ''&gt;'' then CHR ''>'' # unescape (drop 4 s)
      else hd s # unescape (tl s))"
  by pat_completeness auto
termination
  by (relation "measure length") auto

declare unescape.simps [simp del]

lemma unescape_Nil [simp]: "unescape [] = []"
  by (simp add: unescape.simps)

lemma unescape_plain: "c \<noteq> CHR ''&'' \<Longrightarrow> unescape (c # s) = c # unescape s"
  by (subst unescape.simps) simp

lemma unescape_reference:
  "unescape (''&#34;'' @ s) = CHR 0x22 # unescape s"
  "unescape (''&amp;'' @ s) = CHR ''&'' # unescape s"
  "unescape (''&#39;'' @ s) = CHR 0x27 # unescape s"
  "unescape (''&#43;'' @ s) = CHR ''+'' # unescape s"
  "unescape (''&lt;'' @ s) = CHR ''<'' # unescape s"
  "unescape (''&gt;'' @ s) = CHR ''>'' # unescape s"
  by (subst unescape.simps, simp)+

lemma unescape_escape_char:
  "unescape (escape_char c @ s) = legible [c] @ unescape s"
proof (cases "c \<in> {CHR 0x22, CHR ''&'', CHR 0x27, CHR ''+'', CHR ''<'', CHR ''>''}")
  case True
  then show ?thesis
    using unescape_reference[of s] by (auto simp: escape_char_def legible_def)
next
  case False
  then show ?thesis
    by (auto simp: escape_char_def legible_def replacement_def unescape_plain)
qed

lemma legible_Cons: "legible (c # s) = legible [c] @ legible s"
  by (simp add: legible_def)

lemma unescape_escape_append: "unescape (escape t @ s) = legible t @ unescape s"
proof (induction t)
  case Nil
  then show ?case by (simp add: escape_def legible_def)
next
  case (Cons c t)
  have "unescape (escape (c # t) @ s) = unescape (escape_char c @ (escape t @ s))"
    by (simp add: escape_def)
  also have "\<dots> = legible [c] @ unescape (escape t @ s)" by (rule unescape_escape_char)
  finally show ?case by (simp only: Cons legible_Cons[of c t] append_assoc)
qed

lemma unescape_escape: "unescape (escape t) = legible t"
  using unescape_escape_append[of t "[]"] by simp

text \<open>Escaped text cannot open or close a tag or end an attribute.\<close>

lemma escape_char_inert: "x \<in> set (escape_char c) \<Longrightarrow> x \<notin> {CHR ''<'', CHR ''>'', CHR 0x22, CHR 0x27}"
  by (auto simp: escape_char_def replacement_def split: if_splits)

lemma escape_inert: "x \<in> set (escape s) \<Longrightarrow> x \<notin> {CHR ''<'', CHR ''>'', CHR 0x22, CHR 0x27}"
  unfolding escape_def by (auto dest: escape_char_inert)

section \<open>Writing a page and reading it back\<close>

definition void_element :: "string \<Rightarrow> bool" where
  "void_element t \<longleftrightarrow> t = ''meta'' \<or> t = ''input''"

definition show_attr :: "string \<times> string \<Rightarrow> string" where
  "show_attr av = '' '' @ fst av @ ''='' @ [CHR 0x22] @ escape (snd av) @ [CHR 0x22]"

fun serialise :: "html \<Rightarrow> string" where
  "serialise (Elem t as cs) =
     ''<'' @ t @ concat (map show_attr as) @ ''>'' @ concat (map serialise cs)
       @ (if void_element t then '''' else ''</'' @ t @ ''>'')"
| "serialise (Txt s) = escape s"

text \<open>A browser's tokens: tags with their attributes, and single characters between them.\<close>

datatype token = Open string "(string \<times> string) list" | Close string | Chr char

text \<open>The attributes of a tag: names up to the equals sign, values in double quotes.\<close>

function read_attrs :: "string \<Rightarrow> (string \<times> string) list" where
  "read_attrs s =
     (if s = '''' then []
      else let name = takeWhile (\<lambda>c. c \<noteq> CHR ''='') (tl s);
               value = tl (tl (dropWhile (\<lambda>c. c \<noteq> CHR ''='') (tl s)))
           in (name, unescape (takeWhile (\<lambda>c. c \<noteq> CHR 0x22) value))
             # read_attrs (tl (dropWhile (\<lambda>c. c \<noteq> CHR 0x22) value)))"
  by pat_completeness auto
termination
proof (relation "measure length", simp)
  fix s :: string and name val
  assume "s \<noteq> ''''" and "val = tl (tl (dropWhile (\<lambda>c. c \<noteq> CHR ''='') (tl s)))"
  moreover have "length (dropWhile (\<lambda>c. c \<noteq> CHR ''='') (tl s)) \<le> length (tl s)"
    "length (dropWhile (\<lambda>c. c \<noteq> CHR 0x22) val) \<le> length val"
    by (rule length_dropWhile_le)+
  ultimately show "(tl (dropWhile (\<lambda>c. c \<noteq> CHR 0x22) val), s) \<in> measure length"
    by (cases s) auto
qed

declare read_attrs.simps [simp del]

definition read_tag :: "string \<Rightarrow> token" where
  "read_tag body =
     (if take 1 body = ''/'' then Close (drop 1 body)
      else Open (takeWhile (\<lambda>c. c \<noteq> CHR '' '') body)
             (read_attrs (dropWhile (\<lambda>c. c \<noteq> CHR '' '') body)))"

function tokens :: "string \<Rightarrow> token list" where
  "tokens s =
     map Chr (unescape (takeWhile (\<lambda>c. c \<noteq> CHR ''<'') s))
     @ (case dropWhile (\<lambda>c. c \<noteq> CHR ''<'') s of
          [] \<Rightarrow> []
        | _ # r \<Rightarrow> read_tag (takeWhile (\<lambda>c. c \<noteq> CHR ''>'') r)
            # tokens (tl (dropWhile (\<lambda>c. c \<noteq> CHR ''>'') r)))"
  by pat_completeness auto
termination
proof (relation "measure length", simp)
  fix s c r assume "dropWhile (\<lambda>c. c \<noteq> CHR ''<'') s = c # r"
  then have "length r < length s"
    using length_dropWhile_le[of "\<lambda>c. c \<noteq> CHR ''<''" s] by simp
  moreover have "length (dropWhile (\<lambda>c. c \<noteq> CHR ''>'') r) \<le> length r"
    by (rule length_dropWhile_le)
  ultimately show "(tl (dropWhile (\<lambda>c. c \<noteq> CHR ''>'') r), s) \<in> measure length"
    by (simp add: le_less_trans less_imp_diff_less)
qed

declare tokens.simps [simp del]

text \<open>The tokens a tree stands for.\<close>

fun html_tokens :: "html \<Rightarrow> token list" where
  "html_tokens (Elem t as cs) =
     Open t (map (\<lambda>(k, v). (k, legible v)) as) # concat (map html_tokens cs)
       @ (if void_element t then [] else [Close t])"
| "html_tokens (Txt s) = map Chr (legible s)"

text \<open>Trees whose tags and attribute names are words of the template.\<close>

definition plain_word :: "string \<Rightarrow> bool" where
  "plain_word s \<longleftrightarrow> s \<noteq> '''' \<and> set s \<inter> {CHR ''<'', CHR ''>'', CHR '' '', CHR ''='', CHR ''/''} = {}"

fun template_tree :: "html \<Rightarrow> bool" where
  "template_tree (Elem t as cs) \<longleftrightarrow>
     plain_word t \<and> list_all (\<lambda>av. plain_word (fst av)) as \<and> list_all template_tree cs"
| "template_tree (Txt s) \<longleftrightarrow> True"

lemma dropWhile_append_stop:
  "list_all P xs \<Longrightarrow> \<not> P y \<Longrightarrow> takeWhile P (xs @ y # zs) = xs \<and> dropWhile P (xs @ y # zs) = y # zs"
  by (induction xs) auto

lemma list_all_plain:
  "plain_word s \<Longrightarrow> list_all (\<lambda>c. c \<noteq> CHR ''='') s"
  "plain_word s \<Longrightarrow> list_all (\<lambda>c. c \<noteq> CHR '' '') s"
  "plain_word s \<Longrightarrow> list_all (\<lambda>c. c \<noteq> CHR ''>'') s"
  by (auto simp: plain_word_def list_all_iff)

lemma list_all_escape:
  "list_all (\<lambda>c. c \<noteq> CHR 0x22) (escape v)" "list_all (\<lambda>c. c \<noteq> CHR ''>'') (escape v)"
  "list_all (\<lambda>c. c \<noteq> CHR ''<'') (escape v)"
  using escape_inert[of _ v] by (auto simp: list_all_iff)

lemma read_attrs_shown:
  assumes "list_all (\<lambda>av. plain_word (fst av)) as"
  shows "read_attrs (concat (map show_attr as)) = map (\<lambda>(k, v). (k, legible v)) as"
  using assms
proof (induction as)
  case Nil
  then show ?case by (simp add: read_attrs.simps)
next
  case (Cons av as)
  obtain k v where av: "av = (k, v)" by force
  let ?rest = "concat (map show_attr as)"
  let ?val = "escape v @ CHR 0x22 # ?rest"
  have s: "concat (map show_attr (av # as)) = CHR '' '' # (k @ CHR ''='' # CHR 0x22 # ?val)"
    by (simp add: show_attr_def av)
  have key: "takeWhile (\<lambda>c. c \<noteq> CHR ''='') (k @ CHR ''='' # CHR 0x22 # ?val) = k"
    "dropWhile (\<lambda>c. c \<noteq> CHR ''='') (k @ CHR ''='' # CHR 0x22 # ?val) = CHR ''='' # CHR 0x22 # ?val"
    using dropWhile_append_stop[of "\<lambda>c. c \<noteq> CHR ''=''" k] list_all_plain(1)[of k] Cons.prems
    by (simp_all add: av)
  have val: "takeWhile (\<lambda>c. c \<noteq> CHR 0x22) ?val = escape v" "dropWhile (\<lambda>c. c \<noteq> CHR 0x22) ?val = CHR 0x22 # ?rest"
    using dropWhile_append_stop[of "\<lambda>c. c \<noteq> CHR 0x22" "escape v"] list_all_escape(1)[of v] by simp_all
  have "read_attrs (concat (map show_attr (av # as))) = (k, legible v) # read_attrs ?rest"
    unfolding s by (subst read_attrs.simps) (simp only: list.sel key val Let_def unescape_escape list.distinct if_False)
  then show ?case using Cons by (simp add: av)
qed

lemma tokens_Nil [simp]: "tokens [] = []"
  by (simp add: tokens.simps)

lemma tokens_text: "tokens (escape t @ s) = map Chr (legible t) @ tokens s"
proof -
  have all: "\<And>c. c \<in> set (escape t) \<Longrightarrow> c \<noteq> CHR ''<''"
    using list_all_escape(3)[of t] by (auto simp: list_all_iff)
  have "takeWhile (\<lambda>c. c \<noteq> CHR ''<'') (escape t @ s) = escape t @ takeWhile (\<lambda>c. c \<noteq> CHR ''<'') s"
    "dropWhile (\<lambda>c. c \<noteq> CHR ''<'') (escape t @ s) = dropWhile (\<lambda>c. c \<noteq> CHR ''<'') s"
    using all by (auto intro: takeWhile_append2 dropWhile_append2)
  then have "tokens (escape t @ s)
      = map Chr (legible t) @ map Chr (unescape (takeWhile (\<lambda>c. c \<noteq> CHR ''<'') s))
        @ (case dropWhile (\<lambda>c. c \<noteq> CHR ''<'') s of
             [] \<Rightarrow> []
           | _ # r \<Rightarrow> read_tag (takeWhile (\<lambda>c. c \<noteq> CHR ''>'') r)
               # tokens (tl (dropWhile (\<lambda>c. c \<noteq> CHR ''>'') r)))"
    by (subst tokens.simps) (simp only: unescape_escape_append map_append append_assoc)
  also have "\<dots> = map Chr (legible t) @ tokens s" by (subst tokens.simps[of s]) (rule refl)
  finally show ?thesis .
qed

lemma tokens_tag:
  assumes "list_all (\<lambda>c. c \<noteq> CHR ''>'') body"
  shows "tokens (CHR ''<'' # body @ CHR ''>'' # s) = read_tag body # tokens s"
  using dropWhile_append_stop[of "\<lambda>c. c \<noteq> CHR ''>''" body "CHR ''>''" s] assms
  by (subst tokens.simps) simp

lemma read_open_tag:
  assumes "plain_word t" and "list_all (\<lambda>av. plain_word (fst av)) as"
  shows "read_tag (t @ concat (map show_attr as)) = Open t (map (\<lambda>(k, v). (k, legible v)) as)"
proof -
  obtain c t' where t: "t = c # t'" "c \<noteq> CHR ''/''"
    using assms(1) by (cases t) (auto simp: plain_word_def)
  have name: "\<And>c. c \<in> set t \<Longrightarrow> c \<noteq> CHR '' ''"
    using list_all_plain(2)[OF assms(1)] by (auto simp: list_all_iff)
  have "takeWhile (\<lambda>c. c \<noteq> CHR '' '') (concat (map show_attr as)) = []
      \<and> dropWhile (\<lambda>c. c \<noteq> CHR '' '') (concat (map show_attr as)) = concat (map show_attr as)"
    by (cases as) (simp_all add: show_attr_def)
  then have "takeWhile (\<lambda>c. c \<noteq> CHR '' '') (t @ concat (map show_attr as)) = t"
    "dropWhile (\<lambda>c. c \<noteq> CHR '' '') (t @ concat (map show_attr as)) = concat (map show_attr as)"
    using name by (simp_all add: takeWhile_append2 dropWhile_append2)
  moreover have "take 1 (t @ concat (map show_attr as)) \<noteq> ''/''" by (simp add: t)
  ultimately show ?thesis
    unfolding read_tag_def by (simp only: if_False read_attrs_shown[OF assms(2)])
qed

lemma open_tag_closed:
  assumes "plain_word t" and "list_all (\<lambda>av. plain_word (fst av)) as"
  shows "list_all (\<lambda>c. c \<noteq> CHR ''>'') (t @ concat (map show_attr as))"
proof -
  have "CHR ''>'' \<notin> set (show_attr av)" if "av \<in> set as" for av
    using that assms(2) escape_inert[of "CHR ''>''" "snd av"]
    by (auto simp: show_attr_def list_all_iff plain_word_def)
  then show ?thesis using assms(1) by (auto simp: list_all_iff plain_word_def)
qed

lemma tokens_element:
  assumes "plain_word t" and "list_all (\<lambda>av. plain_word (fst av)) as"
  shows "tokens (''<'' @ t @ concat (map show_attr as) @ ''>'' @ s)
    = Open t (map (\<lambda>(k, v). (k, legible v)) as) # tokens s"
  using tokens_tag[OF open_tag_closed[OF assms], of s] read_open_tag[OF assms] by simp

lemma tokens_close: "plain_word t \<Longrightarrow> tokens (''</'' @ t @ ''>'' @ s) = Close t # tokens s"
  using tokens_tag[of "CHR ''/'' # t" s] list_all_plain(3)[of t] by (simp add: read_tag_def)

text \<open>Whatever strings a page shows, reading its text gives back exactly its tags.\<close>

lemma tokens_serialise: "template_tree h \<Longrightarrow> tokens (serialise h @ s) = html_tokens h @ tokens s"
proof (induction h arbitrary: s rule: serialise.induct)
  case (1 t as cs)
  have wf: "plain_word t" "list_all (\<lambda>av. plain_word (fst av)) as" using "1.prems" by simp_all
  have "tokens (concat (map serialise ds) @ u) = concat (map html_tokens ds) @ tokens u"
    if "set ds \<subseteq> set cs" for ds u
    using that
  proof (induction ds)
    case Nil
    then show ?case by simp
  next
    case (Cons d ds)
    have "template_tree d" using "1.prems" Cons.prems by (auto simp: list_all_iff)
    then show ?case using "1.IH"[of d] Cons by simp
  qed
  then have children: "tokens (concat (map serialise cs) @ u) = concat (map html_tokens cs) @ tokens u" for u
    by simp
  let ?close = "if void_element t then '''' else ''</'' @ t @ ''>''"
  have "tokens (serialise (Elem t as cs) @ s)
      = Open t (map (\<lambda>(k, v). (k, legible v)) as) # tokens (concat (map serialise cs) @ ?close @ s)"
    using tokens_element[OF wf, of "concat (map serialise cs) @ ?close @ s"] by simp
  then show ?case
    using tokens_close[OF wf(1), of s] by (simp add: children)
next
  case (2 t)
  then show ?case by (simp add: tokens_text)
qed

section \<open>Forms\<close>

text \<open>The controls of a form that can contribute to what it submits.\<close>

datatype control =
    TextField string
  | CheckBox string string
  | RadioButton string string
  | TextArea string

definition attr_or_empty :: "string \<Rightarrow> html \<Rightarrow> string" where
  "attr_or_empty k e = (case el_attr k e of None \<Rightarrow> '''' | Some v \<Rightarrow> v)"

definition control_of :: "html \<Rightarrow> control option" where
  "control_of e =
     (if el_tag e = ''textarea'' then Some (TextArea (attr_or_empty ''name'' e))
      else if el_tag e = ''input'' then
        (if attr_or_empty ''type'' e = ''checkbox''
         then Some (CheckBox (attr_or_empty ''name'' e) (attr_or_empty ''value'' e))
         else if attr_or_empty ''type'' e = ''radio''
         then Some (RadioButton (attr_or_empty ''name'' e) (attr_or_empty ''value'' e))
         else Some (TextField (attr_or_empty ''name'' e)))
      else None)"

definition controls :: "html \<Rightarrow> control list" where
  "controls form = List.map_filter control_of (elements form)"

text \<open>
  A user fills in a form: which boxes and buttons are set, and what the text controls hold.
  An unset box or button submits nothing, a text area its text with the browser's line
  breaks.
\<close>

record filling =
  is_set :: "string \<Rightarrow> string \<Rightarrow> bool"
  holds :: "string \<Rightarrow> string"

fun control_entries :: "filling \<Rightarrow> control \<Rightarrow> (string \<times> string) list" where
  "control_entries f (TextField n) = [(n, holds f n)]"
| "control_entries f (CheckBox n v) = (if is_set f n v then [(n, v)] else [])"
| "control_entries f (RadioButton n v) = (if is_set f n v then [(n, v)] else [])"
| "control_entries f (TextArea n) = [(n, browser_newlines (holds f n))]"

definition form_entries :: "filling \<Rightarrow> html \<Rightarrow> (string \<times> string) list" where
  "form_entries f form = concat (map (control_entries f) (controls form))"

text \<open>\<open>PostForm\<close> of the entries: the values of each name, in their order.\<close>

definition post_form :: "(string \<times> string) list \<Rightarrow> (string \<rightharpoonup> string list)" where
  "post_form es k =
     (let vs = map snd (filter (\<lambda>e. fst e = k) es) in if vs = [] then None else Some vs)"

text \<open>The requests of a browser: following a link, and submitting a form.\<close>

definition follow_link :: "string \<Rightarrow> http_request" where
  "follow_link url = \<lparr>rq_method = ''GET'', rq_segments = path_segments url,
     rq_postForm = Inr Map.empty, rq_cookies = []\<rparr>"

definition submit_form :: "filling \<Rightarrow> html \<Rightarrow> http_request" where
  "submit_form f form = \<lparr>rq_method = attr_or_empty ''method'' form,
     rq_segments = path_segments (attr_or_empty ''action'' form),
     rq_postForm = Inr (post_form (form_entries f form)), rq_cookies = []\<rparr>"

end
