(* ===== verification/Ui_Templates.thy ===== *)
theory Ui_Templates
  imports Ui_Html
begin

text \<open>
  The templates of \<open>internal/ui/templates\<close> as functions from their data to trees, in the order
  of the files, with \<open>render\<close> and \<open>renderPage\<close>. The style sheet has no action and is left
  out of its element. \<open>zone\<close> gives the abbreviation that the location of a time prints as.
\<close>

section \<open>Text of the templates\<close>

definition mdash :: string where "mdash = [CHR 0xE2, CHR 0x80, CHR 0x94]"
definition middot :: string where "middot = [CHR 0xC2, CHR 0xB7]"
definition larrow :: string where "larrow = [CHR 0xE2, CHR 0x86, CHR 0x90]"

text \<open>
  \<open>html/template\<close> passes a value in the path of a URL through its normaliser: reserved and
  unreserved characters and well-formed escapes stay, other bytes are percent-encoded.
\<close>

definition is_hex :: "char \<Rightarrow> bool" where
  "is_hex c \<longleftrightarrow> is_digit c \<or> (97 \<le> byte_of c \<and> byte_of c \<le> 102) \<or> (65 \<le> byte_of c \<and> byte_of c \<le> 70)"

fun urlnormalize :: "string \<Rightarrow> string" where
  "urlnormalize [] = []"
| "urlnormalize (c # cs) =
     (if c \<in> set ''!#$&*+,/:;=?@[]-._~'' \<or> is_lower c \<or> is_upper c \<or> is_digit c then [c]
      else if c = CHR ''%'' \<and> 2 \<le> length cs \<and> is_hex (cs ! 0) \<and> is_hex (cs ! 1) then [c]
      else CHR ''%'' # hex_digits 2 (byte_of c))
     @ urlnormalize cs"

text \<open>
  \<open>time.Time.String\<close> for a time without monotonic clock reading: layout
  \<open>2006-01-02 15:04:05.999999999 -0700 MST\<close>, trailing zeros of the fraction dropped.
\<close>

definition fraction :: "int \<Rightarrow> string" where
  "fraction nanos =
     (if nanos = 0 then ''''
      else ''.'' @ rev (dropWhile (\<lambda>c. c = CHR ''0'') (rev (pad 9 (nat nanos)))))"

definition time_String :: "(gotime \<Rightarrow> string) \<Rightarrow> gotime \<Rightarrow> string" where
  "time_String zone t =
     (let secs = unixNano t div 1000000000 + zoneOffset t;
          sod = nat (secs mod 86400);
          off = nat (\<bar>zoneOffset t\<bar> div 60)
      in case civil_from_days (secs div 86400) of (y, m, d) \<Rightarrow>
           (if y < 0 then ''-'' else '''') @ pad 4 (nat \<bar>y\<bar>) @ ''-'' @ pad 2 m @ ''-'' @ pad 2 d
           @ '' '' @ pad 2 (sod div 3600) @ '':'' @ pad 2 (sod mod 3600 div 60)
           @ '':'' @ pad 2 (sod mod 60) @ fraction (unixNano t mod 1000000000)
           @ '' '' @ (if zoneOffset t \<le> -60 then ''-'' else ''+'') @ pad 2 (off div 60) @ pad 2 (off mod 60)
           @ '' '' @ zone t)"

section \<open>\<open>partials.html\<close>\<close>

definition styles :: html where
  "styles = Elem ''style'' [] []"

definition nav :: html where
  "nav = Elem ''header'' [] [Elem ''nav'' []
     [Elem ''a'' [(''href'', ''/polls'')] [Txt (larrow @ '' All polls'')]]]"

definition flash :: "string \<Rightarrow> html list" where
  "flash msg = (if msg \<noteq> '''' then [Elem ''div'' [(''class'', ''flash'')] [Txt msg]] else [])"

text \<open>The head that both pages have.\<close>

definition page_head :: "string \<Rightarrow> html" where
  "page_head title = Elem ''head'' []
     [Elem ''meta'' [(''charset'', ''utf-8'')] [],
      Elem ''meta'' [(''name'', ''viewport''), (''content'', ''width=device-width, initial-scale=1'')] [],
      Elem ''title'' [] [Txt (title @ '' '' @ mdash @ '' poll-operator'')],
      styles]"

definition phase_class :: "string \<Rightarrow> string" where
  "phase_class phase =
     ''phase '' @ (if phase = ''Open'' then ''open'' else if phase = ''Closed'' then ''closed'' else '''')"

definition phase_text :: "string \<Rightarrow> string" where
  "phase_text phase = (if phase \<noteq> '''' then phase else ''Pending'')"

definition counted_noun :: "int32 \<Rightarrow> string \<Rightarrow> string" where
  "counted_noun n noun = show_int32 n @ '' '' @ noun @ (if n \<noteq> 1 then ''s'' else '''')"

section \<open>\<open>index.html\<close>\<close>

definition poll_row :: "pollListItem \<Rightarrow> html" where
  "poll_row i = Elem ''li'' []
     [Elem ''div'' []
        [Elem ''a'' [(''href'', ''/polls/'' @ urlnormalize (li_namespace i) @ ''/'' @ urlnormalize (li_name i))]
           [Elem ''strong'' [] [Txt (li_title i)]],
         Elem ''div'' [(''class'', ''meta'')]
           [Txt (li_namespace i @ '' / '' @ li_name i @ '' '' @ middot @ '' ''
              @ counted_noun (li_totalResponses i) ''response'')]],
      Elem ''span'' [(''class'', phase_class (li_phase i))] [Txt (phase_text (li_phase i))]]"

definition index_html :: "string \<Rightarrow> pollListItem list \<Rightarrow> html" where
  "index_html title polls = Elem ''html'' [(''lang'', ''en'')]
     [page_head title,
      Elem ''body'' [] [Elem ''main'' []
        (flash ''''
         @ [Elem ''h1'' [] [Txt ''Polls''],
            (if polls \<noteq> [] then Elem ''ul'' [(''class'', ''poll-list'')] (map poll_row polls)
             else Elem ''p'' [] [Txt ''No polls found. Try '',
               Elem ''code'' [] [Txt ''kubectl apply -k config/samples/''], Txt ''.''])])]]"

section \<open>\<open>poll.html\<close>\<close>

definition poll_summary :: "(gotime \<Rightarrow> string) \<Rightarrow> Poll \<Rightarrow> html" where
  "poll_summary zone poll = Elem ''div'' [(''class'', ''meta'')]
     [Txt (m_namespace (p_meta poll) @ '' / '' @ m_name (p_meta poll) @ '' '' @ middot @ '' ''),
      Elem ''span'' [(''class'', phase_class (st_phase (p_status poll)))]
        [Txt (phase_text (st_phase (p_status poll)))],
      Txt ('' '' @ middot @ '' '' @ counted_noun (st_totalResponses (p_status poll)) ''response'' @ '' ''
        @ (case ps_closesAt (p_spec poll) of None \<Rightarrow> ''''
           | Some t \<Rightarrow> middot @ '' closes at '' @ time_String zone t))]"

definition result_row :: "int32 \<Rightarrow> optionView \<Rightarrow> html" where
  "result_row most ov = Elem ''li'' []
     [Elem ''span'' [] [Txt (ov_option ov)],
      Elem ''span'' [(''class'', ''bar''),
        (''style'', ''width: '' @ show_int32 (barWidth (ov_votes ov) most) @ ''%'')] [],
      Elem ''span'' [] [Txt (show_int32 (ov_votes ov))]]"

definition question_results :: "questionView \<Rightarrow> html" where
  "question_results q = Elem ''fieldset'' []
     [Elem ''legend'' [] [Txt (qv_prompt q)],
      (if qv_type q = ''Choice''
       then Elem ''ul'' [(''class'', ''results'')]
              (map (result_row (maxVotes (qv_options q))) (qv_options q))
       else Elem ''p'' [] [Txt (counted_noun (qv_textResponses q) ''free-text response'')])]"

definition choice_control :: "bool \<Rightarrow> string \<Rightarrow> optionView \<Rightarrow> html" where
  "choice_control multi qid ov = Elem ''label'' [(''class'', ''choice'')]
     [(if multi
       then Elem ''input'' [(''type'', ''checkbox''), (''name'', ''q.'' @ qid), (''value'', ov_option ov)] []
       else Elem ''input'' [(''type'', ''radio''), (''name'', ''q.'' @ qid), (''value'', ov_option ov)] []),
      Txt ('' '' @ ov_option ov)]"

definition text_control :: "questionView \<Rightarrow> html" where
  "text_control q = Elem ''textarea''
     ([(''name'', ''q.'' @ qv_id q), (''rows'', ''3'')]
      @ (if qv_maxLength q \<noteq> 0 then [(''maxlength'', show_int32 (qv_maxLength q))] else [])) []"

definition question_controls :: "questionView \<Rightarrow> html" where
  "question_controls q = Elem ''fieldset'' []
     (Elem ''legend'' [] [Txt (qv_prompt q)]
      # (if qv_type q = ''Choice''
         then map (choice_control (qv_allowMultiple q) (qv_id q)) (qv_options q)
         else [text_control q]))"

definition vote_form :: "Poll \<Rightarrow> questionView list \<Rightarrow> html" where
  "vote_form poll questions = Elem ''form''
     [(''method'', ''POST''),
      (''action'', ''/polls/'' @ urlnormalize (m_namespace (p_meta poll)) @ ''/''
         @ urlnormalize (m_name (p_meta poll)) @ ''/vote'')]
     (Elem ''label'' []
        [Txt ''Your name (optional) '',
         Elem ''input'' [(''type'', ''text''), (''name'', ''respondent''), (''maxlength'', ''253''),
           (''autocomplete'', ''off'')] []]
      # map question_controls questions
      @ [Elem ''button'' [(''type'', ''submit'')] [Txt ''Submit response'']])"

definition poll_html :: "(gotime \<Rightarrow> string) \<Rightarrow> string \<Rightarrow> Poll \<Rightarrow> questionView list \<Rightarrow> string \<Rightarrow> bool \<Rightarrow> html" where
  "poll_html zone title poll questions msg isOpen = Elem ''html'' [(''lang'', ''en'')]
     [page_head title,
      Elem ''body'' []
        [nav,
         Elem ''main'' []
           (flash msg
            @ [Elem ''h1'' [] [Txt (ps_title (p_spec poll))],
               poll_summary zone poll,
               Elem ''h2'' [] [Txt ''Results'']]
            @ map question_results questions
            @ (if isOpen
               then [Elem ''h2'' [] [Txt ''Cast a vote''], vote_form poll questions]
               else [Elem ''p'' [] [Elem ''em'' [] [Txt ''This poll is not accepting responses.'']]]))]]"

section \<open>Executing a template\<close>

text \<open>
  \<open>render\<close>: the handlers name a template together with the data it reads, so the constructor of
  a page stands for its template. Execution only fails when the connection does, which \<open>renderPage\<close> logs.
\<close>

definition render :: "(gotime \<Rightarrow> string) \<Rightarrow> page \<Rightarrow> html" where
  "render zone data =
     (case data of
        IndexPage title polls \<Rightarrow> index_html title polls
      | PollPage title poll questions msg isOpen \<Rightarrow> poll_html zone title poll questions msg isOpen)"

record page_reply =
  pr_contentType :: string
  pr_body :: string

definition renderPage :: "(gotime \<Rightarrow> string) \<Rightarrow> page \<Rightarrow> page_reply" where
  "renderPage zone data =
     \<lparr>pr_contentType = ''text/html; charset=utf-8'',
      pr_body = ''<!doctype html>'' @ serialise (render zone data)\<rparr>"

lemmas page_part_defs =
  styles_def nav_def flash_def page_head_def poll_row_def index_html_def poll_summary_def result_row_def
  question_results_def choice_control_def text_control_def question_controls_def vote_form_def poll_html_def

section \<open>The elements of a page\<close>

lemma template_tree_render: "template_tree (render zone data)"
  by (cases data) (auto simp: render_def page_part_defs plain_word_def list_all_iff)

lemma elements_named_simps [simp]:
  "elements_named t (Txt s) = []"
  "elements_named t (Elem t' as cs)
     = (if t' = t then [Elem t' as cs] else []) @ concat (map (elements_named t) cs)"
  by (simp_all add: elements_named_def[abs_def] filter_concat comp_def)

lemma concat_map_Nil [simp]: "concat (map (\<lambda>x. []) xs) = []"
  by simp

text \<open>Rows, summaries and questions have no links and forms of their own.\<close>

lemma named_parts [simp]:
  "elements_named ''a'' (page_head title) = []" "elements_named ''form'' (page_head title) = []"
  "concat (map (elements_named ''a'') (flash msg)) = []"
  "concat (map (elements_named ''form'') (flash msg)) = []"
  "elements_named ''a'' (poll_summary zone poll) = []" "elements_named ''form'' (poll_summary zone poll) = []"
  "elements_named ''form'' nav = []" "elements_named ''form'' (poll_row i) = []"
  by (simp_all add: page_part_defs)

lemma named_questions [simp]:
  "elements_named ''a'' (question_results q) = []" "elements_named ''form'' (question_results q) = []"
  "elements_named ''a'' (question_controls q) = []" "elements_named ''form'' (question_controls q) = []"
  by (simp_all add: page_part_defs comp_def)

lemma named_vote_form [simp]:
  "elements_named ''a'' (vote_form poll questions) = []"
  "elements_named ''form'' (vote_form poll questions) = [vote_form poll questions]"
  by (simp_all add: vote_form_def comp_def)

lemma page_forms:
  "elements_named ''form'' (index_html title polls) = []"
  "elements_named ''form'' (poll_html zone title poll questions msg isOpen)
     = (if isOpen then [vote_form poll questions] else [])"
  by (simp_all add: index_html_def poll_html_def comp_def)

definition poll_link :: "pollListItem \<Rightarrow> string" where
  "poll_link i = ''/polls/'' @ urlnormalize (li_namespace i) @ ''/'' @ urlnormalize (li_name i)"

lemma row_links [simp]:
  "elements_named ''a'' (poll_row i) = [Elem ''a'' [(''href'', poll_link i)] [Elem ''strong'' [] [Txt (li_title i)]]]"
  by (simp add: poll_row_def poll_link_def)

lemma page_links:
  "hrefs (index_html title polls) = map poll_link polls"
  "hrefs (poll_html zone title poll questions msg isOpen) = [''/polls'']"
proof -
  have "List.map_filter (el_attr ''href'') (concat (map (elements_named ''a'') (map poll_row is)))
      = map poll_link is" for "is"
    by (induction "is") (simp_all add: List.map_filter_simps)
  then show "hrefs (index_html title polls) = map poll_link polls"
    by (simp add: hrefs_def index_html_def List.map_filter_simps comp_def)
  show "hrefs (poll_html zone title poll questions msg isOpen) = [''/polls'']"
    by (simp add: hrefs_def poll_html_def nav_def List.map_filter_simps comp_def)
qed

text \<open>Names of Kubernetes objects pass the normaliser unchanged.\<close>

lemma urlnormalize_segment:
  assumes "url_segment s"
  shows "urlnormalize s = s"
proof -
  have "urlnormalize t = t"
    if "list_all (\<lambda>c. is_lower c \<or> is_digit c \<or> c = CHR ''-'' \<or> c = CHR ''.'') t" for t
    using that by (induction t) auto
  then show ?thesis using assms by (simp add: url_segment_def)
qed

text \<open>The controls of the vote form.\<close>

definition question_control_list :: "questionView \<Rightarrow> control list" where
  "question_control_list q =
     (if qv_type q = QuestionTypeChoice
      then map (\<lambda>ov. if qv_allowMultiple q then CheckBox (''q.'' @ qv_id q) (ov_option ov)
                 else RadioButton (''q.'' @ qv_id q) (ov_option ov)) (qv_options q)
      else [TextArea (''q.'' @ qv_id q)])"

lemma map_filter_concat: "List.map_filter f (concat xss) = concat (map (List.map_filter f) xss)"
  by (induction xss) (simp_all add: List.map_filter_def)

lemma controls_simps [simp]:
  "controls (Txt s) = []"
  "controls (Elem t as cs)
     = (case control_of (Elem t as cs) of None \<Rightarrow> [] | Some c \<Rightarrow> [c]) @ concat (map controls cs)"
  by (simp_all add: controls_def[abs_def] List.map_filter_simps map_filter_concat comp_def split: option.split)

lemma controls_choice:
  "controls (choice_control multi qid ov)
    = [if multi then CheckBox (''q.'' @ qid) (ov_option ov) else RadioButton (''q.'' @ qid) (ov_option ov)]"
  by (simp add: choice_control_def control_of_def attr_or_empty_def)

lemma controls_text: "controls (text_control q) = [TextArea (''q.'' @ qv_id q)]"
  by (simp add: text_control_def control_of_def attr_or_empty_def)

lemma controls_question: "controls (question_controls q) = question_control_list q"
proof -
  have "concat (map controls (map (choice_control multi qid) ovs))
      = map (\<lambda>ov. if multi then CheckBox (''q.'' @ qid) (ov_option ov)
               else RadioButton (''q.'' @ qid) (ov_option ov)) ovs" for multi qid ovs
    by (induction ovs) (simp_all add: controls_choice)
  then show ?thesis
    by (simp add: question_controls_def question_control_list_def control_of_def controls_text
        question_type_defs)
qed

lemma controls_vote_form:
  "controls (vote_form poll questions)
    = TextField ''respondent'' # concat (map question_control_list questions)"
  by (simp add: vote_form_def control_of_def attr_or_empty_def comp_def controls_question)

end
