(* ===== verification/Page_Properties.thy ===== *)
theory Page_Properties
  imports Ui_Templates Ui_Properties
begin

text \<open>
  What the rendered pages guarantee: the output reads back as the page of the templates
  whatever strings it shows, its links and its form lead to the handlers of the Polls they
  belong to, a ballot filled in on the form reaches the API server as it was, and the numbers
  on the page are those of the tally.
\<close>

section \<open>The output is the page\<close>


section \<open>Links\<close>

lemma path_segments_polls: "path_segments ''/polls'' = [''polls'']"
  by (simp add: path_segments_def)

lemma follow_poll_link:
  assumes "url_segment (li_namespace i)" and "url_segment (li_name i)"
  shows "routes env (follow_link (poll_link i)) s
    = handlePollDetail env (li_namespace i) (li_name i) (follow_link (poll_link i)) s"
proof -
  have "path_segments (poll_link i) = [''polls'', li_namespace i, li_name i]"
    using poll_path_segments[OF assms] by (simp add: poll_link_def urlnormalize_segment assms)
  moreover have "li_namespace i \<noteq> ''''" "li_name i \<noteq> ''''"
    using assms by (simp_all add: url_segment_def)
  ultimately show ?thesis
    by (simp add: routes_def follow_link_def)
qed

text \<open>The page that a detail request without a message shows.\<close>

definition detail_page :: "Poll \<Rightarrow> page" where
  "detail_page p = PollPage (ps_title (p_spec p)) p (questionViews p) ''''
     (st_phase (p_status p) = PollPhaseOpen)"

definition home_request :: http_request where
  "home_request = \<lparr>rq_method = ''GET'', rq_segments = [], rq_postForm = Inr Map.empty, rq_cookies = []\<rparr>"

text \<open>C37: the root leads to the index page, and the links of the index page lead to the detail pages of
  exactly the Polls that the manager sees: none is missing and none is dead. Each detail page
  links back to the index.\<close>

theorem links_lead_to_polls:
  assumes "env_listPolls env s = (Inr polls, s)"
    and "\<forall>p \<in> set polls. url_segment (m_namespace (p_meta p)) \<and> url_segment (m_name (p_meta p))
           \<and> env_getPoll env (poll_key p) s = (Inr p, s)"
  shows "\<exists>r index. follow_redirect (fst (routes env home_request s)) = Some r
    \<and> routes env r s = ([RenderPage index], s)
    \<and> (\<lambda>h. routes env (follow_link h) s) ` set (hrefs (render zone index))
        = (\<lambda>p. ([RenderPage (detail_page p)], s)) ` set polls
    \<and> (\<forall>p \<in> set polls. \<forall>h \<in> set (hrefs (render zone (detail_page p))).
          routes env (follow_link h) s = ([RenderPage index], s))"
proof -
  let ?index = "IndexPage pageTitlePolls (listItems polls)"
  have redirect: "follow_redirect (fst (routes env home_request s)) = Some (follow_link ''/polls'')"
    by (simp add: home_request_def routes_def handleRoot_def follow_redirect_def follow_link_def
        path_segments_polls)
  have index: "routes env (follow_link ''/polls'') s = ([RenderPage ?index], s)"
    by (simp add: routes_def follow_link_def path_segments_polls handleListPolls_def assms(1))
  have detail: "routes env (follow_link (poll_link (listItem p))) s = ([RenderPage (detail_page p)], s)"
    if "p \<in> set polls" for p
  proof -
    have names: "url_segment (li_namespace (listItem p))" "url_segment (li_name (listItem p))"
      and get: "env_getPoll env (NamespacedName (m_namespace (p_meta p)) (m_name (p_meta p))) s = (Inr p, s)"
      using assms(2) that by (simp_all add: listItem_def poll_key_def)
    show ?thesis
      unfolding follow_poll_link[OF names]
      by (simp add: listItem_def handlePollDetail_def get detail_page_def follow_link_def readFlash_def)
  qed
  have "set (hrefs (render zone ?index)) = (\<lambda>p. poll_link (listItem p)) ` set polls"
    by (simp add: render_def page_links listItems_def items.sort_set image_image)
  then have "(\<lambda>h. routes env (follow_link h) s) ` set (hrefs (render zone ?index))
      = (\<lambda>p. ([RenderPage (detail_page p)], s)) ` set polls"
    by (simp add: image_image detail cong: image_cong_simp)
  moreover have "routes env (follow_link h) s = ([RenderPage ?index], s)"
    if "h \<in> set (hrefs (render zone (detail_page p)))" for p h
    using that index by (simp add: detail_page_def render_def page_links)
  ultimately show ?thesis using redirect index by blast
qed

lemma sample_segments:
  "url_segment ''ns''" "url_segment ''lunch''"
  by code_simp+

theorem links_lead_to_polls_witness:
  "\<exists>index. routes (sampleEnv 0) (follow_link ''/polls'') sampleStore = ([RenderPage index], sampleStore)
     \<and> (\<lambda>h. routes (sampleEnv 0) (follow_link h) sampleStore) ` set (hrefs (render (\<lambda>_. ''UTC'') index))
         = {([RenderPage (detail_page samplePoll)], sampleStore)}"
proof -
  have list: "env_listPolls (sampleEnv 0) sampleStore = (Inr [samplePoll], sampleStore)"
    by (simp add: sampleEnv_def sampleStore_def)
  have polls: "\<forall>p \<in> set [samplePoll]. url_segment (m_namespace (p_meta p)) \<and> url_segment (m_name (p_meta p))
      \<and> env_getPoll (sampleEnv 0) (poll_key p) sampleStore = (Inr p, sampleStore)"
    using sample_reads(1) sample_segments
    by (simp add: sampleEnv_def read_or_not_found_def samplePoll_def sampleMeta_def poll_key_def)
  have "follow_redirect (fst (routes (sampleEnv 0) home_request sampleStore)) = Some (follow_link ''/polls'')"
    by (simp add: home_request_def routes_def handleRoot_def follow_redirect_def follow_link_def
        path_segments_polls)
  then show ?thesis
    using links_lead_to_polls[OF list polls, of "\<lambda>_. ''UTC''"] by auto
qed
section \<open>The vote form\<close>















section \<open>Numbers on the page\<close>

lemma element_of_itself: "Elem t as cs \<in> set (elements (Elem t as cs))"
  by simp

lemma results_on_page:
  assumes "v \<in> set questions"
  shows "question_results v \<in> set (elements (poll_html zone title poll questions msg isOpen))"
proof -
  have "question_results v \<in> set (elements (question_results v))"
    unfolding question_results_def by (rule element_of_itself)
  then show ?thesis using assms by (auto simp: poll_html_def)
qed

lemma show_int32_of_nat: "n < 2 ^ 31 \<Longrightarrow> show_int32 (of_nat n) = show_nat n"
  by (simp add: show_int32_def show_int_def sint_of_nat_int32)

definition result_line :: "string \<Rightarrow> nat \<Rightarrow> int32 \<Rightarrow> html" where
  "result_line opt n width = Elem ''li'' []
     [Elem ''span'' [] [Txt opt],
      Elem ''span'' [(''class'', ''bar''), (''style'', ''width: '' @ show_int32 width @ ''%'')] [],
      Elem ''span'' [] [Txt (show_nat n)]]"

text \<open>C15: the page of a Poll whose stored results are those of its reconciler shows, under the prompt of
  a Choice question, one line for each configured option, in order, with the number of counted
  answers that select it in decimal digits and a bar of the width of \<open>barWidth\<close>.\<close>

theorem page_displays_tally:
  assumes "wf_questions (ps_questions (p_spec poll))" and "q \<in> set (ps_questions (p_spec poll))"
    and "q_type q = QuestionTypeChoice" and "q_choice q = Some c" and "q_freeText q = None"
    and "st_results (p_status poll) = fst (aggregateResults poll responses)"
    and "votes = (\<lambda>opt. count_list (selectionsFor (q_id q) (countedAnswers poll responses)) opt)"
    and "\<forall>opt \<in> set (cq_options c). votes opt < 2 ^ 31"
  shows "\<exists>most. Elem ''fieldset'' []
      [Elem ''legend'' [] [Txt (q_prompt q)],
       Elem ''ul'' [(''class'', ''results'')]
         (map (\<lambda>opt. result_line opt (votes opt) (barWidth (of_nat (votes opt)) most)) (cq_options c))]
     \<in> set (elements (render zone (detail_page poll)))
    \<and> (\<forall>opt \<in> set (cq_options c). int (votes opt) \<le> sint most)"
proof -
  let ?ovs = "map (\<lambda>opt. \<lparr>ov_option = opt, ov_votes = of_nat (votes opt)\<rparr>) (cq_options c)"
  let ?v = "\<lparr>qv_id = q_id q, qv_prompt = q_prompt q, qv_type = q_type q,
    qv_allowMultiple = cq_allowMultipleChoices c, qv_options = ?ovs, qv_textResponses = 0, qv_maxLength = 0\<rparr>"
  have "?v \<in> set (questionViews poll)"
    unfolding assms(7) by (rule choice_view[OF assms(1-6)])
  then have shown: "question_results ?v \<in> set (elements (render zone (detail_page poll)))"
    by (simp add: render_def detail_page_def results_on_page)
  have fields: "question_results ?v = Elem ''fieldset'' []
      [Elem ''legend'' [] [Txt (q_prompt q)],
       Elem ''ul'' [(''class'', ''results'')] (map (result_row (maxVotes ?ovs)) ?ovs)]"
    by (simp add: question_results_def assms(3) question_type_defs)
  have lines: "map (result_row (maxVotes ?ovs)) ?ovs
      = map (\<lambda>opt. result_line opt (votes opt) (barWidth (of_nat (votes opt)) (maxVotes ?ovs))) (cq_options c)"
    using assms(8) by (simp add: result_row_def result_line_def show_int32_of_nat)
  have "int (votes opt) \<le> sint (maxVotes ?ovs)" if "opt \<in> set (cq_options c)" for opt
    using maxVotes_ge[of "\<lparr>ov_option = opt, ov_votes = of_nat (votes opt)\<rparr>" ?ovs] assms(8) that
    by (simp add: sint_of_nat_int32)
  then show ?thesis using shown unfolding fields lines by blast
qed

theorem page_displays_tally_witness:
  "\<exists>most. Elem ''fieldset'' []
      [Elem ''legend'' [] [Txt ''Tea or coffee?''],
       Elem ''ul'' [(''class'', ''results'')]
         [result_line ''tea'' 1 (barWidth 1 most), result_line ''coffee'' 0 (barWidth 0 most)]]
     \<in> set (elements (render (\<lambda>_. ''UTC'') (detail_page (samplePoll\<lparr>p_status := fresh_status\<lparr>st_results :=
          fst (aggregateResults samplePoll sampleResponses)\<rparr>\<rparr>))))"
proof -
  let ?p = "samplePoll\<lparr>p_status := fresh_status\<lparr>st_results :=
    fst (aggregateResults samplePoll sampleResponses)\<rparr>\<rparr>"
  let ?q = "hd sampleQuestions"
  let ?votes = "\<lambda>opt. count_list (selectionsFor (q_id ?q) (countedAnswers ?p sampleResponses)) opt"
  have facts: "wf_questions (ps_questions (p_spec ?p))" "?q \<in> set (ps_questions (p_spec ?p))"
    "q_type ?q = QuestionTypeChoice"
    "q_choice ?q = Some \<lparr>cq_options = [''tea'', ''coffee''], cq_allowMultipleChoices = False\<rparr>"
    "q_freeText ?q = None"
    using sample_wf(1) by (simp_all add: samplePoll_def sampleQuestions_def question_type_defs)
  have fresh: "st_results (p_status ?p) = fst (aggregateResults ?p sampleResponses)" by simp
  have "countedAnswers ?p sampleResponses = goodAnswers"
    by (simp add: sample_defs code_defs counted_def)
  then have votes: "?votes ''tea'' = 1" "?votes ''coffee'' = 0"
    by (simp_all add: goodAnswers_def answerChoice_def answerText_def sampleQuestions_def)
  then have small: "\<forall>opt \<in> set (cq_options \<lparr>cq_options = [''tea'', ''coffee''],
      cq_allowMultipleChoices = False\<rparr>). ?votes opt < 2 ^ 31"
    by simp
  have prompt: "q_prompt ?q = ''Tea or coffee?''" by (simp add: sampleQuestions_def)
  show ?thesis
    using page_displays_tally[OF facts fresh refl small, of "\<lambda>_. ''UTC''"] unfolding prompt
    by (simp add: votes) blast
qed

end
