(* ===== verification/Voting.thy ===== *)
theory Voting
  imports Memory_Store Ui_Answers Crd_Schema
begin

text \<open>
  From the form to the tally: a vote cast in the UI passes the schema and the webhook, is
  stored, judged, and counted. \<open>voting_store\<close> extends the contract of the store by the creation
  of a response; the store in memory meets it.
\<close>

section \<open>Creating a response\<close>

locale voting_store = api_store +
  assumes create_response: "admitted (PollResponse_ValidateCreate r) \<Longrightarrow> schema_response_spec (r_spec r) \<Longrightarrow>
      rst_conditions (r_status r) = [] \<Longrightarrow>
      \<exists>r' s'. env_createResponse env r s = (Inr r', s') \<and> responses s (response_key r') = None
        \<and> responses s' = (responses s)(response_key r' \<mapsto> r') \<and> polls s' = polls s
        \<and> r_spec r' = r_spec r \<and> m_namespace (r_meta r') = m_namespace (r_meta r)
        \<and> m_deletionTimestamp (r_meta r') = m_deletionTimestamp (r_meta r)
        \<and> m_ownerReferences (r_meta r') = m_ownerReferences (r_meta r)
        \<and> rst_conditions (r_status r') = []"

lemma lookup_append:
  "lookup key k (xs @ [y]) = (if k = key y \<and> lookup key k xs = None then Some y else lookup key k xs)"
  by (induction xs) auto

lemma fresh_name: "r \<in> set (mem_responses s) \<Longrightarrow> length (m_name (r_meta r)) < length (fresh_suffix s)"
proof -
  assume "r \<in> set (mem_responses s)"
  then have "length (m_name (r_meta r)) \<le> sum_list (map (\<lambda>r. length (m_name (r_meta r))) (mem_responses s))"
    by (intro member_le_sum_list) auto
  then show ?thesis by (simp add: fresh_suffix_def)
qed

lemma lookup_None_iff: "lookup key k xs = None \<longleftrightarrow> k \<notin> key ` set xs"
  by (induction xs) auto

lemma mem_create_stores:
  assumes "admitted (PollResponse_ValidateCreate r)" and "rst_conditions (r_status r) = []"
  shows "\<exists>r' s'. mem_create r s = (Inr r', s') \<and> mem_response s (response_key r') = None
    \<and> mem_response s' = (mem_response s)(response_key r' \<mapsto> r') \<and> mem_poll s' = mem_poll s
    \<and> r_spec r' = r_spec r \<and> m_namespace (r_meta r') = m_namespace (r_meta r)
    \<and> m_deletionTimestamp (r_meta r') = m_deletionTimestamp (r_meta r)
    \<and> m_ownerReferences (r_meta r') = m_ownerReferences (r_meta r)
    \<and> rst_conditions (r_status r') = []"
proof -
  let ?r' = "r\<lparr>r_meta := (r_meta r)\<lparr>m_name := m_generateName (r_meta r) @ fresh_suffix s,
    m_generation := 1\<rparr>\<rparr>"
  have new: "response_key x \<noteq> response_key ?r'" if "x \<in> set (mem_responses s)" for x
  proof
    assume "response_key x = response_key ?r'"
    then have "m_name (r_meta x) = m_generateName (r_meta r) @ fresh_suffix s"
      by (simp add: response_key_def)
    with fresh_name[OF that] show False by simp
  qed
  have none: "lookup response_key (response_key ?r') (mem_responses s) = None"
    unfolding lookup_None_iff
  proof
    assume "response_key ?r' \<in> response_key ` set (mem_responses s)"
    then obtain x where x: "response_key ?r' = response_key x" "x \<in> set (mem_responses s)"
      by (rule imageE)
    show False using new[OF x(2)] unfolding x(1) by (rule notE) (rule refl)
  qed
  have create: "mem_create r s = (Inr ?r', s\<lparr>mem_responses := mem_responses s @ [?r']\<rparr>)"
    using assms(1) by (simp add: mem_create_def Let_def)
  have "mem_response (s\<lparr>mem_responses := mem_responses s @ [?r']\<rparr>)
      = (mem_response s)(response_key ?r' \<mapsto> ?r')"
    using none by (auto simp: mem_response_def fun_eq_iff lookup_append)
  moreover have "mem_poll (s\<lparr>mem_responses := mem_responses s @ [?r']\<rparr>) = mem_poll s"
    by (simp add: mem_poll_def fun_eq_iff)
  ultimately show ?thesis
    using create none[folded mem_response_def] assms(2)
    by (intro exI[of _ ?r'] exI[of _ "s\<lparr>mem_responses := mem_responses s @ [?r']\<rparr>"] conjI) simp_all
qed

interpretation memory: voting_store "memory_env pr clock" mem_poll mem_response for pr clock
  by unfold_locales (use mem_create_stores in simp)

section \<open>Votes of the rendered form meet the schema\<close>

lemma length_within_le: "lo \<le> rune_count s \<Longrightarrow> length s \<le> hi \<Longrightarrow> length_within lo hi s"
  using rune_count_le_length[of s] by (simp add: length_within_def)

lemma rendered_answer_schema:
  assumes q: "schema_question q" "wf_question q"
    and sends: "formSends q (form_values form (''q.'' @ q_id q))" and a: "answerFor form q = Some a"
  shows "schema_answer a"
proof -
  let ?vs = "form_values form (''q.'' @ q_id q)"
  have id: "length_within 1 63 (a_questionID a)"
    using q(1) answerFor_SomeD(1)[OF a] by (simp add: schema_question_def)
  consider (choice) "q_type q = QuestionTypeChoice" "a_selectedOptions a = trimmedSelections ?vs" "a_text a = ''''"
    | (freeText) "q_type q = QuestionTypeFreeText" "a_selectedOptions a = []"
        "a_text a = TrimSpace (PostFormValue form (''q.'' @ q_id q))"
    using answerFor_SomeD(2)[OF a] by blast
  then show ?thesis
  proof cases
    case choice
    then obtain c where c: "q_choice q = Some c" using q(2) by (auto simp: wf_question_def)
    have "length (trimmedSelections ?vs) \<le> length ?vs"
      using length_filter_le[of "\<lambda>v. v \<noteq> ''''" "map TrimSpace ?vs"] by (simp add: trimmedSelections_eq)
    also have "length ?vs \<le> length (cq_options c)"
      using sends choice(1) by (auto simp: formSends_def question_options_def c dest: list_emb_length)
    also have "length (cq_options c) \<le> 20"
      using q(1) by (simp add: schema_question_def c schema_choice_def)
    finally show ?thesis
      using id choice(2,3) by (simp add: schema_answer_def length_within_le)
  next
    case freeText
    then obtain ft where ft: "q_freeText q = Some ft" using q(2) by (auto simp: wf_question_def)
    obtain t where vs: "?vs = [t]" and len: "fq_maxResponseLength ft = 0
        \<or> int (length t) \<le> sint (fq_maxResponseLength ft)"
      using sends freeText(1) by (auto simp: formSends_def ft split: list.splits)
    have "1 \<le> sint (fq_maxResponseLength ft)" "sint (fq_maxResponseLength ft) \<le> 10000"
      using q(1) by (simp_all add: schema_question_def ft schema_freeText_def)
    with len have "length t \<le> 10000" by auto
    then have "length (a_text a) \<le> 10000"
      using length_TrimSpace_le[of t] unfolding freeText(3) PostFormValue_single[OF vs] by simp
    then show ?thesis
      using id freeText(2) by (simp add: schema_answer_def length_within_le)
  qed
qed

lemma rendered_vote_schema:
  assumes spec: "schema_poll_spec (p_spec poll)" and wf: "list_all wf_question (ps_questions (p_spec poll))"
    and sends: "list_all (\<lambda>q. formSends q (form_values form (''q.'' @ q_id q))) (ps_questions (p_spec poll))"
    and answers: "buildAnswers poll form = Inr answers"
    and respondent: "length_within 0 253 (TrimSpace (PostFormValue form ''respondent''))"
    and name: "length_within 1 253 name"
  shows "schema_response_spec (r_spec (voteResponse ns name form answers))"
proof -
  let ?qs = "ps_questions (p_spec poll)"
  have as: "answers = collectAnswers form ?qs" "answers \<noteq> []"
    using buildAnswers_InrD[OF answers] by blast+
  have sub: "subseq (map a_questionID answers) (map q_id ?qs)"
    unfolding as(1) by (rule collectAnswers_ids_subseq)
  have "distinct (map a_questionID answers)"
    using subseq_distinct[OF sub] spec by (simp add: schema_poll_spec_def)
  moreover have "length answers \<le> 50"
    using list_emb_length[OF sub] spec by (simp add: schema_poll_spec_def)
  moreover have "schema_answer a" if "a \<in> set answers" for a
  proof -
    obtain q where q: "q \<in> set ?qs" "answerFor form q = Some a"
      using \<open>a \<in> set answers\<close> by (auto simp: as(1) collectAnswers_mem_iff)
    then show ?thesis
      using spec wf sends
      by (intro rendered_answer_schema[OF _ _ _ q(2)]) (auto simp: schema_poll_spec_def list_all_iff)
  qed
  ultimately show ?thesis
    using as(2) respondent name
    by (auto simp: schema_response_spec_def schema_reference_def voteResponse_def list_all_iff Suc_le_eq)
qed

section \<open>One more response in the listing\<close>

lemma listing_after_create:
  assumes store: "api_store env polls responses"
    and before: "env_listResponses env ns s = (Inr rs, s)" and after: "env_listResponses env ns s1 = (Inr rs1, s1)"
    and new: "responses s (response_key r) = None" "m_namespace (r_meta r) = ns"
    and stored: "responses s1 = (responses s)(response_key r \<mapsto> r)"
  shows "mset rs1 = add_mset r (mset rs)"
proof -
  have rs: "distinct (map response_key rs)"
      "set rs = {x. m_namespace (r_meta x) = ns \<and> responses s (response_key x) = Some x}"
    using api_store.list_responses[OF store, of ns s] before by auto
  have rs1: "distinct (map response_key rs1)"
      "set rs1 = {x. m_namespace (r_meta x) = ns \<and> responses s1 (response_key x) = Some x}"
    using api_store.list_responses[OF store, of ns s1] after by auto
  have "r \<notin> set rs" using new(1) rs(2) by auto
  moreover have "set rs1 = insert r (set rs)"
    unfolding rs(2) rs1(2) stored using new by (auto split: if_splits)
  ultimately have "set_mset (mset (r # rs)) = set_mset (mset rs1)" "distinct (r # rs)" "distinct rs1"
    using rs(1) rs1(1) by (auto simp: distinct_map)
  then show ?thesis by (metis mset.simps(2) set_eq_iff_mset_eq_distinct set_mset_mset)
qed

lemma valid_answers_mset:
  assumes "mset rs1 = add_mset r (mset rs)" and "valid_for pr poll t r"
  shows "length (filter (valid_for pr poll t) rs1) = Suc (length (filter (valid_for pr poll t) rs))"
    and "mset (validAnswers pr poll t rs1) = mset (rs_answers (r_spec r) @ validAnswers pr poll t rs)"
proof -
  have "mset (filter (valid_for pr poll t) rs1) = add_mset r (mset (filter (valid_for pr poll t) rs))"
    using assms by simp
  from arg_cong[OF this, of size]
  show "length (filter (valid_for pr poll t) rs1) = Suc (length (filter (valid_for pr poll t) rs))"
    by (simp only: size_mset size_add_mset)
  have answers: "mset (validAnswers pr poll t xs)
      = sum_mset (image_mset (\<lambda>r. mset (rs_answers (r_spec r))) (filter_mset (valid_for pr poll t) (mset xs)))"
    for xs by (induction xs) (auto simp: validAnswers_def)
  show "mset (validAnswers pr poll t rs1) = mset (rs_answers (r_spec r) @ validAnswers pr poll t rs)"
    using assms by (simp add: answers)
qed

section \<open>From the form to the tally\<close>

context voting_store
begin

text \<open>A vote with the rendered form creates a valid response.\<close>

lemma vote_stored:
  assumes stored: "polls s (poll_key poll) = Some poll"
    and admitted: "admitted (Poll_ValidateCreate pr poll)" and spec: "schema_poll_spec (p_spec poll)"
    and trimmed: "list_all trimmedOptions (ps_questions (p_spec poll))"
    and sends: "list_all (\<lambda>q. formSends q (form_values form (''q.'' @ q_id q))) (ps_questions (p_spec poll))"
    and form: "rq_postForm req = Inr form" and answers: "buildAnswers poll form = Inr answers"
    and respondent: "length_within 0 253 (TrimSpace (PostFormValue form ''respondent''))"
    and name: "length_within 1 253 (m_name (p_meta poll))"
    and not_closed: "\<not> pollClosed poll t"
    and vote: "handleVote env (m_namespace (p_meta poll)) (m_name (p_meta poll)) req s = (effects, s1)"
  obtains r where
    "effects = flashAndRedirect (m_namespace (p_meta poll)) (m_name (p_meta poll)) (thanksMessage (m_name (r_meta r)))"
    "responses s (response_key r) = None" "responses s1 = (responses s)(response_key r \<mapsto> r)" "polls s1 = polls s"
    "rs_answers (r_spec r) = answers" "m_namespace (r_meta r) = m_namespace (p_meta poll)"
    "m_deletionTimestamp (r_meta r) = None" "m_ownerReferences (r_meta r) = []" "rst_conditions (r_status r) = []"
    "names_poll poll r" "\<And>pr. valid_for pr poll t r" "wf_questions (ps_questions (p_spec poll))"
proof -
  let ?ns = "m_namespace (p_meta poll)" and ?name = "m_name (p_meta poll)"
  let ?r = "voteResponse ?ns ?name form answers"
  have wf: "list_all wf_question (ps_questions (p_spec poll))"
    using admitted by (simp add: poll_validator.create_admits validatePollSpec_Nil_iff)
  have ids: "distinct (map q_id (ps_questions (p_spec poll)))"
    using spec by (simp add: schema_poll_spec_def)
  have wfq: "wf_questions (ps_questions (p_spec poll))"
    using wf ids wf_question_options by (auto simp: wf_questions_def list_all_iff)
  have valid: "validateResponse pr' poll ?r t = None" for pr'
    by (rule rendered_vote_valid[OF ids wf trimmed sends not_closed answers])
  have "list_all wf_answer answers"
  proof -
    have "list_all (\<lambda>a. distinct (a_selectedOptions a)) answers"
      using valid[of pr] by (auto simp: validateResponse_None_iff[OF ids] voteResponse_def answer_ok_def list_all_iff)
    then show ?thesis using buildAnswers_InrD[OF answers] collectAnswers_wf_iff by metis
  qed
  then have admitted: "admitted (PollResponse_ValidateCreate ?r)"
    by (simp add: response_validator.create_admits validatePollResponseSpec_Nil_iff voteResponse_def)
  have fresh: "rst_conditions (r_status ?r) = []" by (simp add: voteResponse_def)
  from create_response[OF admitted rendered_vote_schema[OF spec wf sends answers respondent name] fresh, of s]
  obtain r s2 where r: "env_createResponse env ?r s = (Inr r, s2)" "responses s (response_key r) = None"
    "responses s2 = (responses s)(response_key r \<mapsto> r)" "polls s2 = polls s"
    and same: "r_spec r = r_spec ?r" "m_namespace (r_meta r) = m_namespace (r_meta ?r)"
      "m_deletionTimestamp (r_meta r) = m_deletionTimestamp (r_meta ?r)"
      "m_ownerReferences (r_meta r) = m_ownerReferences (r_meta ?r)" "rst_conditions (r_status r) = []"
    by blast
  have "env_getPoll env (NamespacedName ?ns ?name) s = (Inr poll, s)"
    using read_poll[OF stored] by (simp add: poll_key_def)
  then have posted: "effects = flashAndRedirect ?ns ?name (thanksMessage (m_name (r_meta r)))" "s1 = s2"
    using vote by (simp_all add: handleVote_def form answers r(1))
  have names: "names_poll poll r" using same by (simp add: voteResponse_def names_poll_def)
  then have "valid_for pr' poll t r" for pr'
    using valid validateResponse_spec_cong[OF same(1)] by (simp add: valid_for_def)
  with posted r(2-4) same names wfq show thesis
    by (intro that[of r]) (simp_all add: voteResponse_def)
qed

lemma vote_counted:
  assumes stored: "polls s (poll_key poll) = Some poll"
    and admitted: "admitted (Poll_ValidateCreate pr poll)" and spec: "schema_poll_spec (p_spec poll)"
    and trimmed: "list_all trimmedOptions (ps_questions (p_spec poll))"
    and sends: "list_all (\<lambda>q. formSends q (form_values form (''q.'' @ q_id q))) (ps_questions (p_spec poll))"
    and form: "rq_postForm req = Inr form" and answers: "buildAnswers poll form = Inr answers"
    and respondent: "length_within 0 253 (TrimSpace (PostFormValue form ''respondent''))"
    and name: "length_within 1 253 (m_name (p_meta poll))"
    and list: "env_listResponses env (m_namespace (p_meta poll)) s = (Inr rs, s)"
    and live: "\<And>r. r \<in> set rs \<Longrightarrow> names_poll poll r \<Longrightarrow> live poll r"
    and clock: "\<And>s. pollClosed poll (fst (env_now env s)) = pollClosed poll t"
    and not_closed: "\<not> pollClosed poll t"
    and vote: "handleVote env (m_namespace (p_meta poll)) (m_name (p_meta poll)) req s = (effects, s1)"
    and ks: "ks = fst (mapPollToResponses env poll s1)"
  shows "(\<exists>resp. effects = flashAndRedirect (m_namespace (p_meta poll)) (m_name (p_meta poll)) (thanksMessage resp))
    \<and> (\<exists>res s' st. PollReconcile env (poll_key poll) (reconcileResponses env ks s1) = (Inr res, s')
      \<and> polls s' (poll_key poll) = Some (poll\<lparr>p_status := st\<rparr>)
      \<and> st_phase st = PollPhaseOpen
      \<and> st_totalResponses st = of_nat (Suc (length (filter (valid_for (env_isPrint env) poll t) rs)))
      \<and> shows_results st (ps_questions (p_spec poll)) (answers @ validAnswers (env_isPrint env) poll t rs))"
proof -
  let ?ns = "m_namespace (p_meta poll)"
  obtain r where r: "effects = flashAndRedirect ?ns (m_name (p_meta poll)) (thanksMessage (m_name (r_meta r)))"
    "responses s (response_key r) = None" "responses s1 = (responses s)(response_key r \<mapsto> r)" "polls s1 = polls s"
    and new: "rs_answers (r_spec r) = answers" "m_namespace (r_meta r) = ?ns"
      "m_deletionTimestamp (r_meta r) = None" "m_ownerReferences (r_meta r) = []" "names_poll poll r"
      "\<And>pr. valid_for pr poll t r" "wf_questions (ps_questions (p_spec poll))"
    by (rule vote_stored[OF stored admitted spec trimmed sends form answers respondent name not_closed vote]) metis
  obtain rs1 where rs1: "env_listResponses env ?ns s1 = (Inr rs1, s1)"
    using list_responses[of ?ns s1] by auto
  have mset: "mset rs1 = add_mset r (mset rs)"
    by (rule listing_after_create[OF api_store_axioms list rs1 r(2) new(2) r(3)])
  have live1: "live poll x" if "x \<in> set rs1" "names_poll poll x" for x
  proof (cases "x = r")
    case True
    then show ?thesis using new by (simp add: live_def ownable_def)
  next
    case False
    have "set rs1 = insert r (set rs)" using arg_cong[OF mset, of set_mset] by simp
    with that(1) False have "x \<in> set rs" by simp
    then show ?thesis using live that(2) by blast
  qed
  note sums = valid_answers_mset[OF mset new(6)]
  have stored1: "polls s1 (poll_key poll) = Some poll" using stored by (simp add: r(4))
  from round_results[OF stored1 new(7) rs1 live1 clock ks] obtain res s' st where
    "PollReconcile env (poll_key poll) (reconcileResponses env ks s1) = (Inr res, s')"
    "polls s' (poll_key poll) = Some (poll\<lparr>p_status := st\<rparr>)"
    "st_phase st = (if pollClosed poll t then PollPhaseClosed else PollPhaseOpen)"
    "st_totalResponses st = of_nat (length (filter (valid_for (env_isPrint env) poll t) rs1))"
    "shows_results st (ps_questions (p_spec poll)) (validAnswers (env_isPrint env) poll t rs1)"
    by blast
  then show ?thesis
    using not_closed r(1) new(1) sums(1) shows_results_mset[OF sums(2)] by auto
qed

end

end
