(* ===== verification/Control_Loop.thy ===== *)
theory Control_Loop
  imports Cluster_Store Controller_Setup
begin

text \<open>
  Both controllers at work on one store: two work queues, timers for delayed requeues, a clock
  that moves, and users, the garbage collector or anybody else who changes objects between
  two reconciles. \<open>control_step\<close> is one event of that system. The invariant says that
  whatever is not waiting in a queue is settled, so a system at rest is consistent: what the
  watches, the requeue at \<open>closesAt\<close> and the comparisons before a patch are there for.
  Caches are current here (\<open>Cached_Loop\<close> drops that), and a reconcile is one step.
\<close>

section \<open>The system\<close>

record 's system =
  sys_store :: 's
  sys_clock :: gotime
  sys_polls :: "NamespacedName set"
  sys_responses :: "NamespacedName set"
  sys_timers :: "(NamespacedName \<times> int) set"

type_synonym 's poll_map = "'s \<Rightarrow> NamespacedName \<Rightarrow> Poll option"
type_synonym 's response_map = "'s \<Rightarrow> NamespacedName \<Rightarrow> PollResponse option"

text \<open>The objects with an event when the store goes from \<open>s\<close> to \<open>s'\<close>: old and new versions.\<close>

definition changed :: "'s poll_map \<Rightarrow> 's response_map \<Rightarrow> 's \<Rightarrow> 's \<Rightarrow> api_object set" where
  "changed polls responses s s' =
     {PollObject p | p k. polls s k \<noteq> polls s' k \<and> (polls s k = Some p \<or> polls s' k = Some p)}
   \<union> {ResponseObject r | r k. responses s k \<noteq> responses s' k
        \<and> (responses s k = Some r \<or> responses s' k = Some r)}"

lemma changed_pollI:
  "polls s k \<noteq> polls s' k \<Longrightarrow> polls s k = Some p \<or> polls s' k = Some p
    \<Longrightarrow> PollObject p \<in> changed polls responses s s'"
  unfolding changed_def by blast

lemma changed_responseI:
  "responses s k \<noteq> responses s' k \<Longrightarrow> responses s k = Some r \<or> responses s' k = Some r
    \<Longrightarrow> ResponseObject r \<in> changed polls responses s s'"
  unfolding changed_def by blast

text \<open>The store becomes \<open>s'\<close>, and the events of the change reach both controllers.\<close>

definition deliver :: "(gotime \<Rightarrow> 's kube_env) \<Rightarrow> 's poll_map \<Rightarrow> 's response_map \<Rightarrow> 's \<Rightarrow>
    's system \<Rightarrow> 's system" where
  "deliver env polls responses s' sys =
     (let events = changed polls responses (sys_store sys) s'; e = env (sys_clock sys)
      in sys\<lparr>sys_store := s',
         sys_polls := sys_polls sys \<union> (\<Union>o' \<in> events. set (requests (Poll_SetupWithManager e) o' s')),
         sys_responses := sys_responses sys
           \<union> (\<Union>o' \<in> events. set (requests (PollResponse_SetupWithManager e) o' s'))\<rparr>)"

text \<open>
  An error or \<open>Requeue\<close> puts a request back; \<open>RequeueAfter\<close> sets a timer.
\<close>

definition requeued :: "wrapped_error + ctrl_result \<Rightarrow> bool" where
  "requeued res \<longleftrightarrow> (case res of Inl _ \<Rightarrow> True | Inr r \<Rightarrow> Requeue r)"

definition timer_of :: "NamespacedName \<Rightarrow> gotime \<Rightarrow> wrapped_error + ctrl_result \<Rightarrow>
    (NamespacedName \<times> int) set" where
  "timer_of k now res = (case res of Inl _ \<Rightarrow> {}
     | Inr r \<Rightarrow> if 0 < RequeueAfter r then {(k, unixNano now + RequeueAfter r)} else {})"

section \<open>What others may do\<close>

text \<open>
  A stored Poll: its questions are well formed (admission and schema), its conditions have one
  entry per type, and the generation its Ready condition mentions is not ahead of its own.
\<close>

definition poll_stored_ok :: "Poll \<Rightarrow> bool" where
  "poll_stored_ok p \<longleftrightarrow> wf_questions (ps_questions (p_spec p)) \<and> m_name (p_meta p) \<noteq> ''''
     \<and> distinct (map c_type (st_conditions (p_status p)))
     \<and> (\<forall>c. find_condition pollReadyCondition (st_conditions (p_status p)) = Some c
          \<longrightarrow> sint (c_observedGeneration c) \<le> sint (m_generation (p_meta p)))"

text \<open>
  What the API server makes of a write to a Poll by somebody else: a new object starts
  without status; an update keeps the status, and a change of the spec raises the
  generation.
\<close>

definition poll_edit :: "Poll option \<Rightarrow> Poll option \<Rightarrow> bool" where
  "poll_edit old new \<longleftrightarrow> (case new of None \<Rightarrow> True
     | Some p \<Rightarrow> wf_questions (ps_questions (p_spec p)) \<and> m_name (p_meta p) \<noteq> ''''
        \<and> (p_status p = fresh_status
           \<or> (\<exists>q. old = Some q \<and> p_status p = p_status q
                \<and> (p_spec p = p_spec q \<and> m_generation (p_meta p) = m_generation (p_meta q)
                   \<or> sint (m_generation (p_meta q)) < sint (m_generation (p_meta p))))))"

text \<open>
  Responses are free, except that nobody but its Poll controls one, and that its conditions
  have one entry per type (the schema's list-map key).
\<close>

definition responses_stored_ok :: "'s poll_map \<Rightarrow> 's response_map \<Rightarrow> 's \<Rightarrow> bool" where
  "responses_stored_ok polls responses s \<longleftrightarrow>
     (\<forall>k r. responses s k = Some r \<longrightarrow> distinct (map c_type (rst_conditions (r_status r)))
        \<and> (\<forall>p. polls s (pollKeyOf r) = Some p \<longrightarrow> ownable p r))"

section \<open>Steps\<close>

text \<open>A worker of either controller takes a request and reconciles it.\<close>

inductive worker_step :: "(gotime \<Rightarrow> 's kube_env) \<Rightarrow> 's poll_map \<Rightarrow> 's response_map \<Rightarrow>
    's system \<Rightarrow> 's system \<Rightarrow> bool"
  for env polls responses where
  poll: "k \<in> sys_polls sys \<Longrightarrow>
    ctl_reconciler (Poll_SetupWithManager (env (sys_clock sys))) k (sys_store sys) = (res, s') \<Longrightarrow>
    worker_step env polls responses sys
      (deliver env polls responses s'
        (sys\<lparr>sys_polls := (if requeued res then sys_polls sys else sys_polls sys - {k}),
             sys_timers := sys_timers sys \<union> timer_of k (sys_clock sys) res\<rparr>))"
| response: "k \<in> sys_responses sys \<Longrightarrow>
    ctl_reconciler (PollResponse_SetupWithManager (env (sys_clock sys))) k (sys_store sys) = (res, s') \<Longrightarrow>
    worker_step env polls responses sys
      (deliver env polls responses s'
        (sys\<lparr>sys_responses := (if requeued res then sys_responses sys else sys_responses sys - {k})\<rparr>))"

text \<open>Anybody may write, and time passes.\<close>

inductive control_step :: "(gotime \<Rightarrow> 's kube_env) \<Rightarrow> 's poll_map \<Rightarrow> 's response_map \<Rightarrow>
    's system \<Rightarrow> 's system \<Rightarrow> bool"
  for env polls responses where
  work: "worker_step env polls responses sys sys' \<Longrightarrow> control_step env polls responses sys sys'"
| edit: "(\<forall>k. poll_edit (polls (sys_store sys) k) (polls s' k)) \<Longrightarrow>
    responses_stored_ok polls responses s' \<Longrightarrow>
    control_step env polls responses sys (deliver env polls responses s' sys)"
| tick: "unixNano (sys_clock sys) \<le> unixNano t \<Longrightarrow>
    control_step env polls responses sys
      (sys\<lparr>sys_clock := t,
           sys_polls := sys_polls sys \<union> fst ` {x \<in> sys_timers sys. snd x \<le> unixNano t},
           sys_timers := {x \<in> sys_timers sys. \<not> snd x \<le> unixNano t}\<rparr>)"

inductive_cases worker_stepE: "worker_step env polls responses sys sys'"
inductive_simps control_step_iff: "control_step env polls responses sys sys'"

text \<open>The operator starts on a store in any condition it may have left it in before.\<close>

definition phase_reached :: "Poll \<Rightarrow> gotime \<Rightarrow> bool" where
  "phase_reached p t \<longleftrightarrow> (\<forall>c. find_condition pollReadyCondition (st_conditions (p_status p)) = Some c \<longrightarrow>
     c_observedGeneration c = m_generation (p_meta p) \<longrightarrow> st_phase (p_status p) = PollPhaseClosed \<longrightarrow>
     pollClosed p t)"

definition store_ok :: "'s poll_map \<Rightarrow> 's response_map \<Rightarrow> gotime \<Rightarrow> 's \<Rightarrow> bool" where
  "store_ok polls responses t s \<longleftrightarrow>
     (\<forall>k p. polls s k = Some p \<longrightarrow> poll_stored_ok p \<and> phase_reached p t)
   \<and> responses_stored_ok polls responses s"

definition started :: "'s poll_map \<Rightarrow> 's response_map \<Rightarrow> gotime \<Rightarrow> 's \<Rightarrow> 's system" where
  "started polls responses t s =
     \<lparr>sys_store = s, sys_clock = t, sys_polls = dom (polls s), sys_responses = dom (responses s),
      sys_timers = {}\<rparr>"

definition at_rest :: "'s system \<Rightarrow> bool" where
  "at_rest sys \<longleftrightarrow> sys_polls sys = {} \<and> sys_responses sys = {}"

section \<open>What is settled\<close>

definition clock_phase :: "Poll \<Rightarrow> gotime \<Rightarrow> PollPhase" where
  "clock_phase p t = (if pollClosed p t then PollPhaseClosed else PollPhaseOpen)"

text \<open>A response shows the verdict it deserves (a missing Poll is a rejection).\<close>

definition deserves :: "'s poll_map \<Rightarrow> gotime \<Rightarrow> 's \<Rightarrow> PollResponse \<Rightarrow> bool" where
  "deserves polls t s r \<longleftrightarrow> (case polls s (pollKeyOf r) of None \<Rightarrow> False
     | Some p \<Rightarrow> validateResponse (\<lambda>_. False) p r t = None)"

definition settled_response :: "'s poll_map \<Rightarrow> 's response_map \<Rightarrow> gotime \<Rightarrow> 's \<Rightarrow> NamespacedName \<Rightarrow> bool" where
  "settled_response polls responses t s k \<longleftrightarrow>
     (\<forall>r. responses s k = Some r \<longrightarrow> m_deletionTimestamp (r_meta r) = None \<longrightarrow>
        rst_phase (r_status r)
          = (if deserves polls t s r then PollResponsePhaseAccepted else PollResponsePhaseRejected))"

text \<open>A Poll shows the phase of the clock and the tally of the responses accepted now.\<close>

definition lists :: "'s response_map \<Rightarrow> 's \<Rightarrow> string \<Rightarrow> PollResponse list \<Rightarrow> bool" where
  "lists responses s ns rs \<longleftrightarrow> distinct (map response_key rs)
     \<and> set rs = {r. m_namespace (r_meta r) = ns \<and> responses s (response_key r) = Some r}"

definition publishes :: "Poll \<Rightarrow> gotime \<Rightarrow> PollResponse list \<Rightarrow> bool" where
  "publishes p t rs \<longleftrightarrow> st_phase (p_status p) = clock_phase p t
     \<and> st_totalResponses (p_status p) = of_nat (length (filter (counted p) rs))
     \<and> shows_results (p_status p) (ps_questions (p_spec p)) (countedAnswers p rs)"

definition settled_poll :: "'s poll_map \<Rightarrow> 's response_map \<Rightarrow> gotime \<Rightarrow> 's \<Rightarrow> NamespacedName \<Rightarrow> bool" where
  "settled_poll polls responses t s k \<longleftrightarrow>
     (\<forall>p rs. polls s k = Some p \<longrightarrow> lists responses s (m_namespace (p_meta p)) rs \<longrightarrow> publishes p t rs)"

text \<open>A status that the next reconcile of the Poll is bound to replace.\<close>

definition stale_poll :: "Poll \<Rightarrow> gotime \<Rightarrow> bool" where
  "stale_poll p t \<longleftrightarrow> st_phase (p_status p) \<noteq> clock_phase p t
     \<or> (\<forall>c. find_condition pollReadyCondition (st_conditions (p_status p)) = Some c \<longrightarrow>
          c_observedGeneration c \<noteq> m_generation (p_meta p))"

definition loop_inv :: "'s poll_map \<Rightarrow> 's response_map \<Rightarrow> 's system \<Rightarrow> bool" where
  "loop_inv polls responses sys \<longleftrightarrow>
     (let s = sys_store sys; t = sys_clock sys
      in store_ok polls responses t s
       \<and> (\<forall>k. k \<notin> sys_responses sys \<longrightarrow> settled_response polls responses t s k
            \<or> (\<exists>r p. responses s k = Some r \<and> polls s (pollKeyOf r) = Some p \<and> stale_poll p t
                 \<and> pollKeyOf r \<in> sys_polls sys))
       \<and> (\<forall>k. k \<notin> sys_polls sys \<longrightarrow> settled_poll polls responses t s k)
       \<and> (\<forall>k p c. k \<notin> sys_polls sys \<longrightarrow> polls s k = Some p \<longrightarrow> ps_closesAt (p_spec p) = Some c \<longrightarrow>
            \<not> pollClosed p t \<longrightarrow> (\<exists>i \<le> unixNano c. (k, i) \<in> sys_timers sys)))"

lemma loop_inv_started: "store_ok polls responses t s \<Longrightarrow> loop_inv polls responses (started polls responses t s)"
  by (auto simp: loop_inv_def started_def settled_response_def settled_poll_def domIff)

text \<open>At rest, the invariant is the consistency of the store.\<close>

lemma loop_inv_rest:
  assumes "loop_inv polls responses sys" and "at_rest sys"
  shows "settled_response polls responses (sys_clock sys) (sys_store sys) k"
    and "settled_poll polls responses (sys_clock sys) (sys_store sys) k"
  using assms by (auto simp: loop_inv_def at_rest_def Let_def)

section \<open>Facts about time\<close>

lemma pollClosed_mono: "pollClosed p t \<Longrightarrow> unixNano t \<le> unixNano t' \<Longrightarrow> pollClosed p t'"
  by (auto simp: pollClosed_def split: option.splits)

lemma stale_after_closing:
  assumes "phase_reached p t" and "\<not> pollClosed p t" and "pollClosed p t'"
  shows "stale_poll p t'"
  using assms by (auto simp: stale_poll_def phase_reached_def clock_phase_def)

lemma stale_mono:
  assumes "stale_poll p t" and "phase_reached p t" and "unixNano t \<le> unixNano t'"
  shows "stale_poll p t'"
proof (cases "pollClosed p t = pollClosed p t'")
  case True
  then show ?thesis using assms(1) by (simp add: stale_poll_def clock_phase_def)
next
  case False
  then show ?thesis
    using stale_after_closing[OF assms(2)] pollClosed_mono[OF _ assms(3)] by blast
qed

lemma phase_reached_mono:
  "phase_reached p t \<Longrightarrow> unixNano t \<le> unixNano t' \<Longrightarrow> phase_reached p t'"
  unfolding phase_reached_def using pollClosed_mono by blast

lemma validateResponse_any_print:
  "validateResponse pr p r t = None \<longleftrightarrow> validateResponse (\<lambda>_. False) p r t = None"
  by (simp add: validateResponse_None)

section \<open>Users\<close>

lemma poll_edit_ok:
  assumes "poll_edit old (Some p)" and "\<And>q. old = Some q \<Longrightarrow> poll_stored_ok q \<and> phase_reached q t"
  shows "poll_stored_ok p \<and> phase_reached p t"
proof -
  have wf: "wf_questions (ps_questions (p_spec p))" "m_name (p_meta p) \<noteq> ''''"
    using assms(1) by (simp_all add: poll_edit_def)
  consider (fresh) "p_status p = fresh_status"
    | (same) q where "old = Some q" "p_status p = p_status q" "p_spec p = p_spec q"
        "m_generation (p_meta p) = m_generation (p_meta q)"
    | (newer) q where "old = Some q" "p_status p = p_status q"
        "sint (m_generation (p_meta q)) < sint (m_generation (p_meta p))"
    using assms(1) by (auto simp: poll_edit_def)
  then show ?thesis
  proof cases
    case fresh
    then show ?thesis
      using wf by (simp add: poll_stored_ok_def phase_reached_def fresh_status_def)
  next
    case same
    then show ?thesis
      using wf assms(2)[OF same(1)] by (simp add: poll_stored_ok_def phase_reached_def pollClosed_def)
  next
    case newer
    then show ?thesis
      using wf assms(2)[OF newer(1)] by (force simp: poll_stored_ok_def phase_reached_def)
  qed
qed

lemma edit_store_ok:
  assumes "store_ok polls responses t s" and "\<forall>k. poll_edit (polls s k) (polls s' k)"
    and "responses_stored_ok polls responses s'"
  shows "store_ok polls responses t s'"
  using assms poll_edit_ok unfolding store_ok_def by metis

section \<open>The objects that the watches see\<close>

text \<open>
  What the delivery of events relies on: objects are stored under their own keys, and the list
  that the map function makes is complete. It holds of an API server as well as of a cache.
\<close>

locale object_views =
  fixes env :: "gotime \<Rightarrow> 's kube_env" and polls :: "'s poll_map" and responses :: "'s response_map"
  assumes keys: "polls s k = Some p \<Longrightarrow> poll_key p = k" "responses s k = Some r \<Longrightarrow> response_key r = k"
    and complete_list: "\<exists>rs. env_listResponses (env t) ns s = (Inr rs, s) \<and> lists responses s ns rs"
begin

lemma listing: obtains rs where "env_listResponses (env t) ns s = (Inr rs, s)" "lists responses s ns rs"
  using complete_list by blast

section \<open>Events\<close>

lemma deliver_fields [simp]:
  "sys_store (deliver env polls responses s' sys) = s'"
  "sys_clock (deliver env polls responses s' sys) = sys_clock sys"
  "sys_timers (deliver env polls responses s' sys) = sys_timers sys"
  "k \<in> sys_polls sys \<Longrightarrow> k \<in> sys_polls (deliver env polls responses s' sys)"
  "k \<in> sys_responses sys \<Longrightarrow> k \<in> sys_responses (deliver env polls responses s' sys)"
  by (simp_all add: deliver_def Let_def)

lemma poll_event:
  assumes "PollObject p \<in> changed polls responses (sys_store sys) s'"
  shows "poll_key p \<in> sys_polls (deliver env polls responses s' sys)"
    and "responses s' k = Some r \<Longrightarrow> pollKeyOf r = poll_key p
      \<Longrightarrow> k \<in> sys_responses (deliver env polls responses s' sys)"
proof -
  show "poll_key p \<in> sys_polls (deliver env polls responses s' sys)"
    using assms by (force simp: deliver_def Let_def)
  assume r: "responses s' k = Some r" and names: "pollKeyOf r = poll_key p"
  let ?e = "env (sys_clock sys)"
  obtain rs where rs: "env_listResponses ?e (m_namespace (p_meta p)) s' = (Inr rs, s')"
    "lists responses s' (m_namespace (p_meta p)) rs"
    using listing by blast
  have "r \<in> set rs"
    using rs(2) r names keys(2)[OF r] by (simp add: lists_def pollKeyOf_def poll_key_def)
  then have "k \<in> set (fst (mapPollToResponses ?e p s'))"
    using rs(1) names keys(2)[OF r] by (auto simp: mapPollToResponses_def pollKeyOf_def poll_key_def)
  then show "k \<in> sys_responses (deliver env polls responses s' sys)"
    using assms by (force simp: deliver_def Let_def)
qed

lemma response_event:
  assumes "ResponseObject r \<in> changed polls responses (sys_store sys) s'"
  shows "response_key r \<in> sys_responses (deliver env polls responses s' sys)"
    and "ref_name (rs_pollRef (r_spec r)) \<noteq> '''' \<Longrightarrow>
      pollKeyOf r \<in> sys_polls (deliver env polls responses s' sys)"
  using assms by (force simp: deliver_def Let_def mapResponseToPoll_def pollKeyOf_def)+

text \<open>What is not enqueued by the events of a change has not been touched by it.\<close>

lemma quiet_poll:
  assumes "k \<notin> sys_polls (deliver env polls responses s' sys)"
  shows "polls s' k = polls (sys_store sys) k"
proof (rule ccontr)
  assume ne: "\<not> ?thesis"
  then obtain p where p: "polls (sys_store sys) k = Some p \<or> polls s' k = Some p"
    by (metis option.exhaust)
  then have "poll_key p = k" using keys(1) by blast
  moreover have "PollObject p \<in> changed polls responses (sys_store sys) s'"
    using ne p by (intro changed_pollI[of polls "sys_store sys" _ s']) auto
  ultimately show False using poll_event(1) assms by metis
qed

lemma quiet_poll_responses:
  assumes "k \<notin> sys_polls (deliver env polls responses s' sys)" and "nn_name k \<noteq> ''''"
    and "pollKeyOf r = k"
  shows "responses s' x = Some r \<longleftrightarrow> responses (sys_store sys) x = Some r"
proof (rule ccontr)
  assume "\<not> ?thesis"
  then have "responses (sys_store sys) x \<noteq> responses s' x"
      "responses (sys_store sys) x = Some r \<or> responses s' x = Some r"
    by auto
  then have "ResponseObject r \<in> changed polls responses (sys_store sys) s'"
    by (rule changed_responseI)
  moreover have "ref_name (rs_pollRef (r_spec r)) \<noteq> ''''" using assms(2,3) by auto
  ultimately show False using response_event(2)[of r] assms(1,3) by metis
qed

lemma quiet_response:
  assumes "k \<notin> sys_responses (deliver env polls responses s' sys)"
  shows "responses s' k = responses (sys_store sys) k"
    and "responses s' k = Some r \<Longrightarrow> polls s' (pollKeyOf r) = polls (sys_store sys) (pollKeyOf r)"
proof -
  show same: "responses s' k = responses (sys_store sys) k"
  proof (rule ccontr)
    assume ne: "\<not> ?thesis"
    then obtain r where r: "responses (sys_store sys) k = Some r \<or> responses s' k = Some r"
      by (metis option.exhaust)
    then have "response_key r = k" using keys(2) by blast
    moreover have "ResponseObject r \<in> changed polls responses (sys_store sys) s'"
      using ne r by (intro changed_responseI[of responses "sys_store sys" _ s']) auto
    ultimately show False using response_event(1) assms by metis
  qed
  assume r: "responses s' k = Some r"
  show "polls s' (pollKeyOf r) = polls (sys_store sys) (pollKeyOf r)"
  proof (rule ccontr)
    assume ne: "\<not> ?thesis"
    then obtain p where p: "polls (sys_store sys) (pollKeyOf r) = Some p \<or> polls s' (pollKeyOf r) = Some p"
      by (metis option.exhaust)
    then have "poll_key p = pollKeyOf r" using keys(1) by blast
    moreover have "PollObject p \<in> changed polls responses (sys_store sys) s'"
      using ne p by (intro changed_pollI[of polls "sys_store sys" _ s']) auto
    ultimately show False using poll_event(2)[of p sys s' k r] r assms by simp
  qed
qed

section \<open>Settled objects stay settled\<close>

lemma settled_poll_quiet:
  assumes quiet: "k \<notin> sys_polls (deliver env polls responses s' sys)"
    and ok: "\<And>p. polls s' k = Some p \<Longrightarrow> m_name (p_meta p) \<noteq> ''''"
    and settled: "settled_poll polls responses t (sys_store sys) k"
  shows "settled_poll polls responses t s' k"
  unfolding settled_poll_def
proof (intro allI impI)
  fix p rs'
  assume p: "polls s' k = Some p" and rs': "lists responses s' (m_namespace (p_meta p)) rs'"
  let ?s = "sys_store sys"
  have key: "k = NamespacedName (m_namespace (p_meta p)) (m_name (p_meta p))"
    using keys(1)[OF p] by (simp add: poll_key_def)
  obtain rs where rs: "lists responses ?s (m_namespace (p_meta p)) rs" using listing by blast
  have "polls ?s k = Some p" using quiet_poll[OF quiet] p by simp
  then have pub: "publishes p t rs" using settled rs by (simp add: settled_poll_def)
  have "responses s' x = Some r \<longleftrightarrow> responses ?s x = Some r"
    if "counted p r" "m_namespace (r_meta r) = m_namespace (p_meta p)" for r x
    using quiet_poll_responses[OF quiet] ok[OF p] that by (simp add: key counted_def pollKeyOf_def)
  then have "set (filter (counted p) rs') = set (filter (counted p) rs)"
    using rs rs' by (auto simp: lists_def)
  moreover have "distinct (filter (counted p) rs')" "distinct (filter (counted p) rs)"
    using rs rs' by (simp_all add: lists_def distinct_map)
  ultimately have perm: "mset (filter (counted p) rs') = mset (filter (counted p) rs)"
    using set_eq_iff_mset_eq_distinct by blast
  from arg_cong[OF this, of size]
  have len: "length (filter (counted p) rs') = length (filter (counted p) rs)"
    by (simp only: size_mset)
  have "countedAnswers p xs = countedAnswers p (filter (counted p) xs)" for xs
    by (simp add: countedAnswers_def)
  then have "mset (countedAnswers p rs') = mset (countedAnswers p rs)"
    using mset_countedAnswers[OF perm, of p] by metis
  from shows_results_mset[OF this] len show "publishes p t rs'"
    using pub by (simp add: publishes_def)
qed

lemma settled_response_quiet:
  assumes quiet: "k \<notin> sys_responses (deliver env polls responses s' sys)"
    and settled: "settled_response polls responses t (sys_store sys) k"
  shows "settled_response polls responses t s' k"
  using settled quiet_response[OF quiet] by (auto simp: settled_response_def deserves_def)

text \<open>Where nothing waits, the published tally is that of the valid responses.\<close>

lemma settled_results:
  assumes pol: "settled_poll polls responses t s k" and resp: "\<And>x. settled_response polls responses t s x"
    and p: "polls s k = Some p" and rs: "lists responses s (m_namespace (p_meta p)) rs"
    and live: "\<And>r. r \<in> set rs \<Longrightarrow> names_poll p r \<Longrightarrow> m_deletionTimestamp (r_meta r) = None"
  shows "st_phase (p_status p) = (if pollClosed p t then PollPhaseClosed else PollPhaseOpen)
    \<and> st_totalResponses (p_status p) = of_nat (length (filter (valid_for pr p t) rs))
    \<and> shows_results (p_status p) (ps_questions (p_spec p)) (validAnswers pr p t rs)"
proof -
  have pub: "publishes p t rs" using pol p rs by (simp add: settled_poll_def)
  have counted: "counted p r \<longleftrightarrow> valid_for pr p t r" if "r \<in> set rs" for r
  proof (cases "names_poll p r")
    case False
    then show ?thesis by (simp add: counted_def valid_for_def names_poll_def)
  next
    case True
    have r: "responses s (response_key r) = Some r" "m_namespace (r_meta r) = m_namespace (p_meta p)"
      using rs that by (auto simp: lists_def)
    have "pollKeyOf r = k"
      using keys(1)[OF p] r(2) True by (auto simp: pollKeyOf_def poll_key_def names_poll_def)
    then have "deserves polls t s r \<longleftrightarrow> validateResponse pr p r t = None"
      using p validateResponse_any_print[of pr p r t] by (simp add: deserves_def)
    then show ?thesis
      using resp[of "response_key r"] r(1) live[OF that True] True
      by (simp add: settled_response_def counted_def valid_for_def names_poll_def split: if_splits)
  qed
  have "filter (counted p) rs = filter (valid_for pr p t) rs"
    using counted by (rule filter_cong[OF refl])
  then show ?thesis
    using pub by (simp add: publishes_def clock_phase_def countedAnswers_def validAnswers_def)
qed

end

section \<open>The contract of the world\<close>

text \<open>
  For every reading of the clock, an API server that does what the reconcilers ask; the
  readings within one reconcile agree.
\<close>

locale control_plane =
  fixes env :: "gotime \<Rightarrow> 's kube_env" and polls :: "'s poll_map" and responses :: "'s response_map"
  assumes store: "api_store (env t) polls responses"
    and clock: "fst (env_now (env t) s) = t"
    and conditions: "status_condition_setter (env_setStatusCondition (env t))"
begin

lemma listed: "env_listResponses (env t) ns s = (Inr rs, s) \<Longrightarrow> lists responses s ns rs"
  using api_store.list_responses[OF store[of t], of ns s] by (auto simp: lists_def)

end

sublocale control_plane \<subseteq> object_views env polls responses
proof unfold_locales
  fix s k p assume "polls s k = Some p"
  then show "poll_key p = k" by (rule api_store.poll_keys[OF store])
next
  fix s k r assume "responses s k = Some r"
  then show "response_key r = k" by (rule api_store.response_keys[OF store])
next
  fix t ns s show "\<exists>rs. env_listResponses (env t) ns s = (Inr rs, s) \<and> lists responses s ns rs"
    using api_store.list_responses[OF store[of t], of ns s] by (auto simp: lists_def)
qed

section \<open>Every step keeps the invariant\<close>

context control_plane
begin

text \<open>A key taken from a queue and not put back must have been settled by its reconcile.\<close>

lemma deliver_inv:
  assumes inv: "loop_inv polls responses sys"
    and same: "sys_store sys0 = sys_store sys" "sys_clock sys0 = sys_clock sys"
      "sys_timers sys \<subseteq> sys_timers sys0"
    and ok: "store_ok polls responses (sys_clock sys) s'"
    and poll_done: "\<And>k. k \<in> sys_polls sys \<Longrightarrow> k \<notin> sys_polls sys0 \<Longrightarrow>
      settled_poll polls responses (sys_clock sys) s' k
      \<and> (\<forall>p. polls s' k = Some p \<longrightarrow> \<not> stale_poll p (sys_clock sys)
           \<and> (\<forall>c. ps_closesAt (p_spec p) = Some c \<longrightarrow> \<not> pollClosed p (sys_clock sys)
                \<longrightarrow> (\<exists>i \<le> unixNano c. (k, i) \<in> sys_timers sys0)))"
    and response_done: "\<And>k. k \<in> sys_responses sys \<Longrightarrow> k \<notin> sys_responses sys0 \<Longrightarrow>
      settled_response polls responses (sys_clock sys) s' k"
    and kept: "\<And>k. k \<notin> sys_polls sys \<Longrightarrow> k \<in> sys_polls sys0 \<or> True"
  shows "loop_inv polls responses (deliver env polls responses s' sys0)"
proof -
  let ?d = "deliver env polls responses s' sys0" and ?s = "sys_store sys" and ?t = "sys_clock sys"
  have names: "m_name (p_meta p) \<noteq> ''''" if "polls s' k = Some p" for k p
    using ok that by (auto simp: store_ok_def poll_stored_ok_def)
  have resp: "settled_response polls responses ?t s' k
      \<or> (\<exists>r p. responses s' k = Some r \<and> polls s' (pollKeyOf r) = Some p \<and> stale_poll p ?t
           \<and> pollKeyOf r \<in> sys_polls ?d)" if k: "k \<notin> sys_responses ?d" for k
  proof (cases "k \<in> sys_responses sys")
    case True
    then show ?thesis using response_done k deliver_fields(5) by blast
  next
    case False
    then consider "settled_response polls responses ?t ?s k"
      | r p where "responses ?s k = Some r" "polls ?s (pollKeyOf r) = Some p" "stale_poll p ?t"
          "pollKeyOf r \<in> sys_polls sys"
      using inv unfolding loop_inv_def Let_def by blast
    then show ?thesis
    proof cases
      case 1
      then show ?thesis using settled_response_quiet[OF k] same by simp
    next
      case (2 r p)
      have r: "responses s' k = Some r" using quiet_response(1)[OF k] 2(1) same by simp
      have p: "polls s' (pollKeyOf r) = Some p" using quiet_response(2)[OF k r] 2(2) same by simp
      have "pollKeyOf r \<in> sys_polls sys0" using poll_done[OF 2(4)] p 2(3) by blast
      with r p 2(3) show ?thesis by auto
    qed
  qed
  have poll: "settled_poll polls responses ?t s' k" if k: "k \<notin> sys_polls ?d" for k
  proof (cases "k \<in> sys_polls sys")
    case True
    then show ?thesis using poll_done k deliver_fields(4) by blast
  next
    case False
    then have "settled_poll polls responses ?t (sys_store sys0) k"
      using inv same by (simp add: loop_inv_def Let_def)
    from settled_poll_quiet[OF k _ this] names show ?thesis by blast
  qed
  have timer: "\<exists>i \<le> unixNano c. (k, i) \<in> sys_timers ?d"
    if k: "k \<notin> sys_polls ?d" and p: "polls s' k = Some p" and c: "ps_closesAt (p_spec p) = Some c"
      and op: "\<not> pollClosed p ?t" for k p c
  proof (cases "k \<in> sys_polls sys")
    case True
    have "k \<notin> sys_polls sys0" using k deliver_fields(4) by blast
    from poll_done[OF True this] p c op show ?thesis by simp
  next
    case False
    have "polls ?s k = Some p" using quiet_poll[OF k] p same by simp
    then obtain i where "i \<le> unixNano c" "(k, i) \<in> sys_timers sys"
      using inv False c op unfolding loop_inv_def Let_def by blast
    then show ?thesis using same(3) by auto
  qed
  show ?thesis
    using ok resp poll timer unfolding loop_inv_def Let_def deliver_fields same(2) by blast
qed

end

section \<open>Reconciling a Poll\<close>

lemma find_core_iff:
  assumes "distinct (map c_type a)"
  shows "map_option cond_core (find_condition ty a) = Some c \<longleftrightarrow> c \<in> set (map cond_core a) \<and> c_type c = ty"
proof
  assume "map_option cond_core (find_condition ty a) = Some c"
  then show "c \<in> set (map cond_core a) \<and> c_type c = ty"
    using find_condition_SomeD[of ty a] by auto
next
  assume c: "c \<in> set (map cond_core a) \<and> c_type c = ty"
  then have "c \<in> cond_core ` set a" by simp
  then obtain x where x: "c = cond_core x" "x \<in> set a" by (rule imageE)
  have ty: "c_type x = ty" using c unfolding x(1) by simp
  have "find_condition ty a = Some x" using find_condition_distinct[OF assms x(2)] unfolding ty .
  then show "map_option cond_core (find_condition ty a) = Some c" by (simp only: x(1) option.map)
qed

lemma find_core_cong:
  assumes "distinct (map c_type a)" and "distinct (map c_type b)"
    and "set (map cond_core a) = set (map cond_core b)"
  shows "map_option cond_core (find_condition ty a) = map_option cond_core (find_condition ty b)"
proof -
  have "map_option cond_core (find_condition ty a) = Some c
      \<longleftrightarrow> map_option cond_core (find_condition ty b) = Some c" for c
    unfolding find_core_iff[OF assms(1)] find_core_iff[OF assms(2)] assms(3) ..
  then show ?thesis by (metis option.exhaust)
qed

context status_condition_setter
begin

lemma written_conditions:
  assumes types: "distinct (map c_type (st_conditions (p_status p)))"
    and st: "let d = desiredPollStatus ssc p rs now u
       in if statusEqual (p_status p) d then st = p_status p else same_poll_status d st"
  shows "distinct (map c_type (st_conditions st))
    \<and> map_option c_observedGeneration (find_condition pollReadyCondition (st_conditions st))
        = Some (m_generation (p_meta p))"
proof -
  let ?d = "desiredPollStatus ssc p rs now u"
  have dd: "distinct (map c_type (st_conditions ?d))" by (rule desired_conditions_distinct[OF types])
  obtain c where c: "find_condition pollReadyCondition (st_conditions ?d) = Some c"
    "c_observedGeneration c = m_generation (p_meta p)"
    using desired_ready by blast
  have "distinct (map c_type (st_conditions st))
      \<and> map_option cond_core (find_condition pollReadyCondition (st_conditions st))
        = map_option cond_core (find_condition pollReadyCondition (st_conditions ?d))"
  proof (cases "statusEqual (p_status p) ?d")
    case True
    then have "st = p_status p" using st by simp
    moreover have "set (map cond_core (st_conditions (p_status p))) = set (map cond_core (st_conditions ?d))"
      using statusEqual_fields(6)[OF True] conditionsEqual_iff_set[OF types dd] by blast
    ultimately show ?thesis using find_core_cong[OF types dd] types by simp
  next
    case False
    then have same: "map cond_core (st_conditions ?d) = map cond_core (st_conditions st)"
      using st by (simp add: same_poll_status_def Let_def)
    have "map c_type (st_conditions st) = map c_type (st_conditions ?d)"
      using map_cond_core_types[of "st_conditions st"] map_cond_core_types[of "st_conditions ?d"] same
      by metis
    then show ?thesis
      using dd find_condition_map_core[of _ "st_conditions st"] same
      by (simp flip: find_condition_map_core)
  qed
  then show ?thesis using c by (auto simp: cond_core_eq_iff)
qed

end

lemma requeueAtClose_result:
  assumes "requeueAtClose env phase p s = (Inr res, s')" and "fst (env_now env s) = t"
  shows "\<not> Requeue res"
    and "phase = PollPhaseOpen \<Longrightarrow> ps_closesAt (p_spec p) = Some c \<Longrightarrow> time_Before t c
      \<Longrightarrow> RequeueAfter res = time_Until c t"
proof -
  obtain s1 where now: "env_now env s = (t, s1)" using assms(2) by (metis prod.collapse)
  show "\<not> Requeue res"
    using assms(1) now
    by (auto simp: requeueAtClose_def empty_result_def requeue_after_def Let_def split: if_splits option.splits)
  assume "phase = PollPhaseOpen" "ps_closesAt (p_spec p) = Some c" "time_Before t c"
  then show "RequeueAfter res = time_Until c t"
    using assms(1) requeueAtClose_open(1)[OF _ now] by (auto simp: requeue_after_def)
qed

lemma counted_poll_status [simp]:
  shows "counted (p\<lparr>p_status := st\<rparr>) = counted p"
    and "countedAnswers (p\<lparr>p_status := st\<rparr>) = countedAnswers p"
proof -
  show same: "counted (p\<lparr>p_status := st\<rparr>) = counted p" by (simp add: fun_eq_iff counted_def)
  show "countedAnswers (p\<lparr>p_status := st\<rparr>) = countedAnswers p"
    by (rule ext) (simp only: countedAnswers_def same)
qed

context control_plane
begin

lemma poll_step:
  assumes ok: "store_ok polls responses t s" and run: "PollReconcile (env t) k s = (res, s')"
  shows "\<not> requeued res" and "store_ok polls responses t s'" and "responses s' = responses s"
    and "settled_poll polls responses t s' k"
    and "\<And>p. polls s' k = Some p \<Longrightarrow> \<not> stale_poll p t"
    and "\<And>p c. polls s' k = Some p \<Longrightarrow> ps_closesAt (p_spec p) = Some c \<Longrightarrow> \<not> pollClosed p t \<Longrightarrow>
      \<exists>i \<le> unixNano c. (k, i) \<in> timer_of k t res"
proof -
  have "\<not> requeued res \<and> store_ok polls responses t s' \<and> responses s' = responses s
    \<and> settled_poll polls responses t s' k
    \<and> (\<forall>p. polls s' k = Some p \<longrightarrow> \<not> stale_poll p t \<and> (\<forall>c. ps_closesAt (p_spec p) = Some c \<longrightarrow>
         \<not> pollClosed p t \<longrightarrow> (\<exists>i \<le> unixNano c. (k, i) \<in> timer_of k t res)))"
  proof (cases "polls s k")
    case None
    then obtain e where "env_getPoll (env t) k s = (Inl e, s)" "IsNotFound e"
      using api_store.get_poll[OF store[of t], of k s] by auto
    then have "res = Inr empty_result" "s' = s"
      using run by (simp_all add: PollReconcile_get_error)
    then show ?thesis
      using None ok by (simp add: requeued_def empty_result_def settled_poll_def)
  next
    case (Some p)
    have key: "poll_key p = k" by (rule keys(1)[OF Some])
    have stored: "polls s (poll_key p) = Some p" using Some key by simp
    have p_ok: "poll_stored_ok p" using ok Some by (simp add: store_ok_def)
    obtain rs where rs: "env_listResponses (env t) (m_namespace (p_meta p)) s = (Inr rs, s)"
      "lists responses s (m_namespace (p_meta p)) rs"
      using listing by blast
    from api_store.reconcile_poll_core[OF store stored rs(1)] obtain res0 s0 s4 st rs2 u where
      core: "PollReconcile (env t) (poll_key p) s = (Inr res0, s0)"
        "requeueAtClose (env t) (fst (computePhase p (p_status p) t)) (p\<lparr>p_status := st\<rparr>) s4 = (Inr res0, s0)"
        "polls s0 = (polls s)(poll_key p \<mapsto> p\<lparr>p_status := st\<rparr>)" "responses s0 = responses s"
        "mset rs2 = mset rs"
      and st: "let d = desiredPollStatus (env_setStatusCondition (env t)) p rs2 t u
         in if statusEqual (p_status p) d then st = p_status p else same_poll_status d st"
      unfolding clock by metis
    have res: "res = Inr res0" "s' = s0" using run core(1) key by simp_all
    let ?p = "p\<lparr>p_status := st\<rparr>"
    have new: "polls s' = (polls s)(k \<mapsto> ?p)" using core(3) res key by simp
    have wf: "wf_questions (ps_questions (p_spec p))" "distinct (map c_type (st_conditions (p_status p)))"
      using p_ok by (simp_all add: poll_stored_ok_def)
    note conds = status_condition_setter.written_conditions[OF conditions wf(2) st]
    have phase: "st_phase st = clock_phase p t"
      using published_status[OF wf(1) refl st] by (simp add: clock_phase_def)
    have fresh: "\<not> stale_poll ?p t"
      using conds phase by (auto simp: stale_poll_def clock_phase_def)
    have "poll_stored_ok ?p \<and> phase_reached ?p t"
      using p_ok conds phase by (auto simp: poll_stored_ok_def phase_reached_def clock_phase_def)
    then have ok': "store_ok polls responses t s'"
      using ok Some key core(4) res(2) new
      by (auto simp: store_ok_def responses_stored_ok_def ownable_def split: if_splits)
    have "publishes ?p t xs" if "lists responses s' (m_namespace (p_meta ?p)) xs" for xs
    proof -
      have "set xs = set rs" "distinct xs" "distinct rs"
        using that rs(2) core(4) res(2) by (auto simp: lists_def distinct_map)
      then have "mset rs2 = mset xs" using core(5) set_eq_iff_mset_eq_distinct by metis
      from published_status[OF wf(1) this st] show ?thesis
        by (simp add: publishes_def clock_phase_def)
    qed
    then have settled: "settled_poll polls responses t s' k"
      by (simp add: settled_poll_def new)
    have timer: "\<exists>i \<le> unixNano c. (k, i) \<in> timer_of k t res"
      if c: "ps_closesAt (p_spec p) = Some c" and op: "\<not> pollClosed p t" for c
    proof -
      have before: "time_Before t c" using c op by (auto simp: pollClosed_def time_Before_def)
      have "fst (computePhase p (p_status p) t) = PollPhaseOpen" using op by (simp add: computePhase_phase)
      then have "RequeueAfter res0 = time_Until c t"
        using requeueAtClose_result(2)[OF core(2) clock _ _ before] c by simp
      then show ?thesis
        using requeueAtClose_open(2,3)[of ?p c "env t" s t "snd (env_now (env t) s)"] before c clock
        by (auto simp: timer_of_def res(1) time_Until_pos_iff time_Until_def time_Before_def)
    qed
    have "\<not> requeued res"
      using requeueAtClose_result(1)[OF core(2) clock] by (simp add: requeued_def res(1))
    then show ?thesis
      using ok' settled fresh timer core(4) res(2) new by simp
  qed
  then show "\<not> requeued res" "store_ok polls responses t s'" "responses s' = responses s"
    "settled_poll polls responses t s' k"
    "\<And>p. polls s' k = Some p \<Longrightarrow> \<not> stale_poll p t"
    "\<And>p c. polls s' k = Some p \<Longrightarrow> ps_closesAt (p_spec p) = Some c \<Longrightarrow> \<not> pollClosed p t \<Longrightarrow>
      \<exists>i \<le> unixNano c. (k, i) \<in> timer_of k t res"
    by blast+
qed

end

section \<open>Reconciling a response\<close>

text \<open>The status a response is given at time \<open>t\<close>.\<close>

definition wanted_status :: "(gotime \<Rightarrow> condition \<Rightarrow> condition list \<Rightarrow> condition list) \<Rightarrow> (nat \<Rightarrow> bool) \<Rightarrow>
    's poll_map \<Rightarrow> gotime \<Rightarrow> 's \<Rightarrow> PollResponse \<Rightarrow> PollResponseStatus" where
  "wanted_status ssc pr polls t s r = (case polls s (pollKeyOf r) of
       None \<Rightarrow> rejectedStatus ssc r 0 reasonPollNotFound
                (''Poll '' @ goQuote pr (ref_name (rs_pollRef (r_spec r)))
                 @ '' not found in namespace '' @ goQuote pr (m_namespace (r_meta r))) t t
     | Some p \<Rightarrow> (case validateResponse pr p r t of
          Some verr \<Rightarrow> rejectedStatus ssc r (m_generation (p_meta p)) (ve_reason verr) (ve_message verr) t t
        | None \<Rightarrow> acceptedStatus ssc r (m_generation (p_meta p)) t t t))"

definition owned_by :: "Poll \<Rightarrow> owner_reference list \<Rightarrow> bool" where
  "owned_by p refs \<longleftrightarrow> list_ex (\<lambda>ref. or_uid ref = m_uid (p_meta p)) refs"

lemma accepted_at_irrelevant:
  "rst_acceptedAt (r_status r) \<noteq> None \<Longrightarrow> acceptedStatus ssc r g now t1 t2 = acceptedStatus ssc r g now' t1 t2"
  by (auto simp: acceptedStatus_def Let_def)

lemma verdict_owners [simp]:
  "acceptedStatus ssc (r\<lparr>r_meta := (r_meta r)\<lparr>m_ownerReferences := refs\<rparr>\<rparr>) g now t1 t2
     = acceptedStatus ssc r g now t1 t2"
  "rejectedStatus ssc (r\<lparr>r_meta := (r_meta r)\<lparr>m_ownerReferences := refs\<rparr>\<rparr>) g reason msg t1 t2
     = rejectedStatus ssc r g reason msg t1 t2"
  by (simp_all add: acceptedStatus_def rejectedStatus_def)

lemma not_requeued [simp]: "\<not> requeued (Inr empty_result)"
  by (simp add: requeued_def empty_result_def)

context control_plane
begin

lemma accept_core:
  assumes "responses s (response_key r) = Some r"
  obtains st s' where "acceptResponse (env t) r g s = (Inr empty_result, s')"
    "responses s' = (responses s)(response_key r \<mapsto> r\<lparr>r_status := st\<rparr>)" "polls s' = polls s"
    "written_response (r_status r) (acceptedStatus (env_setStatusCondition (env t)) r g t t t) st"
proof -
  obtain now s1 where n: "(case rst_acceptedAt (r_status r) of None \<Rightarrow> env_now (env t) s | Some u \<Rightarrow> (u, s))
      = (now, s1)"
    by fastforce
  obtain s2 where s2: "env_now (env t) s1 = (t, s2)" using clock by (metis prod.collapse)
  obtain s3 where s3: "env_now (env t) s2 = (t, s3)" using clock by (metis prod.collapse)
  have s1: "responses s1 = responses s" "polls s1 = polls s"
    using n api_store.now[OF store[of t]] by (auto split: option.splits)
  have same: "responses s3 = responses s" "polls s3 = polls s"
    using s1 api_store.now[OF store[of t] s2] api_store.now[OF store[of t] s3] by simp_all
  have "acceptedStatus ssc r g now t t = acceptedStatus ssc r g t t t" for ssc
    using n clock[of t s] accepted_at_irrelevant[of r ssc g now t t t] by (cases "rst_acceptedAt (r_status r)") auto
  then have "acceptResponse (env t) r g s
      = persistResponseStatus (env t) r (acceptedStatus (env_setStatusCondition (env t)) r g t t t) s3"
    by (simp add: acceptResponse_def n s2 s3)
  moreover have "responses s3 (response_key r) = Some r" using assms same by simp
  ultimately show thesis using api_store.persist_core[OF store[of t]] that same by metis
qed

lemma reject_core:
  assumes "responses s (response_key r) = Some r"
  obtains st s' where "rejectResponse (env t) r g reason msg s = (Inr empty_result, s')"
    "responses s' = (responses s)(response_key r \<mapsto> r\<lparr>r_status := st\<rparr>)" "polls s' = polls s"
    "written_response (r_status r) (rejectedStatus (env_setStatusCondition (env t)) r g reason msg t t) st"
proof -
  obtain s2 where s2: "env_now (env t) s = (t, s2)" using clock by (metis prod.collapse)
  obtain s3 where s3: "env_now (env t) s2 = (t, s3)" using clock by (metis prod.collapse)
  have same: "responses s3 = responses s" "polls s3 = polls s"
    using api_store.now[OF store[of t] s2] api_store.now[OF store[of t] s3] by simp_all
  have "rejectResponse (env t) r g reason msg s
      = persistResponseStatus (env t) r (rejectedStatus (env_setStatusCondition (env t)) r g reason msg t t) s3"
    by (simp add: rejectResponse_def s2 s3)
  moreover have "responses s3 (response_key r) = Some r" using assms same by simp
  ultimately show thesis using api_store.persist_core[OF store[of t]] that same by metis
qed

end

context control_plane
begin

lemma live_of_stored:
  assumes "store_ok polls responses t s" and "responses s k = Some r" and "polls s (pollKeyOf r) = Some p"
    and "m_deletionTimestamp (r_meta r) = None"
  shows "live p r"
proof -
  have "ownable p r" using assms(1-3) by (auto simp: store_ok_def responses_stored_ok_def)
  moreover have "poll_key p = pollKeyOf r" by (rule keys(1)[OF assms(3)])
  ultimately show ?thesis
    using assms(4) by (simp add: live_def names_poll_def poll_key_def pollKeyOf_def)
qed

text \<open>A reconcile adds the owner and writes the wanted status.\<close>

lemma response_core:
  assumes ok: "store_ok polls responses t s" and r: "responses s k = Some r"
    and del: "m_deletionTimestamp (r_meta r) = None"
  obtains refs st s' where "PollResponseReconcile (env t) k s = (Inr empty_result, s')"
    "responses s' = (responses s)(k \<mapsto>
       r\<lparr>r_meta := (r_meta r)\<lparr>m_ownerReferences := refs\<rparr>, r_status := st\<rparr>)"
    "polls s' = polls s"
    "written_response (r_status r)
       (wanted_status (env_setStatusCondition (env t)) (env_isPrint (env t)) polls t s r) st"
    "refs = m_ownerReferences (r_meta r) \<or> (\<exists>p. polls s (pollKeyOf r) = Some p \<and> \<not> owned_by p (m_ownerReferences (r_meta r)))"
    "\<And>p. polls s (pollKeyOf r) = Some p \<Longrightarrow> owned_by p refs"
proof (cases "polls s (pollKeyOf r)")
  case None
  note get = api_store.read_response[OF store[of t] r]
  from None api_store.get_poll[OF store[of t], of "pollKeyOf r" s] obtain e where
    e: "env_getPoll (env t) (pollKeyOf r) s = (Inl e, s)" "IsNotFound e" by auto
  have stored: "responses s (response_key r) = Some r" using r keys(2)[OF r] by simp
  from reject_core[OF stored, where g = 0 and reason = reasonPollNotFound and t = t
      and msg = "''Poll '' @ goQuote (env_isPrint (env t)) (ref_name (rs_pollRef (r_spec r)))
        @ '' not found in namespace '' @ goQuote (env_isPrint (env t)) (m_namespace (r_meta r))"]
  obtain st s' where w: "PollResponseReconcile (env t) k s = (Inr empty_result, s')"
    "responses s' = (responses s)(response_key r \<mapsto> r\<lparr>r_status := st\<rparr>)" "polls s' = polls s"
    "written_response (r_status r)
       (wanted_status (env_setStatusCondition (env t)) (env_isPrint (env t)) polls t s r) st"
    unfolding PollResponseReconcile_poll_missing[OF get del e] wanted_status_def None option.case by metis
  show thesis
    by (rule that[OF w(1) _ w(3,4), of "m_ownerReferences (r_meta r)"]) (simp_all add: w(2) keys(2)[OF r] None)
next
  case (Some p)
  have key: "poll_key p = pollKeyOf r" by (rule keys(1)[OF Some])
  have stored: "responses s (response_key r) = Some r" using r keys(2)[OF r] by simp
  have "ownable p r" using live_of_stored[OF ok r Some del] by (simp add: live_def)
  from api_store.own_core[OF store[of t] stored this] obtain refs s1 where
    own: "ensureOwnerReference (env t) r p s = (Inr (r\<lparr>r_meta := (r_meta r)\<lparr>m_ownerReferences := refs\<rparr>\<rparr>), s1)"
    and s1: "responses s1 = (responses s)(k \<mapsto> r\<lparr>r_meta := (r_meta r)\<lparr>m_ownerReferences := refs\<rparr>\<rparr>)"
      "polls s1 = polls s"
    and refs: "owned_by p refs" "owned_by p (m_ownerReferences (r_meta r)) \<Longrightarrow> refs = m_ownerReferences (r_meta r)"
    unfolding owned_by_def keys(2)[OF r] by metis
  let ?r = "r\<lparr>r_meta := (r_meta r)\<lparr>m_ownerReferences := refs\<rparr>\<rparr>"
  obtain s2 where now: "env_now (env t) s1 = (t, s2)" using clock by (metis prod.collapse)
  have s2: "responses s2 = responses s1" "polls s2 = polls s1"
    using api_store.now[OF store[of t] now] by simp_all
  have stored2: "responses s2 (response_key ?r) = Some ?r" by (simp add: s2 s1 keys(2)[OF r])
  note get = api_store.read_response[OF store[of t] r]
    and getp = api_store.read_poll[OF store[of t] Some]
  note step = PollResponseReconcile_verdict[OF get del getp own now, unfolded validateResponse_status]
  obtain st s' where w: "PollResponseReconcile (env t) k s = (Inr empty_result, s')"
    "responses s' = (responses s2)(k \<mapsto> ?r\<lparr>r_status := st\<rparr>)" "polls s' = polls s2"
    "written_response (r_status r)
       (wanted_status (env_setStatusCondition (env t)) (env_isPrint (env t)) polls t s r) st"
  proof (cases "validateResponse (env_isPrint (env t)) p r t")
    case None
    obtain st s' where
      "acceptResponse (env t) ?r (m_generation (p_meta p)) s2 = (Inr empty_result, s')"
      "responses s' = (responses s2)(response_key ?r \<mapsto> ?r\<lparr>r_status := st\<rparr>)" "polls s' = polls s2"
      "written_response (r_status ?r)
         (acceptedStatus (env_setStatusCondition (env t)) ?r (m_generation (p_meta p)) t t t) st"
      by (rule accept_core[OF stored2])
    then show thesis
      by (intro that[of s' st]) (simp_all add: step None wanted_status_def Some keys(2)[OF r])
  next
    case (Some verr)
    obtain st s' where
      "rejectResponse (env t) ?r (m_generation (p_meta p)) (ve_reason verr) (ve_message verr) s2
        = (Inr empty_result, s')"
      "responses s' = (responses s2)(response_key ?r \<mapsto> ?r\<lparr>r_status := st\<rparr>)" "polls s' = polls s2"
      "written_response (r_status ?r) (rejectedStatus (env_setStatusCondition (env t)) ?r
         (m_generation (p_meta p)) (ve_reason verr) (ve_message verr) t t) st"
      by (rule reject_core[OF stored2])
    then show thesis
      by (intro that[of s' st])
        (simp_all add: step Some wanted_status_def \<open>polls s (pollKeyOf r) = Some p\<close> keys(2)[OF r])
  qed
  show thesis
  proof (rule that[OF w(1) _ _ w(4)])
    show "responses s' = (responses s)(k \<mapsto>
       r\<lparr>r_meta := (r_meta r)\<lparr>m_ownerReferences := refs\<rparr>, r_status := st\<rparr>)"
      by (simp add: w(2) s2 s1)
    show "polls s' = polls s" by (simp add: w(3) s2 s1)
    show "refs = m_ownerReferences (r_meta r)
        \<or> (\<exists>p. polls s (pollKeyOf r) = Some p \<and> \<not> owned_by p (m_ownerReferences (r_meta r)))"
      using refs(2) Some by blast
    show "\<And>p. polls s (pollKeyOf r) = Some p \<Longrightarrow> owned_by p refs" using Some refs(1) by simp
  qed
qed

lemma response_noop:
  assumes "PollResponseReconcile (env t) k s = (res, s')"
    and "\<And>r. responses s k = Some r \<Longrightarrow> m_deletionTimestamp (r_meta r) \<noteq> None"
  shows "res = Inr empty_result \<and> s' = s"
proof (cases "responses s k")
  case None
  then obtain e where "env_getResponse (env t) k s = (Inl e, s)" "IsNotFound e"
    using api_store.get_response[OF store[of t], of k s] by auto
  then show ?thesis using assms(1) by (simp add: PollResponseReconcile_get_error)
next
  case (Some r)
  from PollResponseReconcile_deleted[OF api_store.read_response[OF store[of t] Some] assms(2)[OF Some]]
  show ?thesis using assms(1) by simp
qed

end

section \<open>Verdicts\<close>

lemma wanted_phase:
  "rst_phase (wanted_status ssc pr polls t s r)
     = (if deserves polls t s r then PollResponsePhaseAccepted else PollResponsePhaseRejected)"
proof (cases "polls s (pollKeyOf r)")
  case (Some p)
  then show ?thesis
    using validateResponse_any_print[of pr p r t]
    by (cases "validateResponse pr p r t") (simp_all add: wanted_status_def deserves_def verdict_fields)
qed (simp add: wanted_status_def deserves_def verdict_fields)

lemma deserves_spec:
  assumes "r_spec r' = r_spec r" and "m_namespace (r_meta r') = m_namespace (r_meta r)"
  shows "deserves polls t s r' = deserves polls t s r"
  using assms validateResponse_spec_cong[OF assms(1)]
  by (simp add: deserves_def pollKeyOf_def cong: option.case_cong)

context status_condition_setter
begin

lemma wanted_conditions_distinct:
  assumes "distinct (map c_type (rst_conditions (r_status r)))"
  shows "distinct (map c_type (rst_conditions (wanted_status ssc pr polls t s r)))"
  unfolding wanted_status_def by (auto simp: verdict_fields intro!: sets_distinct assms split: option.split)

lemma written_response_distinct:
  assumes "distinct (map c_type (rst_conditions (r_status r)))"
    and "written_response (r_status r) (wanted_status ssc pr polls t s r) st"
  shows "distinct (map c_type (rst_conditions st))"
proof -
  let ?d = "wanted_status ssc pr polls t s r"
  have "map c_type (rst_conditions st) = map c_type (rst_conditions ?d)"
    if "map cond_core (rst_conditions ?d) = map cond_core (rst_conditions st)"
    using that map_cond_core_types by metis
  then show ?thesis
    using assms wanted_conditions_distinct[OF assms(1), of pr polls t s]
    by (auto simp: written_response_def same_response_status_def split: if_splits)
qed

end

context control_plane
begin

lemma response_step:
  assumes ok: "store_ok polls responses t s" and run: "PollResponseReconcile (env t) k s = (res, s')"
  shows "\<not> requeued res" and "store_ok polls responses t s'" and "polls s' = polls s"
    and "settled_response polls responses t s' k"
proof -
  have "\<not> requeued res \<and> store_ok polls responses t s' \<and> polls s' = polls s
      \<and> settled_response polls responses t s' k"
  proof (cases "\<exists>r. responses s k = Some r \<and> m_deletionTimestamp (r_meta r) = None")
    case False
    then have "\<And>r. responses s k = Some r \<Longrightarrow> m_deletionTimestamp (r_meta r) \<noteq> None" by simp
    from response_noop[OF run this] show ?thesis using ok False by (auto simp: settled_response_def)
  next
    case True
    then obtain r where r: "responses s k = Some r" "m_deletionTimestamp (r_meta r) = None" by blast
    from response_core[OF ok r] run obtain refs st where
      out: "res = Inr empty_result" "polls s' = polls s"
      and new: "responses s' = (responses s)(k \<mapsto>
         r\<lparr>r_meta := (r_meta r)\<lparr>m_ownerReferences := refs\<rparr>, r_status := st\<rparr>)"
        (is "_ = (responses s)(k \<mapsto> ?r)")
      and st: "written_response (r_status r)
         (wanted_status (env_setStatusCondition (env t)) (env_isPrint (env t)) polls t s r) st"
      and own: "\<And>p. polls s (pollKeyOf r) = Some p \<Longrightarrow> owned_by p refs"
      by (metis prod.inject)
    have key: "pollKeyOf ?r = pollKeyOf r" by (simp add: pollKeyOf_def)
    have types: "distinct (map c_type (rst_conditions (r_status r)))"
      using ok r(1) by (auto simp: store_ok_def responses_stored_ok_def)
    have "distinct (map c_type (rst_conditions st))"
      by (rule status_condition_setter.written_response_distinct[OF conditions types st])
    moreover have "ownable p ?r" if "polls s (pollKeyOf r) = Some p" for p
      using own[OF that] by (simp add: ownable_def owned_by_def)
    ultimately have "store_ok polls responses t s'"
      using ok out(2) key by (auto simp: store_ok_def responses_stored_ok_def new)
    moreover have "deserves polls t s' ?r = deserves polls t s r"
      using deserves_spec[of ?r r polls t s] out(2) by (simp add: deserves_def)
    then have "settled_response polls responses t s' k"
      using written_response_phase[OF st] by (simp add: settled_response_def new wanted_phase)
    ultimately show ?thesis using out by simp
  qed
  then show "\<not> requeued res" "store_ok polls responses t s'" "polls s' = polls s"
    "settled_response polls responses t s' k" by simp_all
qed

end

section \<open>The system at rest\<close>

lemma tick_inv:
  assumes inv: "loop_inv polls responses sys" and le: "unixNano (sys_clock sys) \<le> unixNano t"
  shows "loop_inv polls responses (sys\<lparr>sys_clock := t,
      sys_polls := sys_polls sys \<union> fst ` {x \<in> sys_timers sys. snd x \<le> unixNano t},
      sys_timers := {x \<in> sys_timers sys. \<not> snd x \<le> unixNano t}\<rparr>)"
    (is "loop_inv polls responses ?sys")
proof -
  let ?s = "sys_store sys" and ?u = "sys_clock sys"
  have ok: "store_ok polls responses ?u ?s" using inv by (simp add: loop_inv_def Let_def)
  then have ok': "store_ok polls responses t ?s"
    using phase_reached_mono[OF _ le] by (auto simp: store_ok_def)
  have phase: "phase_reached p ?u" if "polls ?s k = Some p" for k p
    using ok that by (simp add: store_ok_def)
  have queued: "k \<in> sys_polls ?sys"
    if p: "polls ?s k = Some p" and op: "\<not> pollClosed p ?u" and cl: "pollClosed p t" for k p
  proof (cases "k \<in> sys_polls sys")
    case False
    obtain c where c: "ps_closesAt (p_spec p) = Some c" "unixNano c \<le> unixNano t"
      using cl by (auto simp: pollClosed_def split: option.splits)
    then obtain i where i: "i \<le> unixNano c" "(k, i) \<in> sys_timers sys"
      using inv False p op unfolding loop_inv_def Let_def by blast
    with c(2) have "(k, i) \<in> {x \<in> sys_timers sys. snd x \<le> unixNano t}" by simp
    then show ?thesis by (simp add: image_iff) force
  qed simp
  have closing: "\<not> pollClosed p ?u \<and> pollClosed p t" if "pollClosed p t \<noteq> pollClosed p ?u" for p
    using that pollClosed_mono[OF _ le] by blast
  have resp: "settled_response polls responses t ?s k
      \<or> (\<exists>r p. responses ?s k = Some r \<and> polls ?s (pollKeyOf r) = Some p \<and> stale_poll p t
           \<and> pollKeyOf r \<in> sys_polls ?sys)" if "k \<notin> sys_responses sys" for k
  proof -
    consider (settled) "settled_response polls responses ?u ?s k"
      | (stale) r p where "responses ?s k = Some r" "polls ?s (pollKeyOf r) = Some p" "stale_poll p ?u"
          "pollKeyOf r \<in> sys_polls sys"
      using inv \<open>k \<notin> sys_responses sys\<close> unfolding loop_inv_def Let_def by blast
    then show ?thesis
    proof cases
      case stale
      then show ?thesis using stale_mono[OF stale(3) phase[OF stale(2)] le] by auto
    next
      case settled
      show ?thesis
      proof (cases "\<exists>r p. responses ?s k = Some r \<and> polls ?s (pollKeyOf r) = Some p
          \<and> pollClosed p t \<noteq> pollClosed p ?u")
        case True
        then obtain r p where rp: "responses ?s k = Some r" "polls ?s (pollKeyOf r) = Some p"
          "pollClosed p t \<noteq> pollClosed p ?u" by blast
        note cl = closing[OF rp(3)]
        then show ?thesis
          using stale_after_closing[OF phase[OF rp(2)], of t] queued[OF rp(2)] rp(1,2) by blast
      next
        case False
        have "deserves polls t ?s r = deserves polls ?u ?s r" if r: "responses ?s k = Some r" for r
        proof (cases "polls ?s (pollKeyOf r)")
          case (Some p)
          then have "pollClosed p t = pollClosed p ?u" using False r by blast
          from validateResponse_clock[OF this] Some show ?thesis by (simp add: deserves_def)
        qed (simp add: deserves_def)
        then show ?thesis using settled by (simp add: settled_response_def)
      qed
    qed
  qed
  have poll: "settled_poll polls responses t ?s k" if "k \<notin> sys_polls ?sys" for k
  proof -
    have settled: "settled_poll polls responses ?u ?s k"
      using inv that by (auto simp: loop_inv_def Let_def)
    have "clock_phase p t = clock_phase p ?u" if "polls ?s k = Some p" for p
      using queued[OF that] closing[of p] \<open>k \<notin> sys_polls ?sys\<close> unfolding clock_phase_def by metis
    then show ?thesis using settled by (simp add: settled_poll_def publishes_def)
  qed
  have timer: "\<exists>i \<le> unixNano c. (k, i) \<in> sys_timers ?sys"
    if k: "k \<notin> sys_polls ?sys" and p: "polls ?s k = Some p" and c: "ps_closesAt (p_spec p) = Some c"
      and op: "\<not> pollClosed p t" for k p c
  proof -
    have "k \<notin> sys_polls sys" "\<not> pollClosed p ?u" using k op pollClosed_mono[OF _ le] by auto
    then obtain i where i: "i \<le> unixNano c" "(k, i) \<in> sys_timers sys"
      using inv p c unfolding loop_inv_def Let_def by blast
    have "\<not> i \<le> unixNano t"
    proof
      assume "i \<le> unixNano t"
      with i(2) have "k \<in> fst ` {x \<in> sys_timers sys. snd x \<le> unixNano t}" by force
      with k show False by simp
    qed
    with i show ?thesis by auto
  qed
  show ?thesis
    unfolding loop_inv_def Let_def using ok' resp poll timer by simp
qed

context control_plane
begin

lemma worker_step_inv:
  assumes "worker_step env polls responses sys sys'" and "loop_inv polls responses sys"
  shows "loop_inv polls responses sys'"
  using assms
proof (induction rule: worker_step.induct)
  case (poll k sys res s')
  have ok: "store_ok polls responses (sys_clock sys) (sys_store sys)"
    using poll.prems by (simp add: loop_inv_def Let_def)
  note step = poll_step[OF ok poll.hyps(2)[unfolded reconcilers]]
  let ?sys = "sys\<lparr>sys_polls := (if requeued res then sys_polls sys else sys_polls sys - {k}),
    sys_timers := sys_timers sys \<union> timer_of k (sys_clock sys) res\<rparr>"
  have "settled_poll polls responses (sys_clock sys) s' x
      \<and> (\<forall>p. polls s' x = Some p \<longrightarrow> \<not> stale_poll p (sys_clock sys)
           \<and> (\<forall>c. ps_closesAt (p_spec p) = Some c \<longrightarrow> \<not> pollClosed p (sys_clock sys)
                \<longrightarrow> (\<exists>i \<le> unixNano c. (x, i) \<in> sys_timers ?sys)))"
    if "x \<in> sys_polls sys" "x \<notin> sys_polls ?sys" for x
  proof -
    have x: "x = k" using that by (simp split: if_splits)
    show ?thesis using step(4,5) step(6) unfolding x by simp blast
  qed
  then show ?case by (intro deliver_inv[OF poll.prems _ _ _ step(2)]) auto
next
  case (response k sys res s')
  have ok: "store_ok polls responses (sys_clock sys) (sys_store sys)"
    using response.prems by (simp add: loop_inv_def Let_def)
  note step = response_step[OF ok response.hyps(2)[unfolded reconcilers]]
  show ?case
    using step(4) by (intro deliver_inv[OF response.prems _ _ _ step(2)]) (auto split: if_splits)
qed

lemma control_step_inv:
  assumes "control_step env polls responses sys sys'" and "loop_inv polls responses sys"
  shows "loop_inv polls responses sys'"
  using assms
proof (induction rule: control_step.induct)
  case (work sys sys')
  then show ?case by (rule worker_step_inv)
next
  case (edit sys s')
  have "store_ok polls responses (sys_clock sys) s'"
    using edit edit_store_ok by (auto simp: loop_inv_def Let_def)
  then show ?case by (intro deliver_inv[OF edit.prems]) auto
next
  case (tick sys t)
  then show ?case by (simp add: tick_inv)
qed

lemma reachable_inv:
  assumes "(control_step env polls responses)\<^sup>*\<^sup>* (started polls responses t s) sys"
    and "store_ok polls responses t s"
  shows "loop_inv polls responses sys"
  using assms(1)
  by (induction rule: rtranclp_induct) (auto intro: loop_inv_started assms(2) control_step_inv)

text \<open>At rest, a Poll whose responses are all live publishes the valid ones.\<close>

lemma rest_results:
  assumes inv: "loop_inv polls responses sys" and rest: "at_rest sys"
    and p: "polls (sys_store sys) k = Some p"
    and list: "env_listResponses (env (sys_clock sys)) (m_namespace (p_meta p)) (sys_store sys) = (Inr rs, sys_store sys)"
    and live: "\<And>r. r \<in> set rs \<Longrightarrow> names_poll p r \<Longrightarrow> m_deletionTimestamp (r_meta r) = None"
  shows "st_phase (p_status p) = (if pollClosed p (sys_clock sys) then PollPhaseClosed else PollPhaseOpen)
    \<and> st_totalResponses (p_status p) = of_nat (length (filter (valid_for pr p (sys_clock sys)) rs))
    \<and> shows_results (p_status p) (ps_questions (p_spec p)) (validAnswers pr p (sys_clock sys) rs)"
  using settled_results[OF loop_inv_rest(2)[OF inv rest] loop_inv_rest(1)[OF inv rest] p listed[OF list] live] .

end

end
