(* ===== verification/Control_Drain.thy ===== *)
theory Control_Drain
  imports Control_Loop
begin

text \<open>
  The work queues drain. A reconcile writes at most once: afterwards its object is final, which
  reconciles of other objects do not undo, except that a changed response may disturb its
  Poll. So every step of a worker decreases, in this order, the number of responses that
  are not final, the number of Polls that are not final, and the length of the queues.
\<close>

section \<open>Objects that a reconcile would not write\<close>

definition final_response :: "(gotime \<Rightarrow> 's kube_env) \<Rightarrow> 's poll_map \<Rightarrow> 's response_map \<Rightarrow> gotime \<Rightarrow> 's \<Rightarrow>
    NamespacedName \<Rightarrow> bool" where
  "final_response env polls responses t s k \<longleftrightarrow>
     (\<forall>r. responses s k = Some r \<longrightarrow> m_deletionTimestamp (r_meta r) = None \<longrightarrow>
        responseStatusEqual (r_status r)
          (wanted_status (env_setStatusCondition (env t)) (env_isPrint (env t)) polls t s r)
      \<and> (\<forall>p. polls s (pollKeyOf r) = Some p \<longrightarrow> owned_by p (m_ownerReferences (r_meta r))))"

definition final_poll :: "(gotime \<Rightarrow> 's kube_env) \<Rightarrow> 's poll_map \<Rightarrow> 's response_map \<Rightarrow> gotime \<Rightarrow> 's \<Rightarrow>
    NamespacedName \<Rightarrow> bool" where
  "final_poll env polls responses t s k \<longleftrightarrow>
     (\<forall>p rs u. polls s k = Some p \<longrightarrow> lists responses s (m_namespace (p_meta p)) rs \<longrightarrow>
        statusEqual (p_status p) (desiredPollStatus (env_setStatusCondition (env t)) p rs t u))"



lemma wanted_status_cong:
  assumes "r_spec r' = r_spec r" and "r_status r' = r_status r"
    and "m_namespace (r_meta r') = m_namespace (r_meta r)"
    and "m_generation (r_meta r') = m_generation (r_meta r)"
  shows "wanted_status ssc pr polls t s r' = wanted_status ssc pr polls t s r"
proof -
  have "acceptedStatus ssc r' = acceptedStatus ssc r" "rejectedStatus ssc r' = rejectedStatus ssc r"
    by (simp_all add: fun_eq_iff acceptedStatus_def rejectedStatus_def assms(2,4))
  moreover have "validateResponse pr p r' t = validateResponse pr p r t" for p
    by (rule validateResponse_spec_cong[OF assms(1)])
  ultimately show ?thesis by (simp add: wanted_status_def pollKeyOf_def assms cong: option.case_cong)
qed

lemma wanted_store:
  "polls s' = polls s \<Longrightarrow> wanted_status ssc pr polls t s' r = wanted_status ssc pr polls t s r"
  by (simp add: wanted_status_def)

context status_condition_setter
begin

lemma two_conditions_written:
  assumes "distinct (map c_type cs')" and "c_type c1 \<noteq> c_type c2"
    and "map cond_core (ssc t2 c2 (ssc t1 c1 cs)) = map cond_core cs'"
  shows "conditionsEqualIgnoringTransition cs' (ssc u2 c2 (ssc u1 c1 cs'))"
proof (rule conditionsEqual_same_core[OF assms(1)])
  show "map cond_core cs' = map cond_core (ssc u2 c2 (ssc u1 c1 cs'))"
    using upsert_two_conditions_idem[of "cond_core c1" "cond_core c2" "map cond_core cs"] assms(2,3)
    by (simp add: sets_core)
qed

lemma accepted_written:
  assumes "distinct (map c_type (rst_conditions st))"
    and "same_response_status (acceptedStatus ssc r g now t1 t2) st"
  shows "responseStatusEqual st (acceptedStatus ssc (r\<lparr>r_status := st\<rparr>) g now' u1 u2)"
  using assms two_conditions_written[OF assms(1)]
  by (auto simp: responseStatusEqual_def verdict_fields same_response_status_def split: option.splits)

lemma rejected_written:
  assumes "distinct (map c_type (rst_conditions st))"
    and "same_response_status (rejectedStatus ssc r g reason msg t1 t2) st"
  shows "responseStatusEqual st (rejectedStatus ssc (r\<lparr>r_status := st\<rparr>) g reason msg u1 u2)"
  using assms two_conditions_written[OF assms(1)]
  by (auto simp: responseStatusEqual_def verdict_fields same_response_status_def)

lemma wanted_written:
  assumes types: "distinct (map c_type (rst_conditions (r_status r)))"
    and st: "written_response (r_status r) (wanted_status ssc pr polls t s r) st"
  shows "responseStatusEqual st (wanted_status ssc pr polls t s (r\<lparr>r_status := st\<rparr>))"
proof (cases "responseStatusEqual (r_status r) (wanted_status ssc pr polls t s r)")
  case True
  then have "st = r_status r" using st by (simp add: written_response_def)
  then show ?thesis using True by simp
next
  case False
  then have same: "same_response_status (wanted_status ssc pr polls t s r) st"
    using st by (simp add: written_response_def)
  note dist = written_response_distinct[OF types st]
  show ?thesis
  proof (cases "polls s (pollKeyOf r)")
    case None
    then show ?thesis
      using same rejected_written[OF dist] by (simp add: wanted_status_def pollKeyOf_def)
  next
    case (Some p)
    then show ?thesis
      using same accepted_written[OF dist] rejected_written[OF dist]
      by (simp add: wanted_status_def pollKeyOf_def split: option.splits)
  qed
qed

end

section \<open>Final responses\<close>

context control_plane
begin

lemma final_response_noop:
  assumes ok: "store_ok polls responses t s" and run: "PollResponseReconcile (env t) k s = (res, s')"
    and final: "final_response env polls responses t s k"
  shows "responses s' = responses s"
proof (cases "\<exists>r. responses s k = Some r \<and> m_deletionTimestamp (r_meta r) = None")
  case False
  then have "\<And>r. responses s k = Some r \<Longrightarrow> m_deletionTimestamp (r_meta r) \<noteq> None" by simp
  from response_noop[OF run this] show ?thesis by simp
next
  case True
  then obtain r where r: "responses s k = Some r" "m_deletionTimestamp (r_meta r) = None" by blast
  let ?d = "wanted_status (env_setStatusCondition (env t)) (env_isPrint (env t)) polls t s r"
  have equal: "responseStatusEqual (r_status r) ?d"
    and owned: "\<And>p. polls s (pollKeyOf r) = Some p \<Longrightarrow> owned_by p (m_ownerReferences (r_meta r))"
    using final r by (simp_all add: final_response_def)
  from response_core[OF ok r] run obtain refs st where
    new: "responses s' = (responses s)(k \<mapsto> r\<lparr>r_meta := (r_meta r)\<lparr>m_ownerReferences := refs\<rparr>, r_status := st\<rparr>)"
    and st: "written_response (r_status r) ?d st"
    and refs: "refs = m_ownerReferences (r_meta r)
      \<or> (\<exists>p. polls s (pollKeyOf r) = Some p \<and> \<not> owned_by p (m_ownerReferences (r_meta r)))"
    by (metis prod.inject)
  have "refs = m_ownerReferences (r_meta r)" using refs owned by blast
  moreover have "st = r_status r" using st equal by (simp add: written_response_def)
  ultimately show ?thesis using new r(1) by (simp add: fun_upd_idem)
qed

lemma final_response_written:
  assumes ok: "store_ok polls responses t s" and run: "PollResponseReconcile (env t) k s = (res, s')"
  shows "final_response env polls responses t s' k" and "x \<noteq> k \<Longrightarrow> responses s' x = responses s x"
proof -
  have "final_response env polls responses t s' k \<and> (\<forall>x. x \<noteq> k \<longrightarrow> responses s' x = responses s x)"
  proof (cases "\<exists>r. responses s k = Some r \<and> m_deletionTimestamp (r_meta r) = None")
    case False
    then have "\<And>r. responses s k = Some r \<Longrightarrow> m_deletionTimestamp (r_meta r) \<noteq> None" by simp
    from response_noop[OF run this] show ?thesis using False by (auto simp: final_response_def)
  next
    case True
    then obtain r where r: "responses s k = Some r" "m_deletionTimestamp (r_meta r) = None" by blast
    from response_core[OF ok r] run obtain refs st where
      new: "responses s' = (responses s)(k \<mapsto>
         r\<lparr>r_meta := (r_meta r)\<lparr>m_ownerReferences := refs\<rparr>, r_status := st\<rparr>)"
        (is "_ = (responses s)(k \<mapsto> ?r)")
      and polls: "polls s' = polls s"
      and st: "written_response (r_status r)
         (wanted_status (env_setStatusCondition (env t)) (env_isPrint (env t)) polls t s r) st"
      and own: "\<And>p. polls s (pollKeyOf r) = Some p \<Longrightarrow> owned_by p refs"
      by (metis prod.inject)
    have types: "distinct (map c_type (rst_conditions (r_status r)))"
      using ok r(1) by (auto simp: store_ok_def responses_stored_ok_def)
    let ?w = "wanted_status (env_setStatusCondition (env t)) (env_isPrint (env t)) polls t s"
    have "?w ?r = ?w (r\<lparr>r_status := st\<rparr>)"
      by (rule wanted_status_cong) simp_all
    then have "responseStatusEqual st (?w ?r)"
      using status_condition_setter.wanted_written[OF conditions types st] by simp
    moreover have "pollKeyOf ?r = pollKeyOf r" by (simp add: pollKeyOf_def)
    ultimately show ?thesis
      using own polls wanted_store[OF polls] by (simp add: final_response_def new)
  qed
  then show "final_response env polls responses t s' k" "x \<noteq> k \<Longrightarrow> responses s' x = responses s x"
    by simp_all
qed

end

section \<open>Final Polls\<close>

text \<open>The desired status is compared without regard to the order of the listing and the clock's reading.\<close>

lemma statusEqual_cong:
  assumes "st_phase d' = st_phase d" and "st_totalResponses d' = st_totalResponses d"
    and "st_openedAt d' = st_openedAt d" and "st_closedAt d' = st_closedAt d"
    and "st_results d' = st_results d"
    and "map cond_core (st_conditions d') = map cond_core (st_conditions d)"
  shows "statusEqual st d' = statusEqual st d"
proof -
  have "conditionsEqualIgnoringTransition cs b
      \<longleftrightarrow> length cs = length (map cond_core b) \<and> list_all (\<lambda>bc. map_option cond_core
            (index_by c_type cs Map.empty (c_type bc)) = Some bc) (map cond_core b)" for cs b
    by (simp add: conditionsEqual_list_all list_all_iff)
  then have "conditionsEqualIgnoringTransition cs (st_conditions d')
      = conditionsEqualIgnoringTransition cs (st_conditions d)" for cs
    by (simp only: assms(6))
  then show ?thesis using assms(1-5) by (simp add: statusEqual_def)
qed

context status_condition_setter
begin

lemma desired_same:
  assumes wf: "wf_questions (ps_questions (p_spec p))" and perm: "mset rs' = mset rs"
  shows "statusEqual st (desiredPollStatus ssc p rs' t u') = statusEqual st (desiredPollStatus ssc p rs t u)"
proof (rule statusEqual_cong)
  have "mset (filter (counted p) rs') = mset (filter (counted p) rs)" using perm by simp
  then have "length (filter (counted p) rs') = length (filter (counted p) rs)" by (metis size_mset)
  then show "st_totalResponses (desiredPollStatus ssc p rs' t u') = st_totalResponses (desiredPollStatus ssc p rs t u)"
    by (simp add: desiredPollStatus_fields aggregateResults_total)
  show "st_results (desiredPollStatus ssc p rs' t u') = st_results (desiredPollStatus ssc p rs t u)"
    by (simp add: desiredPollStatus_fields aggregateResults_eq[OF wf] specResult_mset[OF mset_countedAnswers[OF perm]])
  show "map cond_core (st_conditions (desiredPollStatus ssc p rs' t u'))
      = map cond_core (st_conditions (desiredPollStatus ssc p rs t u))"
    by (simp add: desiredPollStatus_fields sets_core readyCondition_core[of _ _ u' u])
qed (simp_all add: desiredPollStatus_fields)

end

lemma lists_mset: "lists responses s ns rs \<Longrightarrow> mset rs' = mset rs \<Longrightarrow> lists responses s ns rs'"
  unfolding lists_def by (metis mset_eq_setD mset_eq_imp_distinct_iff mset_map)

lemma lists_unique: "lists responses s ns rs \<Longrightarrow> lists responses s ns rs' \<Longrightarrow> mset rs' = mset rs"
  unfolding lists_def by (metis distinct_map set_eq_iff_mset_eq_distinct)

context control_plane
begin

text \<open>What one reconcile of a Poll does to the store.\<close>

lemma poll_core:
  assumes run: "PollReconcile (env t) k s = (res, s')" and p: "polls s k = Some p"
  obtains rs u st where "lists responses s (m_namespace (p_meta p)) rs" "responses s' = responses s"
    "polls s' = (polls s)(k \<mapsto> p\<lparr>p_status := st\<rparr>)"
    "let d = desiredPollStatus (env_setStatusCondition (env t)) p rs t u
     in if statusEqual (p_status p) d then st = p_status p else same_poll_status d st"
proof -
  have key: "poll_key p = k" by (rule keys(1)[OF p])
  obtain rs where rs: "env_listResponses (env t) (m_namespace (p_meta p)) s = (Inr rs, s)"
    "lists responses s (m_namespace (p_meta p)) rs"
    using listing by blast
  from p key have "polls s (poll_key p) = Some p" by simp
  from api_store.reconcile_poll_core[OF store this rs(1)] obtain st rs2 u where
    "polls s' = (polls s)(poll_key p \<mapsto> p\<lparr>p_status := st\<rparr>)" "responses s' = responses s" "mset rs2 = mset rs"
    "let d = desiredPollStatus (env_setStatusCondition (env t)) p rs2 t u
     in if statusEqual (p_status p) d then st = p_status p else same_poll_status d st"
    unfolding clock key run by (metis prod.inject)
  with that[of rs2 st u] lists_mset[OF rs(2)] show thesis unfolding key by simp
qed

lemma poll_missing:
  assumes "PollReconcile (env t) k s = (res, s')" and "polls s k = None"
  shows "s' = s"
proof -
  obtain e where "env_getPoll (env t) k s = (Inl e, s)" "IsNotFound e"
    using api_store.get_poll[OF store[of t], of k s] assms(2) by auto
  then show ?thesis using assms(1) by (simp add: PollReconcile_get_error)
qed

lemma final_poll_noop:
  assumes ok: "store_ok polls responses t s" and run: "PollReconcile (env t) k s = (res, s')"
    and final: "final_poll env polls responses t s k"
  shows "polls s' = polls s"
proof (cases "polls s k")
  case None
  then show ?thesis using poll_missing[OF run] by simp
next
  case (Some p)
  from poll_core[OF run Some] obtain rs u st where
    w: "lists responses s (m_namespace (p_meta p)) rs" "polls s' = (polls s)(k \<mapsto> p\<lparr>p_status := st\<rparr>)"
      "let d = desiredPollStatus (env_setStatusCondition (env t)) p rs t u
       in if statusEqual (p_status p) d then st = p_status p else same_poll_status d st"
    by metis
  then have "st = p_status p" using final Some by (simp add: final_poll_def Let_def)
  then show ?thesis using w(2) Some by (simp add: fun_upd_idem)
qed

lemma final_poll_written:
  assumes ok: "store_ok polls responses t s" and run: "PollReconcile (env t) k s = (res, s')"
  shows "final_poll env polls responses t s' k"
proof (cases "polls s k")
  case None
  then show ?thesis using poll_missing[OF run] by (simp add: final_poll_def)
next
  case (Some p)
  from poll_core[OF run Some] obtain rs u st where
    rs: "lists responses s (m_namespace (p_meta p)) rs" and same: "responses s' = responses s"
    and new: "polls s' = (polls s)(k \<mapsto> p\<lparr>p_status := st\<rparr>)"
    and st: "let d = desiredPollStatus (env_setStatusCondition (env t)) p rs t u
       in if statusEqual (p_status p) d then st = p_status p else same_poll_status d st"
    by metis
  have ok_p: "wf_questions (ps_questions (p_spec p))" "distinct (map c_type (st_conditions (p_status p)))"
    using ok Some by (simp_all add: store_ok_def poll_stored_ok_def)
  have equal: "statusEqual st (desiredPollStatus (env_setStatusCondition (env t)) (p\<lparr>p_status := st\<rparr>) rs t v)" for v
  proof (cases "statusEqual (p_status p) (desiredPollStatus (env_setStatusCondition (env t)) p rs t u)")
    case True
    then have "p\<lparr>p_status := st\<rparr> = p" "st = p_status p" using st by simp_all
    then show ?thesis
      using True status_condition_setter.desired_same[OF conditions ok_p(1) refl] by metis
  next
    case False
    then show ?thesis
      using st status_condition_setter.written_fixed_point[OF conditions ok_p refl] by (simp add: Let_def)
  qed
  show ?thesis
    unfolding final_poll_def
  proof (intro allI impI)
    fix p' rs' v
    assume p': "polls s' k = Some p'" and rs': "lists responses s' (m_namespace (p_meta p')) rs'"
    have p'_def: "p' = p\<lparr>p_status := st\<rparr>" using p' new by simp
    have "lists responses s (m_namespace (p_meta p)) rs'" using rs' same by (simp add: p'_def lists_def)
    from status_condition_setter.desired_same[OF conditions _ lists_unique[OF rs this], of p'] equal ok_p(1)
    show "statusEqual (p_status p') (desiredPollStatus (env_setStatusCondition (env t)) p' rs' t v)"
      by (simp add: p'_def) metis
  qed
qed

end

section \<open>What a reconcile leaves alone\<close>

lemma final_response_frame:
  "polls s' = polls s \<Longrightarrow> responses s' k = responses s k
    \<Longrightarrow> final_response env polls responses t s' k = final_response env polls responses t s k"
  using wanted_store[of polls s' s] by (simp add: final_response_def)

lemma final_poll_frame:
  "polls s' k = polls s k \<Longrightarrow> responses s' = responses s
    \<Longrightarrow> final_poll env polls responses t s' k = final_poll env polls responses t s k"
  by (simp add: final_poll_def lists_def)

lemma final_response_status:
  assumes p: "polls s k = Some p" and new: "polls s' = (polls s)(k \<mapsto> p\<lparr>p_status := st\<rparr>)"
    and same: "responses s' = responses s"
  shows "final_response env polls responses t s' x = final_response env polls responses t s x"
proof -
  have "wanted_status ssc pr polls t s' r = wanted_status ssc pr polls t s r" for ssc pr r
    using p by (simp add: wanted_status_def new split: option.split)
  moreover have "(\<forall>q. polls s' y = Some q \<longrightarrow> owned_by q refs) \<longleftrightarrow> (\<forall>q. polls s y = Some q \<longrightarrow> owned_by q refs)"
    for y refs
    using p by (simp add: new owned_by_def)
  ultimately show ?thesis by (simp add: final_response_def same)
qed

lemma final_dom:
  "{k. \<not> final_response env polls responses t s k} \<subseteq> dom (responses s)"
  "{k. \<not> final_poll env polls responses t s k} \<subseteq> dom (polls s)"
  by (auto simp: final_response_def final_poll_def)

section \<open>The measure\<close>

definition drainable :: "'s poll_map \<Rightarrow> 's response_map \<Rightarrow> 's system \<Rightarrow> bool" where
  "drainable polls responses sys \<longleftrightarrow> store_ok polls responses (sys_clock sys) (sys_store sys)
     \<and> finite (dom (polls (sys_store sys))) \<and> finite (dom (responses (sys_store sys)))
     \<and> finite (sys_polls sys) \<and> finite (sys_responses sys)"

definition drain_measure :: "(gotime \<Rightarrow> 's kube_env) \<Rightarrow> 's poll_map \<Rightarrow> 's response_map \<Rightarrow>
    ('s system \<times> 's system) set" where
  "drain_measure env polls responses = measures
     [\<lambda>sys. card {k. \<not> final_response env polls responses (sys_clock sys) (sys_store sys) k},
      \<lambda>sys. card {k. \<not> final_poll env polls responses (sys_clock sys) (sys_store sys) k},
      \<lambda>sys. card (sys_polls sys) + card (sys_responses sys)]"

lemma finite_changed:
  assumes "finite (dom (polls s))" "finite (dom (polls s'))"
    "finite (dom (responses s))" "finite (dom (responses s'))"
  shows "finite (changed polls responses s s')"
proof (rule finite_subset)
  show "changed polls responses s s' \<subseteq> PollObject ` (ran (polls s) \<union> ran (polls s'))
      \<union> ResponseObject ` (ran (responses s) \<union> ran (responses s'))"
    by (auto simp: changed_def ran_def)
qed (use assms in \<open>simp add: finite_ran\<close>)

lemma finite_deliver:
  assumes "finite (dom (polls (sys_store sys)))" "finite (dom (polls s'))"
    "finite (dom (responses (sys_store sys)))" "finite (dom (responses s'))"
    and "finite (sys_polls sys)" "finite (sys_responses sys)"
  shows "finite (sys_polls (deliver env polls responses s' sys))"
    and "finite (sys_responses (deliver env polls responses s' sys))"
  using assms finite_changed[OF assms(1-4)] by (simp_all add: deliver_def Let_def)

lemma deliver_unchanged:
  assumes "polls s' = polls (sys_store sys)" and "responses s' = responses (sys_store sys)"
  shows "deliver env polls responses s' sys = sys\<lparr>sys_store := s'\<rparr>"
  using assms by (simp add: deliver_def changed_def)

context control_plane
begin

text \<open>A reconcile of a Poll keeps the other Polls and leaves its own final.\<close>

lemma poll_drains:
  assumes ok: "store_ok polls responses t s" and run: "PollReconcile (env t) k s = (res, s')"
  shows "responses s' = responses s" and "dom (polls s') = dom (polls s)"
    and "final_response env polls responses t s' x = final_response env polls responses t s x"
    and "x \<noteq> k \<Longrightarrow> final_poll env polls responses t s' x = final_poll env polls responses t s x"
    and "final_poll env polls responses t s' k"
proof -
  have "responses s' = responses s \<and> dom (polls s') = dom (polls s)
    \<and> final_response env polls responses t s' x = final_response env polls responses t s x
    \<and> (x \<noteq> k \<longrightarrow> final_poll env polls responses t s' x = final_poll env polls responses t s x)"
  proof (cases "polls s k")
    case None
    then show ?thesis using poll_missing[OF run] by simp
  next
    case (Some p)
    from poll_core[OF run Some] obtain st where
      w: "responses s' = responses s" "polls s' = (polls s)(k \<mapsto> p\<lparr>p_status := st\<rparr>)"
      by metis
    then have "dom (polls s') = dom (polls s)" using Some by auto
    moreover have "final_poll env polls responses t s' x = final_poll env polls responses t s x" if "x \<noteq> k"
      using w that by (intro final_poll_frame) simp_all
    ultimately show ?thesis using w final_response_status[OF Some w(2,1)] by blast
  qed
  then show "responses s' = responses s" "dom (polls s') = dom (polls s)"
    "final_response env polls responses t s' x = final_response env polls responses t s x"
    "x \<noteq> k \<Longrightarrow> final_poll env polls responses t s' x = final_poll env polls responses t s x"
    by simp_all
  show "final_poll env polls responses t s' k" by (rule final_poll_written[OF ok run])
qed

lemma response_drains:
  assumes ok: "store_ok polls responses t s" and run: "PollResponseReconcile (env t) k s = (res, s')"
  shows "dom (responses s') = dom (responses s)"
    and "x \<noteq> k \<Longrightarrow> final_response env polls responses t s' x = final_response env polls responses t s x"
proof -
  note same = response_step(3)[OF ok run] final_response_written(2)[OF ok run]
  show "final_response env polls responses t s' x = final_response env polls responses t s x" if "x \<noteq> k"
    using same that by (intro final_response_frame) simp_all
  show "dom (responses s') = dom (responses s)"
  proof (cases "\<exists>r. responses s k = Some r \<and> m_deletionTimestamp (r_meta r) = None")
    case False
    then have "\<And>r. responses s k = Some r \<Longrightarrow> m_deletionTimestamp (r_meta r) \<noteq> None" by simp
    from response_noop[OF run this] show ?thesis by simp
  next
    case True
    then obtain r where r: "responses s k = Some r" "m_deletionTimestamp (r_meta r) = None" by blast
    from response_core[OF ok r] run obtain r' where "responses s' = (responses s)(k \<mapsto> r')"
      by (metis prod.inject)
    then show ?thesis using r(1) by auto
  qed
qed

end

section \<open>The queues drain\<close>

lemma unfinal_without:
  assumes "\<And>x. x \<noteq> k \<Longrightarrow> P x = Q x" and "P k"
  shows "{x. \<not> P x} = {x. \<not> Q x} - {k}"
proof (intro set_eqI)
  show "x \<in> {x. \<not> P x} \<longleftrightarrow> x \<in> {x. \<not> Q x} - {k}" for x
    using assms by (cases "x = k") simp_all
qed

lemma card_without: "finite A \<Longrightarrow> k \<in> A \<Longrightarrow> card (A - {k}) < card A"
  by (rule psubset_card_mono) auto

context control_plane
begin

lemma poll_work_decreases:
  assumes ok: "drainable polls responses sys" and k: "k \<in> sys_polls sys"
    and run: "PollReconcile (env (sys_clock sys)) k (sys_store sys) = (res, s')"
    and sys0: "sys0 = sys\<lparr>sys_polls := sys_polls sys - {k}, sys_timers := timers\<rparr>"
  shows "drainable polls responses (deliver env polls responses s' sys0)
    \<and> (deliver env polls responses s' sys0, sys) \<in> drain_measure env polls responses"
proof -
  let ?s = "sys_store sys" and ?t = "sys_clock sys"
  note ok = ok[unfolded drainable_def]
  note step = poll_drains[OF conjunct1[OF ok] run]
  have "store_ok polls responses ?t s'" by (rule poll_step(2)[OF conjunct1[OF ok] run])
  then have drainable: "drainable polls responses (deliver env polls responses s' sys0)"
    using ok step(1,2) finite_deliver[of polls sys0 s' responses env] by (simp add: drainable_def sys0)
  have fin: "finite {x. \<not> final_poll env polls responses ?t ?s x}"
    using ok by (intro finite_subset[OF final_dom(2)]) simp
  have decrease: "(deliver env polls responses s' sys0, sys) \<in> drain_measure env polls responses"
  proof (cases "final_poll env polls responses ?t ?s k")
    case True
    have same: "polls s' = polls ?s" by (rule final_poll_noop[OF conjunct1[OF ok] run True])
    have "deliver env polls responses s' sys0 = sys0\<lparr>sys_store := s'\<rparr>"
      using same step(1) by (intro deliver_unchanged) (simp_all add: sys0)
    moreover have "final_poll env polls responses ?t s' x = final_poll env polls responses ?t ?s x" for x
      by (rule final_poll_frame) (simp_all add: same step(1))
    ultimately show ?thesis
      using card_without[OF _ k] ok step(3) by (simp add: drain_measure_def sys0)
  next
    case False
    have "{x. \<not> final_poll env polls responses ?t s' x} = {x. \<not> final_poll env polls responses ?t ?s x} - {k}"
      using step(5) by (intro unfinal_without) (simp_all add: step(4))
    then show ?thesis
      using card_without[OF fin, of k] False step(3) by (simp add: drain_measure_def sys0)
  qed
  from drainable decrease show ?thesis by blast
qed

lemma response_work_decreases:
  assumes ok: "drainable polls responses sys" and k: "k \<in> sys_responses sys"
    and run: "PollResponseReconcile (env (sys_clock sys)) k (sys_store sys) = (res, s')"
    and sys0: "sys0 = sys\<lparr>sys_responses := sys_responses sys - {k}\<rparr>"
  shows "drainable polls responses (deliver env polls responses s' sys0)
    \<and> (deliver env polls responses s' sys0, sys) \<in> drain_measure env polls responses"
proof -
  let ?s = "sys_store sys" and ?t = "sys_clock sys"
  note ok = ok[unfolded drainable_def]
  note step = response_drains[OF conjunct1[OF ok] run]
    and same = response_step(3)[OF conjunct1[OF ok] run]
    and final = final_response_written(1)[OF conjunct1[OF ok] run]
  have "store_ok polls responses ?t s'" by (rule response_step(2)[OF conjunct1[OF ok] run])
  then have drainable: "drainable polls responses (deliver env polls responses s' sys0)"
    using ok same step(1) finite_deliver[of polls sys0 s' responses env] by (simp add: drainable_def sys0)
  have fin: "finite {x. \<not> final_response env polls responses ?t ?s x}"
    using ok by (intro finite_subset[OF final_dom(1)]) simp
  have decrease: "(deliver env polls responses s' sys0, sys) \<in> drain_measure env polls responses"
  proof (cases "final_response env polls responses ?t ?s k")
    case True
    have kept: "responses s' = responses ?s" by (rule final_response_noop[OF conjunct1[OF ok] run True])
    have "deliver env polls responses s' sys0 = sys0\<lparr>sys_store := s'\<rparr>"
      using same kept by (intro deliver_unchanged) (simp_all add: sys0)
    moreover have "final_poll env polls responses ?t s' x = final_poll env polls responses ?t ?s x"
      "final_response env polls responses ?t s' x = final_response env polls responses ?t ?s x" for x
      by (rule final_poll_frame final_response_frame; simp add: same kept)+
    ultimately show ?thesis
      using card_without[OF _ k] ok by (simp add: drain_measure_def sys0)
  next
    case False
    have "{x. \<not> final_response env polls responses ?t s' x}
        = {x. \<not> final_response env polls responses ?t ?s x} - {k}"
      using final by (intro unfinal_without) (simp_all add: step(2))
    then show ?thesis
      using card_without[OF fin, of k] False by (simp add: drain_measure_def sys0)
  qed
  from drainable decrease show ?thesis by blast
qed

lemma work_decreases:
  assumes "worker_step env polls responses sys sys'" and "drainable polls responses sys"
  shows "drainable polls responses sys' \<and> (sys', sys) \<in> drain_measure env polls responses"
  using assms
proof (cases rule: worker_step.cases)
  case (poll k res s')
  note run = poll(3)[unfolded reconcilers]
  have "\<not> requeued res"
    using poll_step(1)[OF _ run] assms(2) by (simp add: drainable_def)
  then show ?thesis
    using poll_work_decreases[OF assms(2) poll(2) run refl] by (simp add: poll(1))
next
  case (response k res s')
  note run = response(3)[unfolded reconcilers]
  have "\<not> requeued res"
    using response_step(1)[OF _ run] assms(2) by (simp add: drainable_def)
  then show ?thesis
    using response_work_decreases[OF assms(2) response(2) run refl] by (simp add: response(1))
qed

text \<open>A request in a queue can always be worked on.\<close>

lemma work_progress:
  assumes "\<not> at_rest sys"
  shows "\<exists>sys'. worker_step env polls responses sys sys'"
proof -
  from assms consider k where "k \<in> sys_polls sys" | k where "k \<in> sys_responses sys"
    by (auto simp: at_rest_def)
  then show ?thesis
    by cases (metis worker_step.poll prod.collapse, metis worker_step.response prod.collapse)
qed

lemma workers_finish:
  assumes "drainable polls responses sys"
  shows "\<not> (\<exists>f. f 0 = sys \<and> (\<forall>i. worker_step env polls responses (f i) (f (Suc i))))"
    and "\<exists>sys'. (worker_step env polls responses)\<^sup>*\<^sup>* sys sys' \<and> at_rest sys'"
proof -
  have wf: "wf (drain_measure env polls responses)"
    unfolding drain_measure_def by (rule wf_measures)
  show "\<not> (\<exists>f. f 0 = sys \<and> (\<forall>i. worker_step env polls responses (f i) (f (Suc i))))"
  proof
    assume "\<exists>f. f 0 = sys \<and> (\<forall>i. worker_step env polls responses (f i) (f (Suc i)))"
    then obtain f where f: "f 0 = sys" "\<And>i. worker_step env polls responses (f i) (f (Suc i))" by blast
    have "drainable polls responses (f i)" for i
      by (induction i) (use f assms work_decreases in auto)
    then have "(f (Suc i), f i) \<in> drain_measure env polls responses" for i
      using work_decreases[OF f(2)] by blast
    then show False
      using wf wf_iff_no_infinite_down_chain by blast
  qed
  show "\<exists>sys'. (worker_step env polls responses)\<^sup>*\<^sup>* sys sys' \<and> at_rest sys'"
    using wf assms
  proof (induction sys rule: wf_induct_rule)
    case (less sys)
    show ?case
    proof (cases "at_rest sys")
      case False
      then obtain sys1 where step: "worker_step env polls responses sys sys1"
        using work_progress by blast
      then show ?thesis
        using less work_decreases[OF step] converse_rtranclp_into_rtranclp[of "worker_step env polls responses"] by blast
    qed blast
  qed
qed

text \<open>The workers only take steps of the system.\<close>

lemma worker_steps_control:
  "(worker_step env polls responses)\<^sup>*\<^sup>* sys sys' \<Longrightarrow> (control_step env polls responses)\<^sup>*\<^sup>* sys sys'"
  using rtranclp_mono[of "worker_step env polls responses" "control_step env polls responses"]
  by (blast intro: control_step.work)

lemma worker_steps_drainable:
  "(worker_step env polls responses)\<^sup>*\<^sup>* sys sys' \<Longrightarrow> drainable polls responses sys
    \<Longrightarrow> drainable polls responses sys'"
  by (induction rule: rtranclp_induct) (auto dest: work_decreases)

end

section \<open>What users wrote stays\<close>

text \<open>Everything but the status of a Poll, and everything but status and owners of a response.\<close>

definition poll_content :: "Poll \<Rightarrow> Poll" where
  "poll_content p = p\<lparr>p_status := fresh_status\<rparr>"

definition response_content :: "PollResponse \<Rightarrow> PollResponseSpec \<times> object_meta" where
  "response_content r = (r_spec r, (r_meta r)\<lparr>m_ownerReferences := []\<rparr>)"

definition keeps_content :: "'s poll_map \<Rightarrow> 's response_map \<Rightarrow> 's \<Rightarrow> 's \<Rightarrow> bool" where
  "keeps_content polls responses s s' \<longleftrightarrow>
     (\<forall>k. map_option poll_content (polls s' k) = map_option poll_content (polls s k))
   \<and> (\<forall>k. map_option response_content (responses s' k) = map_option response_content (responses s k))"

lemma poll_content_eq:
  "poll_content p' = poll_content p \<longleftrightarrow> (\<exists>st. p' = p\<lparr>p_status := st\<rparr>)"
proof
  assume "poll_content p' = poll_content p"
  then have "p' = p\<lparr>p_status := p_status p'\<rparr>" by (cases p; cases p') (simp add: poll_content_def)
  then show "\<exists>st. p' = p\<lparr>p_status := st\<rparr>" ..
qed (auto simp: poll_content_def)

lemma response_content_eq:
  assumes "response_content r' = response_content r"
  shows "r_spec r' = r_spec r" "m_deletionTimestamp (r_meta r') = m_deletionTimestamp (r_meta r)"
    "response_key r' = response_key r"
proof -
  have "r_spec r' = r_spec r" "(r_meta r')\<lparr>m_ownerReferences := []\<rparr> = (r_meta r)\<lparr>m_ownerReferences := []\<rparr>"
    using assms by (simp_all add: response_content_def)
  then show "r_spec r' = r_spec r" "m_deletionTimestamp (r_meta r') = m_deletionTimestamp (r_meta r)"
    "response_key r' = response_key r"
    by (cases "r_meta r"; cases "r_meta r'"; simp add: response_key_def)+
qed

context control_plane
begin

lemma worker_keeps_content:
  assumes "worker_step env polls responses sys sys'"
    and ok: "store_ok polls responses (sys_clock sys) (sys_store sys)"
  shows "keeps_content polls responses (sys_store sys) (sys_store sys') \<and> sys_clock sys' = sys_clock sys"
  using assms(1)
proof (cases rule: worker_step.cases)
  case (poll k res s')
  note run = poll(3)[unfolded reconcilers]
  have "keeps_content polls responses (sys_store sys) s'"
  proof (cases "polls (sys_store sys) k")
    case None
    then show ?thesis using poll_missing[OF run] by (simp add: keeps_content_def)
  next
    case (Some p)
    from poll_core[OF run Some] obtain st where
      "responses s' = responses (sys_store sys)" "polls s' = (polls (sys_store sys))(k \<mapsto> p\<lparr>p_status := st\<rparr>)"
      by metis
    then show ?thesis using Some by (simp add: keeps_content_def poll_content_def)
  qed
  then show ?thesis by (simp add: poll(1))
next
  case (response k res s')
  note run = response(3)[unfolded reconcilers]
  have "keeps_content polls responses (sys_store sys) s'"
  proof (cases "\<exists>r. responses (sys_store sys) k = Some r \<and> m_deletionTimestamp (r_meta r) = None")
    case False
    then have "\<And>r. responses (sys_store sys) k = Some r \<Longrightarrow> m_deletionTimestamp (r_meta r) \<noteq> None" by simp
    from response_noop[OF run this] show ?thesis by (simp add: keeps_content_def)
  next
    case True
    then obtain r where r: "responses (sys_store sys) k = Some r" "m_deletionTimestamp (r_meta r) = None" by blast
    from response_core[OF ok r] run obtain refs st where
      "responses s' = (responses (sys_store sys))(k \<mapsto>
         r\<lparr>r_meta := (r_meta r)\<lparr>m_ownerReferences := refs\<rparr>, r_status := st\<rparr>)"
      "polls s' = polls (sys_store sys)"
      by (metis prod.inject)
    then show ?thesis using r(1) by (simp add: keeps_content_def response_content_def)
  qed
  then show ?thesis by (simp add: response(1))
qed

lemma workers_keep_content:
  assumes "(worker_step env polls responses)\<^sup>*\<^sup>* sys sys'" and "loop_inv polls responses sys"
  shows "keeps_content polls responses (sys_store sys) (sys_store sys') \<and> sys_clock sys' = sys_clock sys
    \<and> loop_inv polls responses sys'"
  using assms
proof (induction rule: rtranclp_induct)
  case base
  then show ?case by (simp add: keeps_content_def)
next
  case (step sys1 sys2)
  then have inv: "loop_inv polls responses sys1" by blast
  then have "store_ok polls responses (sys_clock sys1) (sys_store sys1)" by (simp add: loop_inv_def Let_def)
  from worker_keeps_content[OF step.hyps(2) this] worker_step_inv[OF step.hyps(2) inv] step.IH[OF step.prems]
  show ?case by (simp add: keeps_content_def)
qed

end

section \<open>Convergence\<close>

lemma valid_for_spec:
  "r_spec r' = r_spec r \<Longrightarrow> valid_for pr p t r' = valid_for pr p t r"
  using validateResponse_spec_cong[of r' r] by (simp add: valid_for_def names_poll_def)

lemma valid_for_status [simp]: "valid_for pr (p\<lparr>p_status := st\<rparr>) t = valid_for pr p t"
  by (simp add: fun_eq_iff valid_for_def names_poll_def)

lemma valid_tally_permutes:
  assumes "mset rs' = mset (map f rs)" and same: "\<And>r. r \<in> set rs \<Longrightarrow> r_spec (f r) = r_spec r"
  shows "length (filter (valid_for pr p t) rs') = length (filter (valid_for pr p t) rs)"
    and "mset (validAnswers pr p t rs') = mset (validAnswers pr p t rs)"
proof -
  have mapped: "filter (valid_for pr p t) (map f rs) = map f (filter (valid_for pr p t) rs)
      \<and> validAnswers pr p t (map f rs) = validAnswers pr p t rs"
    using same
  proof (induction rs)
    case (Cons r rs)
    then show ?case
      using Cons.IH valid_for_spec[of "f r" r] by (simp add: validAnswers_def)
  qed (simp add: validAnswers_def)
  have perm: "mset (filter (valid_for pr p t) rs') = mset (filter (valid_for pr p t) (map f rs))"
    using assms(1) by simp
  then show "length (filter (valid_for pr p t) rs') = length (filter (valid_for pr p t) rs)"
    using mapped by (metis size_mset length_map)
  have "mset (validAnswers pr p t xs)
      = sum_mset (image_mset (\<lambda>r. mset (rs_answers (r_spec r))) (mset (filter (valid_for pr p t) xs)))" for xs
    by (induction xs) (auto simp: validAnswers_def)
  then show "mset (validAnswers pr p t rs') = mset (validAnswers pr p t rs)"
    using mapped perm by metis
qed

context control_plane
begin

lemma content_listing:
  assumes kept: "keeps_content polls responses s s'" and p: "polls s k = Some p"
    and list: "env_listResponses (env t) ns s = (Inr rs, s)"
    and list': "env_listResponses (env t) ns s' = (Inr rs', s')"
  obtains st f where "polls s' k = Some (p\<lparr>p_status := st\<rparr>)" "mset rs' = mset (map f rs)"
    "\<And>r. r \<in> set rs \<Longrightarrow> response_content (f r) = response_content r"
proof -
  note same = kept[unfolded keeps_content_def]
  have "map_option poll_content (polls s' k) = Some (poll_content p)" using same p by simp
  then obtain st where "polls s' k = Some (p\<lparr>p_status := st\<rparr>)"
    by (auto simp: poll_content_eq)
  moreover define f where "f = (\<lambda>r. the (responses s' (response_key r)))"
  have moved: "responses s' x = Some (f r) \<and> response_content (f r) = response_content r"
    if r: "responses s x = Some r" for x r
  proof -
    have "map_option response_content (responses s' x) = Some (response_content r)" using same r by simp
    then show ?thesis using keys(2)[OF r] by (auto simp: f_def)
  qed
  have "mset rs' = mset (map f rs)"
  proof (rule api_store.listing_after[OF store list list'])
    show "responses s' x = None" if "responses s x = None" for x
      using same that by (metis option.map_disc_iff)
    show "responses s' x = Some (f r) \<and> response_key (f r) = response_key r" if "responses s x = Some r" for x r
      using moved[OF that] response_content_eq(3) by blast
  qed
  moreover have "response_content (f r) = response_content r" if "r \<in> set rs" for r
    using moved listed[OF list] that by (auto simp: lists_def)
  ultimately show thesis by (rule that)
qed

lemma content_live:
  assumes "keeps_content polls responses s s'" and "polls s k = Some p"
    and "env_listResponses (env t) ns s = (Inr rs, s)" and "env_listResponses (env t) ns s' = (Inr rs', s')"
    and live: "\<And>r. r \<in> set rs \<Longrightarrow> names_poll p r \<Longrightarrow> m_deletionTimestamp (r_meta r) = None"
    and r': "r' \<in> set rs'" and names: "names_poll p r'"
  shows "m_deletionTimestamp (r_meta r') = None"
proof -
  from content_listing[OF assms(1-4)] obtain f where perm: "mset rs' = mset (map f rs)"
    and same: "\<And>r. r \<in> set rs \<Longrightarrow> response_content (f r) = response_content r"
    by metis
  obtain r where r: "r \<in> set rs" "r' = f r" using r' mset_eq_setD[OF perm] by auto
  then have "names_poll p r" using names response_content_eq(1)[OF same] by (simp add: names_poll_def)
  then show ?thesis using live r response_content_eq(2)[OF same] by simp
qed

text \<open>Wherever the workers stop, the results are those of the responses valid at the start.\<close>

lemma workers_converge:
  assumes run: "(worker_step env polls responses)\<^sup>*\<^sup>* sys0 sys" and rest: "at_rest sys"
    and inv: "loop_inv polls responses sys0" and start: "sys_store sys0 = s" "sys_clock sys0 = t"
    and p: "polls s k = Some p"
    and list: "env_listResponses (env t) (m_namespace (p_meta p)) s = (Inr rs, s)"
    and live: "\<And>r. r \<in> set rs \<Longrightarrow> names_poll p r \<Longrightarrow> m_deletionTimestamp (r_meta r) = None"
  shows "\<exists>st. polls (sys_store sys) k = Some (p\<lparr>p_status := st\<rparr>)
    \<and> st_phase st = (if pollClosed p t then PollPhaseClosed else PollPhaseOpen)
    \<and> st_totalResponses st = of_nat (length (filter (valid_for pr p t) rs))
    \<and> shows_results st (ps_questions (p_spec p)) (validAnswers pr p t rs)"
proof -
  note kept = workers_keep_content[OF run inv]
  have clock: "sys_clock sys = t" "keeps_content polls responses s (sys_store sys)"
    using kept by (simp_all add: start)
  obtain rs' where rs': "env_listResponses (env t) (m_namespace (p_meta p)) (sys_store sys) = (Inr rs', sys_store sys)"
    using listing by blast
  from content_listing[OF clock(2) p list rs'] obtain st f where
    st: "polls (sys_store sys) k = Some (p\<lparr>p_status := st\<rparr>)" (is "_ = Some ?p")
    and perm: "mset rs' = mset (map f rs)"
    and same: "\<And>r. r \<in> set rs \<Longrightarrow> response_content (f r) = response_content r"
    by metis
  note live' = content_live[OF clock(2) p list rs' live]
  have list': "env_listResponses (env (sys_clock sys)) (m_namespace (p_meta ?p)) (sys_store sys)
      = (Inr rs', sys_store sys)"
    using rs' clock(1) by simp
  have res: "st_phase st = (if pollClosed p t then PollPhaseClosed else PollPhaseOpen)
    \<and> st_totalResponses st = of_nat (length (filter (valid_for pr p t) rs'))
    \<and> shows_results st (ps_questions (p_spec p)) (validAnswers pr ?p t rs')"
    using rest_results[OF conjunct2[OF conjunct2[OF kept]] rest st list', of pr] live' clock(1)
    by (simp add: names_poll_def)
  have "validAnswers pr ?p t rs' = validAnswers pr p t rs'" by (simp add: validAnswers_def)
  with res st valid_tally_permutes(1)[OF perm, of pr p t] response_content_eq(1)[OF same]
    shows_results_mset[OF valid_tally_permutes(2)[OF perm, of pr p t]]
  show ?thesis by metis
qed

end

end
