(* ===== verification/Control_Faults.thy ===== *)
theory Control_Faults
  imports Control_Loop
begin

text \<open>
  The system of \<open>Control_Loop\<close> with an API server that fails: any call of a reconcile may
  return an error instead of its result, and a write may have happened although its reply is
  an error. A reconcile that meets a failure asks for its request to be put back, so the
  invariant survives: what is not queued is still settled. The reads of the watch handlers
  do not fail here; \<open>mapPollToResponses\<close> drops the event if its list does.
\<close>

section \<open>Failing calls\<close>

text \<open>Any error but NotFound, before or after the call has taken effect.\<close>

definition may_fail :: "('s \<Rightarrow> (go_error + 'a) \<times> 's) \<Rightarrow> ('s \<Rightarrow> (go_error + 'a) \<times> 's) \<Rightarrow> bool" where
  "may_fail call call' \<longleftrightarrow> (\<forall>s. call' s = call s
     \<or> (\<exists>e. \<not> IsNotFound e \<and> (call' s = (Inl e, s) \<or> call' s = (Inl e, snd (call s)))))"

definition faulty :: "'s kube_env \<Rightarrow> 's kube_env \<Rightarrow> bool" where
  "faulty env env' \<longleftrightarrow> env_isPrint env' = env_isPrint env \<and> env_now env' = env_now env
     \<and> env_setControllerReference env' = env_setControllerReference env
     \<and> env_setStatusCondition env' = env_setStatusCondition env
     \<and> (\<forall>k. may_fail (env_getPoll env k) (env_getPoll env' k))
     \<and> (\<forall>k. may_fail (env_getResponse env k) (env_getResponse env' k))
     \<and> (\<forall>ns. may_fail (env_listResponses env ns) (env_listResponses env' ns))
     \<and> (\<forall>p p'. may_fail (env_patchPollStatus env p p') (env_patchPollStatus env' p p'))
     \<and> (\<forall>r r'. may_fail (env_patchResponse env r r') (env_patchResponse env' r r'))
     \<and> (\<forall>r r'. may_fail (env_patchResponseStatus env r r') (env_patchResponseStatus env' r r'))"

lemma may_failE:
  assumes "may_fail call call'"
  obtains (same) "call' s = call s"
  | (lost) e where "\<not> IsNotFound e" "call' s = (Inl e, s)"
  | (unanswered) e where "\<not> IsNotFound e" "call' s = (Inl e, snd (call s))"
  using assms unfolding may_fail_def by blast

lemma faulty_refl: "faulty env env"
  by (simp add: faulty_def may_fail_def)

text \<open>
  The outcome of a step under failures: the same as without, or a request to be put back, with
  the objects as they were before or as the step without failure leaves them.
\<close>

definition same_objects :: "'s poll_map \<Rightarrow> 's response_map \<Rightarrow> 's \<Rightarrow> 's \<Rightarrow> bool" where
  "same_objects polls responses s s' \<longleftrightarrow> polls s' = polls s \<and> responses s' = responses s"

definition fails_safely :: "'s poll_map \<Rightarrow> 's response_map \<Rightarrow> 's \<Rightarrow>
    (wrapped_error + ctrl_result) \<times> 's \<Rightarrow> (wrapped_error + ctrl_result) \<times> 's \<Rightarrow> bool" where
  "fails_safely polls responses s out out' \<longleftrightarrow> out' = out \<or> requeued (fst out')
     \<and> (same_objects polls responses s (snd out') \<or> same_objects polls responses (snd out) (snd out'))"

lemma same_objects_refl [simp]: "same_objects polls responses s s"
  by (simp add: same_objects_def)

lemma same_objects_trans:
  "same_objects polls responses s s' \<Longrightarrow> same_objects polls responses s' s'' \<Longrightarrow> same_objects polls responses s s''"
  by (simp add: same_objects_def)

lemma fails_safely_refl [simp]: "fails_safely polls responses s out out"
  by (simp add: fails_safely_def)

lemma fails_safely_before:
  "same_objects polls responses s s1 \<Longrightarrow> fails_safely polls responses s1 out out'
    \<Longrightarrow> fails_safely polls responses s out out'"
  by (auto simp: fails_safely_def same_objects_def)

lemma requeued_simps [simp]: "requeued (Inl e)" "requeued (Inr requeue_now)"
  by (simp_all add: requeued_def requeue_now_def)

lemma persistResponseStatus_fault:
  assumes "faulty env env'"
  shows "fails_safely polls responses s (persistResponseStatus env r d s) (persistResponseStatus env' r d s)"
proof -
  have "may_fail (env_patchResponseStatus env r (r\<lparr>r_status := d\<rparr>)) (env_patchResponseStatus env' r (r\<lparr>r_status := d\<rparr>))"
    using assms by (simp add: faulty_def)
  then show ?thesis
    by (cases rule: may_failE[where s = s])
      (auto simp: fails_safely_def persistResponseStatus_def split: prod.split sum.split)
qed

lemma persistPollStatus_fault:
  assumes "faulty env env'"
  obtains "persistPollStatus env' p d s = persistPollStatus env p d s"
  | early s1 where "persistPollStatus env' p d s = (Inl early, s1)" "requeued early"
      "s1 = s \<or> s1 = snd (persistPollStatus env p d s)"
proof -
  let ?p = "p\<lparr>p_status := d\<rparr>"
  have "may_fail (env_patchPollStatus env p ?p) (env_patchPollStatus env' p ?p)"
    using assms by (simp add: faulty_def)
  then consider "persistPollStatus env' p d s = persistPollStatus env p d s"
    | e s1 where "\<not> statusEqual (p_status p) d" "env_patchPollStatus env' p ?p s = (Inl e, s1)"
        "s1 = s \<or> s1 = snd (env_patchPollStatus env p ?p s)"
    by (cases rule: may_failE[where s = s]; cases "statusEqual (p_status p) d") (auto simp: persistPollStatus_def)
  then show thesis
  proof cases
    case (2 e s1)
    have "snd (persistPollStatus env p d s) = snd (env_patchPollStatus env p ?p s)"
      using 2(1) by (simp add: persistPollStatus_def split: prod.split sum.split)
    with 2 show thesis
      by (intro that(2)[of "if IsConflict e then Inr requeue_now else Inl (Errorf ''patch Poll status'' e)" s1])
        (simp_all add: persistPollStatus_def)
  qed (rule that(1))
qed

lemma ensureOwnerReference_fault:
  assumes "faulty env env'"
  obtains "ensureOwnerReference env' r p s = ensureOwnerReference env r p s"
  | e s1 where "ensureOwnerReference env' r p s = (Inl e, s1)"
      "s1 = s \<or> s1 = snd (ensureOwnerReference env r p s)"
proof (cases "list_ex (\<lambda>ref. or_uid ref = m_uid (p_meta p)) (m_ownerReferences (r_meta r))
    \<or> (\<exists>err. env_setControllerReference env p r = Inl err)")
  case True
  then show thesis using that(1) assms by (auto simp: ensureOwnerReference_def faulty_def)
next
  case False
  then obtain r' where r': "env_setControllerReference env p r = Inr r'" by (metis sum.exhaust)
  then have ssr: "env_setControllerReference env' p r = Inr r'" using assms by (simp add: faulty_def)
  have "may_fail (env_patchResponse env r r') (env_patchResponse env' r r')"
    using assms by (simp add: faulty_def)
  then consider "env_patchResponse env' r r' s = env_patchResponse env r r' s"
    | e s1 where "env_patchResponse env' r r' s = (Inl e, s1)" "s1 = s \<or> s1 = snd (env_patchResponse env r r' s)"
    by (cases rule: may_failE[where s = s]) auto
  then show thesis
  proof cases
    case 1
    then show thesis using that(1) False r' ssr by (simp add: ensureOwnerReference_def)
  next
    case (2 e s1)
    have "snd (ensureOwnerReference env r p s) = snd (env_patchResponse env r r' s)"
      using False r' by (simp add: ensureOwnerReference_def split: prod.split sum.split)
    with 2 False ssr show thesis
      by (intro that(2)[of "Errorf ''patch owner reference'' e" s1]) (simp_all add: ensureOwnerReference_def)
  qed
qed

section \<open>Reconciles under failures\<close>

context control_plane
begin

lemma now_same_objects: "env_now (env t) s = (u, s') \<Longrightarrow> same_objects polls responses s s'"
  using api_store.now[OF store[of t]] by (simp add: same_objects_def)

lemma acceptResponse_fault:
  assumes "faulty (env t) e'"
  shows "fails_safely polls responses s (acceptResponse (env t) r g s) (acceptResponse e' r g s)"
proof -
  have lib: "env_now e' = env_now (env t)" "env_setStatusCondition e' = env_setStatusCondition (env t)"
    using assms by (simp_all add: faulty_def)
  obtain now s1 where n: "(case rst_acceptedAt (r_status r) of None \<Rightarrow> env_now (env t) s | Some u \<Rightarrow> (u, s)) = (now, s1)"
    by fastforce
  obtain t1 s2 where t1: "env_now (env t) s1 = (t1, s2)" by fastforce
  obtain t2 s3 where t2: "env_now (env t) s2 = (t2, s3)" by fastforce
  have "same_objects polls responses s s1" using n now_same_objects by (auto split: option.splits)
  then have same: "same_objects polls responses s s3"
    using now_same_objects[OF t1] now_same_objects[OF t2] same_objects_trans by metis
  show ?thesis
    unfolding acceptResponse_def lib n t1 t2 prod.case
    by (rule fails_safely_before[OF same persistResponseStatus_fault[OF assms]])
qed

lemma rejectResponse_fault:
  assumes "faulty (env t) e'"
  shows "fails_safely polls responses s (rejectResponse (env t) r g reason msg s) (rejectResponse e' r g reason msg s)"
proof -
  have lib: "env_now e' = env_now (env t)" "env_setStatusCondition e' = env_setStatusCondition (env t)"
    using assms by (simp_all add: faulty_def)
  obtain t1 s2 where t1: "env_now (env t) s = (t1, s2)" by fastforce
  obtain t2 s3 where t2: "env_now (env t) s2 = (t2, s3)" by fastforce
  have same: "same_objects polls responses s s3"
    using now_same_objects[OF t1] now_same_objects[OF t2] same_objects_trans by metis
  show ?thesis
    unfolding rejectResponse_def lib t1 t2 prod.case
    by (rule fails_safely_before[OF same persistResponseStatus_fault[OF assms]])
qed

lemma requeueAtClose_same_objects:
  "same_objects polls responses s (snd (requeueAtClose (env t) phase p s))"
  using now_same_objects[of t s]
  by (auto simp: requeueAtClose_def Let_def split: option.split prod.split)

lemma PollReconcile_fault:
  assumes "faulty (env t) e'"
  shows "fails_safely polls responses s (PollReconcile (env t) k s) (PollReconcile e' k s)"
proof -
  have lib: "env_now e' = env_now (env t)" "env_setStatusCondition e' = env_setStatusCondition (env t)"
    and calls: "may_fail (env_getPoll (env t) k) (env_getPoll e' k)"
      "\<And>ns. may_fail (env_listResponses (env t) ns) (env_listResponses e' ns)"
    using assms by (simp_all add: faulty_def)
  have requeue: "requeueAtClose e' = requeueAtClose (env t)"
    by (simp add: fun_eq_iff requeueAtClose_def lib cong: option.case_cong)
  have missing: ?thesis if "env_getPoll e' k s = (Inl e, s)" "\<not> IsNotFound e" for e
    using that by (simp add: PollReconcile_get_error fails_safely_def)
  show ?thesis
  proof (cases "polls s k")
    case None
    then obtain e where e: "env_getPoll (env t) k s = (Inl e, s)"
      using api_store.get_poll[OF store[of t], of k s] by auto
    from calls(1) show ?thesis
      by (cases rule: may_failE[where s = s]) (use e missing in \<open>auto simp: PollReconcile_get_error\<close>)
  next
    case (Some p)
    have get: "env_getPoll (env t) k s = (Inr p, s)" by (rule api_store.read_poll[OF store Some])
    obtain now s2 where n: "env_now (env t) s = (now, s2)" by fastforce
    obtain rs where l: "env_listResponses (env t) (m_namespace (p_meta p)) s2 = (Inr rs, s2)"
      using listing by blast
    obtain u s3 where n3: "env_now (env t) s2 = (u, s3)" by fastforce
    have same: "same_objects polls responses s s2" "same_objects polls responses s s3"
      using now_same_objects[OF n] now_same_objects[OF n3] same_objects_trans by metis+
    from calls(1) consider "env_getPoll e' k s = (Inr p, s)" | e where "\<not> IsNotFound e" "env_getPoll e' k s = (Inl e, s)"
      by (cases rule: may_failE[where s = s]) (auto simp: get)
    then show ?thesis
    proof cases
      case 1
      note n' = n[folded lib(1)] and n3' = n3[folded lib(1)]
      from calls(2)[of "m_namespace (p_meta p)"]
      consider "env_listResponses e' (m_namespace (p_meta p)) s2 = (Inr rs, s2)"
        | e where "env_listResponses e' (m_namespace (p_meta p)) s2 = (Inl e, s2)"
        by (cases rule: may_failE[where s = s2]) (auto simp: l)
      then show ?thesis
      proof cases
        case 2
        then show ?thesis using PollReconcile_list_error[OF 1 n' 2] same(1) by (simp add: fails_safely_def)
      next
        case listed: 1
        let ?d = "desiredPollStatus (env_setStatusCondition (env t)) p rs now u"
        note run = PollReconcile_reads[OF get n l n3] PollReconcile_reads[OF 1 n' listed n3', unfolded lib(2) requeue]
        have after: "same_objects polls responses (snd (persistPollStatus (env t) p ?d s3)) (snd (PollReconcile (env t) k s))"
          unfolding run(1) by (auto simp: requeueAtClose_same_objects split: prod.split sum.split)
        show ?thesis
        proof (cases rule: persistPollStatus_fault[OF assms, of p ?d s3])
          case 1
          then show ?thesis by (simp add: run)
        next
          case (2 early s1)
          have "PollReconcile e' k s = (early, s1)" by (simp add: run(2) 2(1))
          then show ?thesis
            using 2(2,3) same(2) after by (auto simp: fails_safely_def same_objects_def)
        qed
      qed
    next
      case (2 e)
      then show ?thesis using missing by blast
    qed
  qed
qed

end

lemma store_ok_same_objects:
  "same_objects polls responses s s' \<Longrightarrow> store_ok polls responses t s \<Longrightarrow> store_ok polls responses t s'"
  by (simp add: same_objects_def store_ok_def responses_stored_ok_def)

context control_plane
begin

text \<open>A new owner leaves the store in order.\<close>

lemma owner_store_ok:
  assumes ok: "store_ok polls responses t s" and r: "responses s k = Some r"
    and p: "polls s (pollKeyOf r) = Some p" and owned: "owned_by p refs" and same: "polls s' = polls s"
    and new: "responses s' = (responses s)(k \<mapsto> r\<lparr>r_meta := (r_meta r)\<lparr>m_ownerReferences := refs\<rparr>\<rparr>)"
  shows "store_ok polls responses t s'"
  using ok r p owned
  by (auto simp: store_ok_def responses_stored_ok_def same new pollKeyOf_def ownable_def owned_by_def)

lemma PollResponseReconcile_fault:
  assumes ok: "store_ok polls responses t s" and fault: "faulty (env t) e'"
    and run: "PollResponseReconcile e' k s = (res, s')"
  shows "PollResponseReconcile (env t) k s = (res, s') \<or> requeued res \<and> store_ok polls responses t s'"
proof -
  let ?e = "env t"
  have lib: "env_now e' = env_now ?e" "env_isPrint e' = env_isPrint ?e"
    and calls: "may_fail (env_getResponse ?e k) (env_getResponse e' k)"
      "\<And>k. may_fail (env_getPoll ?e k) (env_getPoll e' k)"
    using fault by (simp_all add: faulty_def)
  obtain res0 s0 where run0: "PollResponseReconcile ?e k s = (res0, s0)" by fastforce
  have ok0: "store_ok polls responses t s0" by (rule response_step(2)[OF ok run0])
  have safely: ?thesis if "fails_safely polls responses s1 (res0, s0) (res, s')" "store_ok polls responses t s1" for s1
    using that ok0 run0 store_ok_same_objects[of polls responses _ s']
    unfolding fails_safely_def fst_conv snd_conv prod.inject by blast
  have get_missing: ?thesis if "env_getResponse e' k s = (Inl e, s)" "\<not> IsNotFound e" for e
    using that run ok by (auto simp: PollResponseReconcile_get_error)
  show ?thesis
  proof (cases "responses s k")
    case None
    then obtain e where e: "env_getResponse ?e k s = (Inl e, s)"
      using api_store.get_response[OF store[of t], of k s] by auto
    from calls(1) show ?thesis
      by (cases rule: may_failE[where s = s]) (use e run get_missing in \<open>auto simp: PollResponseReconcile_get_error\<close>)
  next
    case (Some r)
    have get: "env_getResponse ?e k s = (Inr r, s)" by (rule api_store.read_response[OF store Some])
    from calls(1) consider "env_getResponse e' k s = (Inr r, s)"
      | e where "env_getResponse e' k s = (Inl e, s)" "\<not> IsNotFound e"
      by (cases rule: may_failE[where s = s]) (auto simp: get)
    then show ?thesis
    proof cases
      case get': 1
      show ?thesis
      proof (cases "m_deletionTimestamp (r_meta r) = None")
        case False
        then show ?thesis
          using run PollResponseReconcile_deleted[OF get] PollResponseReconcile_deleted[OF get'] by simp
      next
        case del: True
        note live = PollResponseReconcile_live[OF get' del] and live0 = PollResponseReconcile_live[OF get del]
        have poll_lost: ?thesis if "env_getPoll e' (pollKeyOf r) s = (Inl e, s)" "\<not> IsNotFound e" for e
          using that run ok by (auto simp: live)
        show ?thesis
        proof (cases "polls s (pollKeyOf r)")
          case None
          then obtain e where e: "env_getPoll ?e (pollKeyOf r) s = (Inl e, s)" "IsNotFound e"
            using api_store.get_poll[OF store[of t], of "pollKeyOf r" s] by auto
          from calls(2) consider "env_getPoll e' (pollKeyOf r) s = (Inl e, s)"
            | e2 where "env_getPoll e' (pollKeyOf r) s = (Inl e2, s)" "\<not> IsNotFound e2"
            by (cases rule: may_failE[where s = s]) (auto simp: e)
          then show ?thesis
          proof cases
            case 1
            show ?thesis
            proof (rule safely[OF _ ok])
              show "fails_safely polls responses s (res0, s0) (res, s')"
                unfolding run[symmetric] run0[symmetric] PollResponseReconcile_poll_missing[OF get' del 1 e(2)]
                  PollResponseReconcile_poll_missing[OF get del e] lib
                by (rule rejectResponse_fault[OF fault])
            qed
          next
            case (2 e2)
            then show ?thesis by (rule poll_lost)
          qed
        next
          case (Some p)
          have getp: "env_getPoll ?e (pollKeyOf r) s = (Inr p, s)" by (rule api_store.read_poll[OF store Some])
          from calls(2) consider "env_getPoll e' (pollKeyOf r) s = (Inr p, s)"
            | e2 where "env_getPoll e' (pollKeyOf r) s = (Inl e2, s)" "\<not> IsNotFound e2"
            by (cases rule: may_failE[where s = s]) (auto simp: getp)
          then show ?thesis
          proof cases
            case getp': 1
            have stored: "responses s (response_key r) = Some r"
              using \<open>responses s k = Some r\<close> keys(2)[OF \<open>responses s k = Some r\<close>] by simp
            have "ownable p r" using live_of_stored[OF ok \<open>responses s k = Some r\<close> Some del] by (simp add: live_def)
            from api_store.own_core[OF store[of t] stored this] obtain refs s1 where
              own: "ensureOwnerReference ?e r p s = (Inr (r\<lparr>r_meta := (r_meta r)\<lparr>m_ownerReferences := refs\<rparr>\<rparr>), s1)"
              and s1: "responses s1 = (responses s)(k \<mapsto> r\<lparr>r_meta := (r_meta r)\<lparr>m_ownerReferences := refs\<rparr>\<rparr>)"
                "polls s1 = polls s" "owned_by p refs"
              unfolding owned_by_def keys(2)[OF \<open>responses s k = Some r\<close>] by metis
            have ok1: "store_ok polls responses t s1"
              by (rule owner_store_ok[OF ok \<open>responses s k = Some r\<close> Some s1(3,2,1)])
            show ?thesis
            proof (cases rule: ensureOwnerReference_fault[OF fault, of r p s])
              case 1
              note own' = 1[unfolded own]
              obtain now s2 where n: "env_now ?e s1 = (now, s2)" by fastforce
              note steps = PollResponseReconcile_verdict[OF get' del getp' own' n[folded lib(1)], unfolded lib]
                PollResponseReconcile_verdict[OF get del getp own n]
              show ?thesis
              proof (rule safely)
                show "fails_safely polls responses s2 (res0, s0) (res, s')"
                  unfolding run[symmetric] run0[symmetric] steps
                  by (simp add: acceptResponse_fault[OF fault] rejectResponse_fault[OF fault] split: option.split)
                show "store_ok polls responses t s2"
                  by (rule store_ok_same_objects[OF now_same_objects[OF n] ok1])
              qed
            next
              case (2 e s2)
              have "res = Inl e" "s' = s2" using run by (simp_all add: live getp' 2(1))
              moreover have "store_ok polls responses t s2" using 2(2) ok ok1 own by auto
              ultimately show ?thesis by simp
            qed
          next
            case (2 e2)
            then show ?thesis by (rule poll_lost)
          qed
        qed
      qed
    next
      case (2 e)
      then show ?thesis by (rule get_missing)
    qed
  qed
qed

lemma PollReconcile_fault_ok:
  assumes ok: "store_ok polls responses t s" and fault: "faulty (env t) e'" and run: "PollReconcile e' k s = (res, s')"
  shows "PollReconcile (env t) k s = (res, s') \<or> requeued res \<and> store_ok polls responses t s'"
proof -
  obtain res0 s0 where run0: "PollReconcile (env t) k s = (res0, s0)" by fastforce
  have "store_ok polls responses t s0" by (rule poll_step(2)[OF ok run0])
  then show ?thesis
    using PollReconcile_fault[OF fault, of s k] ok store_ok_same_objects[of polls responses _ s']
    unfolding run run0 fails_safely_def fst_conv snd_conv prod.inject by blast
qed

end

section \<open>The system under failures\<close>

inductive rough_step :: "(gotime \<Rightarrow> 's kube_env) \<Rightarrow> 's poll_map \<Rightarrow> 's response_map \<Rightarrow>
    's system \<Rightarrow> 's system \<Rightarrow> bool"
  for env polls responses where
  calm: "control_step env polls responses sys sys' \<Longrightarrow> rough_step env polls responses sys sys'"
| poll_fault: "k \<in> sys_polls sys \<Longrightarrow> faulty (env (sys_clock sys)) e' \<Longrightarrow>
    ctl_reconciler (Poll_SetupWithManager e') k (sys_store sys) = (res, s') \<Longrightarrow>
    rough_step env polls responses sys
      (deliver env polls responses s'
        (sys\<lparr>sys_polls := (if requeued res then sys_polls sys else sys_polls sys - {k}),
             sys_timers := sys_timers sys \<union> timer_of k (sys_clock sys) res\<rparr>))"
| response_fault: "k \<in> sys_responses sys \<Longrightarrow> faulty (env (sys_clock sys)) e' \<Longrightarrow>
    ctl_reconciler (PollResponse_SetupWithManager e') k (sys_store sys) = (res, s') \<Longrightarrow>
    rough_step env polls responses sys
      (deliver env polls responses s'
        (sys\<lparr>sys_responses := (if requeued res then sys_responses sys else sys_responses sys - {k})\<rparr>))"

context control_plane
begin

lemma rough_step_inv:
  assumes "rough_step env polls responses sys sys'" and inv: "loop_inv polls responses sys"
  shows "loop_inv polls responses sys'"
  using assms(1)
proof (cases rule: rough_step.cases)
  case calm
  then show ?thesis using control_step_inv inv by blast
next
  case (poll_fault k e' res s')
  note run = poll_fault(4)[unfolded reconcilers]
  have ok: "store_ok polls responses (sys_clock sys) (sys_store sys)" using inv by (simp add: loop_inv_def Let_def)
  from PollReconcile_fault_ok[OF ok poll_fault(3) run] show ?thesis
  proof
    assume "PollReconcile (env (sys_clock sys)) k (sys_store sys) = (res, s')"
    then have "worker_step env polls responses sys sys'"
      unfolding poll_fault(1) using poll_fault(2) by (intro worker_step.poll) simp_all
    then show ?thesis using worker_step_inv inv by blast
  next
    assume "requeued res \<and> store_ok polls responses (sys_clock sys) s'"
    then show ?thesis unfolding poll_fault(1) by (intro deliver_inv[OF inv]) auto
  qed
next
  case (response_fault k e' res s')
  note run = response_fault(4)[unfolded reconcilers]
  have ok: "store_ok polls responses (sys_clock sys) (sys_store sys)" using inv by (simp add: loop_inv_def Let_def)
  from PollResponseReconcile_fault[OF ok response_fault(3) run] show ?thesis
  proof
    assume "PollResponseReconcile (env (sys_clock sys)) k (sys_store sys) = (res, s')"
    then have "worker_step env polls responses sys sys'"
      unfolding response_fault(1) using response_fault(2) by (intro worker_step.response) simp_all
    then show ?thesis using worker_step_inv inv by blast
  next
    assume "requeued res \<and> store_ok polls responses (sys_clock sys) s'"
    then show ?thesis unfolding response_fault(1) by (intro deliver_inv[OF inv]) auto
  qed
qed

lemma rough_reachable_inv:
  assumes "(rough_step env polls responses)\<^sup>*\<^sup>* (started polls responses t s) sys"
    and "store_ok polls responses t s"
  shows "loop_inv polls responses sys"
  using assms(1)
  by (induction rule: rtranclp_induct) (auto intro: loop_inv_started assms(2) rough_step_inv)

end

lemma calm_steps:
  "(control_step env polls responses)\<^sup>*\<^sup>* sys sys' \<Longrightarrow> (rough_step env polls responses)\<^sup>*\<^sup>* sys sys'"
  using rtranclp_mono[of "control_step env polls responses" "rough_step env polls responses"]
  by (blast intro: rough_step.calm)

text \<open>Why the watch handlers' reads must not fail: an event whose list fails enqueues nothing.\<close>

lemma failed_list_drops_event:
  "env_listResponses env (m_namespace (p_meta p)) s = (Inl e, s')
    \<Longrightarrow> requests (PollResponse_SetupWithManager env) (PollObject p) s = []"
  by (simp add: mapPollToResponses_def)

end
