(* ===== verification/Voting_Loop.thy ===== *)
theory Voting_Loop
  imports Voting Control_Drain Control_Faults
begin

text \<open>
  A vote in the running system: the handler of the UI is one of the other writers of
  \<open>Control_Loop\<close>, the response it creates wakes up both controllers, and when their queues have
  drained it is counted.
\<close>

section \<open>The contract\<close>

locale voting_plane = control_plane +
  assumes voting: "voting_store (env t) polls responses"

context voting_plane
begin

text \<open>A Poll that is left alone is an edit that is allowed.\<close>

lemma unedited:
  assumes "store_ok polls responses t s" and "polls s' = polls s"
  shows "poll_edit (polls s k) (polls s' k)"
  using assms by (cases "polls s k") (auto simp: store_ok_def poll_stored_ok_def poll_edit_def)

text \<open>The creation of a fresh response without owners is a step of the system.\<close>

lemma create_step:
  assumes ok: "store_ok polls responses (sys_clock sys) (sys_store sys)"
    and new: "responses s1 = (responses (sys_store sys))(response_key r \<mapsto> r)" "polls s1 = polls (sys_store sys)"
    and fresh: "m_ownerReferences (r_meta r) = []" "rst_conditions (r_status r) = []"
  shows "control_step env polls responses sys (deliver env polls responses s1 sys)"
proof (rule control_step.edit)
  show "\<forall>k. poll_edit (polls (sys_store sys) k) (polls s1 k)"
    using unedited[OF ok new(2)] by blast
  show "responses_stored_ok polls responses s1"
    using ok fresh by (auto simp: store_ok_def responses_stored_ok_def new ownable_def)
qed

lemma vote_converges:
  assumes inv: "loop_inv polls responses sys" and start: "sys_store sys = s" "sys_clock sys = t"
    and stored: "polls s (poll_key poll) = Some poll"
    and form: "admitted (Poll_ValidateCreate pr poll)" "schema_poll_spec (p_spec poll)"
      "list_all trimmedOptions (ps_questions (p_spec poll))"
      "list_all (\<lambda>q. formSends q (form_values form (''q.'' @ q_id q))) (ps_questions (p_spec poll))"
      "rq_postForm req = Inr form" "buildAnswers poll form = Inr answers"
      "length_within 0 253 (TrimSpace (PostFormValue form ''respondent''))"
      "length_within 1 253 (m_name (p_meta poll))" "\<not> pollClosed poll t"
    and list: "env_listResponses (env t) (m_namespace (p_meta poll)) s = (Inr rs, s)"
    and live: "\<And>r. r \<in> set rs \<Longrightarrow> names_poll poll r \<Longrightarrow> m_deletionTimestamp (r_meta r) = None"
    and vote: "handleVote (env t) (m_namespace (p_meta poll)) (m_name (p_meta poll)) req s = (effects, s1)"
    and run: "(worker_step env polls responses)\<^sup>*\<^sup>* (deliver env polls responses s1 sys) sys'"
    and rest: "at_rest sys'"
  shows "(\<exists>resp. effects = flashAndRedirect (m_namespace (p_meta poll)) (m_name (p_meta poll)) (thanksMessage resp))
    \<and> control_step env polls responses sys (deliver env polls responses s1 sys)
    \<and> (\<exists>st. polls (sys_store sys') (poll_key poll) = Some (poll\<lparr>p_status := st\<rparr>)
      \<and> st_phase st = PollPhaseOpen
      \<and> st_totalResponses st = of_nat (Suc (length (filter (valid_for pr' poll t) rs)))
      \<and> shows_results st (ps_questions (p_spec poll)) (answers @ validAnswers pr' poll t rs))"
proof -
  let ?ns = "m_namespace (p_meta poll)" and ?sys = "deliver env polls responses s1 sys"
  obtain r where r: "effects = flashAndRedirect ?ns (m_name (p_meta poll)) (thanksMessage (m_name (r_meta r)))"
    "responses s (response_key r) = None" "responses s1 = (responses s)(response_key r \<mapsto> r)" "polls s1 = polls s"
    and new: "rs_answers (r_spec r) = answers" "m_namespace (r_meta r) = ?ns"
      "m_deletionTimestamp (r_meta r) = None" "m_ownerReferences (r_meta r) = []" "rst_conditions (r_status r) = []"
      "\<And>pr. valid_for pr poll t r"
    by (rule voting_store.vote_stored[OF voting stored form vote]) metis
  have step: "control_step env polls responses sys ?sys"
    using inv r(3,4) new(4,5) by (intro create_step[of sys s1 r]) (simp_all add: start loop_inv_def Let_def)
  have inv1: "loop_inv polls responses ?sys" by (rule control_step_inv[OF step inv])
  obtain rs1 where rs1: "env_listResponses (env t) ?ns s1 = (Inr rs1, s1)"
    using listing by blast
  have mset: "mset rs1 = add_mset r (mset rs)"
    by (rule listing_after_create[OF store list rs1 r(2) new(2) r(3)])
  have live1: "m_deletionTimestamp (r_meta x) = None" if "x \<in> set rs1" "names_poll poll x" for x
  proof -
    have "set rs1 = insert r (set rs)" using arg_cong[OF mset, of set_mset] by simp
    then show ?thesis using that live new(3) by auto
  qed
  have "polls s1 (poll_key poll) = Some poll" using stored r(4) by simp
  from workers_converge[OF run rest inv1 _ _ this rs1 live1, of pr'] obtain st where
    "polls (sys_store sys') (poll_key poll) = Some (poll\<lparr>p_status := st\<rparr>)"
    "st_phase st = (if pollClosed poll t then PollPhaseClosed else PollPhaseOpen)"
    "st_totalResponses st = of_nat (length (filter (valid_for pr' poll t) rs1))"
    "shows_results st (ps_questions (p_spec poll)) (validAnswers pr' poll t rs1)"
    by (auto simp: start)
  then show ?thesis
    using r(1) step form(9) new(1) valid_answers_mset[OF mset new(6)[of pr']]
      shows_results_mset[OF valid_answers_mset(2)[OF mset new(6)[of pr']]]
    by auto
qed

end

end
