(* ===== verification/Access_Rules.thy ===== *)
theory Access_Rules
  imports Controller_Setup Ui_Views Memory_Store
begin

text \<open>
  The \<open>kubebuilder:rbac\<close> markers on the two reconcilers, which become the manager's role, and
  what the API server makes of them: a call that no rule allows is refused. \<open>guarded\<close> puts
  that refusal in front of every call of an environment.
\<close>

section \<open>Rules\<close>

record rbac_rule =
  rr_groups :: "string list"
  rr_resources :: "string list"
  rr_verbs :: "string list"

definition rule_for :: "string \<Rightarrow> string list \<Rightarrow> rbac_rule" where
  "rule_for resource verbs =
     \<lparr>rr_groups = [''polls.jef.app''], rr_resources = [resource], rr_verbs = verbs\<rparr>"

definition Poll_rbac :: "rbac_rule list" where
  "Poll_rbac =
     [rule_for ''polls'' [''get'', ''list'', ''watch'', ''create'', ''update'', ''patch'', ''delete''],
      rule_for ''polls/status'' [''get'', ''update'', ''patch''],
      rule_for ''polls/finalizers'' [''update''],
      rule_for ''pollresponses'' [''get'', ''list'', ''watch'']]"

definition PollResponse_rbac :: "rbac_rule list" where
  "PollResponse_rbac =
     [rule_for ''pollresponses'' [''get'', ''list'', ''watch'', ''create'', ''update'', ''patch'', ''delete''],
      rule_for ''pollresponses/status'' [''get'', ''update'', ''patch''],
      rule_for ''pollresponses/finalizers'' [''update''],
      rule_for ''polls'' [''get'', ''list'', ''watch'']]"

definition allows :: "rbac_rule list \<Rightarrow> string \<Rightarrow> string \<Rightarrow> bool" where
  "allows rules verb resource = list_ex (\<lambda>rule. list_ex ((=) ''polls.jef.app'') (rr_groups rule)
     \<and> list_ex ((=) resource) (rr_resources rule) \<and> list_ex ((=) verb) (rr_verbs rule)) rules"

text \<open>The role that is generated from all the markers, \<open>config/rbac/role.yaml\<close>.\<close>

definition manager_role :: "rbac_rule list" where
  "manager_role =
     [\<lparr>rr_groups = [''polls.jef.app''], rr_resources = [''pollresponses'', ''polls''],
       rr_verbs = [''create'', ''delete'', ''get'', ''list'', ''patch'', ''update'', ''watch'']\<rparr>,
      \<lparr>rr_groups = [''polls.jef.app''], rr_resources = [''pollresponses/finalizers'', ''polls/finalizers''],
       rr_verbs = [''update'']\<rparr>,
      \<lparr>rr_groups = [''polls.jef.app''], rr_resources = [''pollresponses/status'', ''polls/status''],
       rr_verbs = [''get'', ''patch'', ''update'']\<rparr>]"

lemma manager_role_allows: "allows manager_role verb resource = allows (Poll_rbac @ PollResponse_rbac) verb resource"
  unfolding allows_def manager_role_def Poll_rbac_def PollResponse_rbac_def rule_for_def by simp argo

lemma allows_append: "allows (xs @ ys) verb resource \<longleftrightarrow> allows xs verb resource \<or> allows ys verb resource"
  by (simp add: allows_def)

section \<open>Calls under the rules\<close>

definition forbidden :: go_error where
  "forbidden = ApiError (ReasonOther ''Forbidden'') ''forbidden''"

definition unless_forbidden :: "bool \<Rightarrow> ('s \<Rightarrow> (go_error + 'a) \<times> 's) \<Rightarrow> 's \<Rightarrow> (go_error + 'a) \<times> 's" where
  "unless_forbidden ok call s = (if ok then call s else (Inl forbidden, s))"

text \<open>The manager's client reads from caches that are filled by a list and kept by a watch.\<close>

definition readable :: "rbac_rule list \<Rightarrow> string \<Rightarrow> bool" where
  "readable rules resource \<longleftrightarrow>
     allows rules ''get'' resource \<and> allows rules ''list'' resource \<and> allows rules ''watch'' resource"

definition guarded :: "rbac_rule list \<Rightarrow> 's kube_env \<Rightarrow> 's kube_env" where
  "guarded rules env = env\<lparr>
     env_getPoll := \<lambda>k. unless_forbidden (readable rules ''polls'') (env_getPoll env k),
     env_listPolls := unless_forbidden (readable rules ''polls'') (env_listPolls env),
     env_patchPollStatus := \<lambda>p p'. unless_forbidden (allows rules ''patch'' ''polls/status'')
       (env_patchPollStatus env p p'),
     env_getResponse := \<lambda>k. unless_forbidden (readable rules ''pollresponses'') (env_getResponse env k),
     env_listResponses := \<lambda>ns. unless_forbidden (readable rules ''pollresponses'') (env_listResponses env ns),
     env_patchResponse := \<lambda>r r'. unless_forbidden (allows rules ''patch'' ''pollresponses'')
       (env_patchResponse env r r'),
     env_patchResponseStatus := \<lambda>r r'. unless_forbidden (allows rules ''patch'' ''pollresponses/status'')
       (env_patchResponseStatus env r r'),
     env_createResponse := \<lambda>r. unless_forbidden (allows rules ''create'' ''pollresponses'')
       (env_createResponse env r)\<rparr>"

lemma guarded_reads [simp]:
  "readable rules ''polls'' \<Longrightarrow> env_getPoll (guarded rules env) = env_getPoll env"
  "readable rules ''polls'' \<Longrightarrow> env_listPolls (guarded rules env) = env_listPolls env"
  "readable rules ''pollresponses'' \<Longrightarrow> env_getResponse (guarded rules env) = env_getResponse env"
  "readable rules ''pollresponses'' \<Longrightarrow> env_listResponses (guarded rules env) = env_listResponses env"
  by (simp_all add: guarded_def fun_eq_iff unless_forbidden_def)

lemma guarded_writes [simp]:
  "allows rules ''patch'' ''polls/status'' \<Longrightarrow> env_patchPollStatus (guarded rules env) = env_patchPollStatus env"
  "allows rules ''patch'' ''pollresponses'' \<Longrightarrow> env_patchResponse (guarded rules env) = env_patchResponse env"
  "allows rules ''patch'' ''pollresponses/status''
    \<Longrightarrow> env_patchResponseStatus (guarded rules env) = env_patchResponseStatus env"
  "allows rules ''create'' ''pollresponses'' \<Longrightarrow> env_createResponse (guarded rules env) = env_createResponse env"
  by (simp_all add: guarded_def fun_eq_iff unless_forbidden_def)

lemma guarded_library [simp]:
  "env_isPrint (guarded rules env) = env_isPrint env" "env_now (guarded rules env) = env_now env"
  "env_setControllerReference (guarded rules env) = env_setControllerReference env"
  "env_setStatusCondition (guarded rules env) = env_setStatusCondition env"
  by (simp_all add: guarded_def)

lemma Poll_rbac_allows [simp]:
  "readable Poll_rbac ''polls''" "readable Poll_rbac ''pollresponses''"
  "allows Poll_rbac ''patch'' ''polls/status''"
  by (simp_all add: readable_def allows_def Poll_rbac_def rule_for_def)

lemma PollResponse_rbac_allows [simp]:
  "readable PollResponse_rbac ''polls''" "readable PollResponse_rbac ''pollresponses''"
  "allows PollResponse_rbac ''patch'' ''pollresponses''"
  "allows PollResponse_rbac ''patch'' ''pollresponses/status''"
  "allows PollResponse_rbac ''create'' ''pollresponses''"
  by (simp_all add: readable_def allows_def PollResponse_rbac_def rule_for_def)

section \<open>Each controller needs its own markers only\<close>

lemmas poll_guard = guarded_library guarded_reads(1)[OF Poll_rbac_allows(1)]
  guarded_reads(4)[OF Poll_rbac_allows(2)] guarded_writes(1)[OF Poll_rbac_allows(3)]

lemmas response_guard = guarded_library guarded_reads(1)[OF PollResponse_rbac_allows(1)]
  guarded_reads(3,4)[OF PollResponse_rbac_allows(2)] guarded_writes(2)[OF PollResponse_rbac_allows(3)]
  guarded_writes(3)[OF PollResponse_rbac_allows(4)]

lemma PollReconcile_guarded: "PollReconcile (guarded Poll_rbac env) k s = PollReconcile env k s"
  unfolding PollReconcile_def persistPollStatus_def requeueAtClose_def poll_guard ..

lemma PollResponseReconcile_guarded:
  "PollResponseReconcile (guarded PollResponse_rbac env) k s = PollResponseReconcile env k s"
  unfolding PollResponseReconcile_def acceptResponse_def rejectResponse_def persistResponseStatus_def
    ensureOwnerReference_def response_guard ..

lemma maps_guarded:
  "requests (PollResponse_SetupWithManager (guarded PollResponse_rbac env)) obj s
     = requests (PollResponse_SetupWithManager env) obj s"
  "requests (Poll_SetupWithManager (guarded Poll_rbac env)) obj s = requests (Poll_SetupWithManager env) obj s"
  by (cases obj; simp add: mapPollToResponses_def)+

lemma routes_guarded:
  "routes (guarded (Poll_rbac @ PollResponse_rbac) env) r s = routes env r s"
proof -
  let ?rules = "Poll_rbac @ PollResponse_rbac"
  have rules: "readable ?rules ''polls''" "allows ?rules ''create'' ''pollresponses''"
    using Poll_rbac_allows(1) PollResponse_rbac_allows(5) unfolding readable_def allows_append by blast+
  show ?thesis
    unfolding routes_def handleListPolls_def handlePollDetail_def handleVote_def
      guarded_reads(1,2)[OF rules(1)] guarded_writes(4)[OF rules(2)] ..
qed

text \<open>What the two controllers watch can be listed and watched.\<close>

fun resource_of :: "object_kind \<Rightarrow> string" where
  "resource_of KindPoll = ''polls''"
| "resource_of KindPollResponse = ''pollresponses''"

lemma watched_readable:
  "kind = ctl_for (Poll_SetupWithManager env) \<or> kind \<in> fst ` set (ctl_watches (Poll_SetupWithManager env))
    \<Longrightarrow> readable Poll_rbac (resource_of kind)"
  "kind = ctl_for (PollResponse_SetupWithManager env)
      \<or> kind \<in> fst ` set (ctl_watches (PollResponse_SetupWithManager env))
    \<Longrightarrow> readable PollResponse_rbac (resource_of kind)"
  by (cases kind; simp add: Poll_SetupWithManager_def PollResponse_SetupWithManager_def)+

end
