(* ===== verification/Loop_Properties.thy ===== *)
theory Loop_Properties
  imports Control_Drain Control_Faults Registration Access_Rules Samples
begin

text \<open>
  The operator as a whole: what the two controllers, their watches and their queues
  guarantee together, whoever edits objects meanwhile. The contract \<open>control_plane\<close> is met
  by the store in memory, at which the properties are instantiated.
\<close>

section \<open>The store in memory\<close>

interpretation cluster: control_plane "memory_env pr" mem_poll mem_response for pr
  by (rule control_plane.intro)
    (simp_all add: memory.api_store_axioms documented.status_condition_setter_axioms)


lemma sample_control: "control_plane (memory_env (\<lambda>_. False)) mem_poll mem_response"
  by (rule cluster.control_plane_axioms)

lemma finite_lookup: "finite (dom (\<lambda>k. lookup key k xs))"
  by (rule finite_subset[of _ "key ` set xs"]) (auto dest: lookup_SomeD)

lemma sample_finite: "finite (dom (mem_poll s))" "finite (dom (mem_response s))"
  unfolding mem_poll_def[abs_def] mem_response_def[abs_def] by (rule finite_lookup)+

lemma sample_store_ok: "store_ok mem_poll mem_response (utc t) sampleStore"
proof -
  have polls: "p = samplePoll" if "mem_poll sampleStore k = Some p" for k p
    using that by (auto simp: mem_poll_def sampleStore_def split: if_splits)
  have responses: "r \<in> set sampleResponses" if "mem_response sampleStore k = Some r" for k r
    using that unfolding mem_response_def sampleStore_def by (auto dest: lookup_SomeD)
  have "poll_stored_ok samplePoll \<and> phase_reached samplePoll (utc t)"
    using sample_wf(1) by (simp add: poll_stored_ok_def phase_reached_def) (simp add: sample_defs)
  moreover have "distinct (map c_type (rst_conditions (r_status r))) \<and> ownable samplePoll r"
    if "r \<in> set sampleResponses" for r
    using that by (auto simp: sample_defs ownable_def)
  ultimately show ?thesis
    unfolding store_ok_def responses_stored_ok_def using polls responses by metis
qed


lemma sample_drainable: "drainable mem_poll mem_response (started mem_poll mem_response (utc t) sampleStore)"
  by (simp add: drainable_def sample_store_ok sample_finite) (simp add: started_def sample_store_ok sample_finite)



section \<open>Consistency at rest\<close>



section \<open>Closed Polls\<close>



section \<open>Convergence\<close>



section \<open>The work queues\<close>



section \<open>Whose fields are whose\<close>

text \<open>C12: in any run of the workers, whatever they read and write, a Poll keeps its metadata and
  its spec and a response its spec and its metadata except for owner references; no object
  is created or deleted.\<close>

theorem workers_write_only_status:
  assumes "control_plane env polls responses" and "store_ok polls responses t s"
    and "(worker_step env polls responses)\<^sup>*\<^sup>* (started polls responses t s) sys"
  shows "map_option poll_content (polls (sys_store sys) k) = map_option poll_content (polls s k)
    \<and> map_option response_content (responses (sys_store sys) k) = map_option response_content (responses s k)"
  using control_plane.workers_keep_content[OF assms(1,3) loop_inv_started[OF assms(2)]]
  by (simp add: keeps_content_def started_def)

theorem workers_write_only_status_witness:
  "\<exists>sys. at_rest sys
     \<and> map_option poll_content (mem_poll (sys_store sys) (poll_key samplePoll)) = Some (poll_content samplePoll)"
proof -
  from cluster.workers_finish(2)[OF sample_drainable] obtain sys where
    run: "(worker_step (memory_env (\<lambda>_. False)) mem_poll mem_response)\<^sup>*\<^sup>*
      (started mem_poll mem_response (utc 0) sampleStore) sys" and rest: "at_rest sys"
    by blast
  with workers_write_only_status[OF sample_control sample_store_ok run, of "poll_key samplePoll"] sample_reads(1)
  show ?thesis by (intro exI[of _ sys]) simp
qed

section \<open>Admission and the control loop\<close>

lemma admitted_poll_wf:
  assumes "admitted (Poll_ValidateCreate pr poll)" and "stored_poll poll"
  shows "wf_questions (ps_questions (p_spec poll))"
proof -
  have "list_all wf_question (ps_questions (p_spec poll))"
    using assms(1) by (simp add: poll_validator.create_admits validatePollSpec_Nil_iff)
  then show ?thesis
    using assms(2) wf_question_options by (auto simp: wf_questions_def stored_poll_def list_all_iff)
qed

text \<open>C13: a create or update of a Poll that the configured webhook lets through is one that the
  control loop expects of other writers, given what the API server itself ensures: unique
  question ids, a name, no status from outside, and a new generation for a new spec.\<close>

theorem reviewed_writes_are_expected:
  assumes "documented_paths validatePath" and "stored_poll p" and "m_name (p_meta p) \<noteq> ''''"
    and "review Poll_webhook_marker (SetupPollWebhookWithManager validatePath pr) req"
    and "req = AdmitCreate p \<and> old = None \<and> p_status p = fresh_status
      \<or> req = AdmitUpdate q p \<and> old = Some q \<and> p_status p = p_status q
        \<and> (p_spec p = p_spec q \<and> m_generation (p_meta p) = m_generation (p_meta q)
           \<or> sint (m_generation (p_meta q)) < sint (m_generation (p_meta p)))"
  shows "poll_edit old (Some p)"
proof -
  have "admitted (Poll_ValidateCreate pr p)"
    using assms(4,5) review_Poll(1,2)[OF assms(1)] poll_validator.update_admits_create by metis
  then have "wf_questions (ps_questions (p_spec p))" using assms(2) by (rule admitted_poll_wf)
  then show ?thesis using assms(3,5) by (auto simp: poll_edit_def)
qed

theorem reviewed_writes_are_expected_witness:
  "poll_edit None (Some samplePoll)"
proof -
  have paths: "documented_paths documented_validatePath" by (simp add: documented_paths_def)
  have name: "m_name (p_meta samplePoll) \<noteq> ''''" and fresh: "p_status samplePoll = fresh_status"
    by (simp_all add: samplePoll_def sampleMeta_def)
  have "review Poll_webhook_marker (SetupPollWebhookWithManager documented_validatePath (\<lambda>_. False))
      (AdmitCreate samplePoll)"
    using sample_admitted by (simp add: review_Poll(1)[OF paths])
  from reviewed_writes_are_expected[OF paths sample_wf(4) name this] fresh show ?thesis by blast
qed

section \<open>Permissions\<close>

text \<open>C34: no call is forbidden: with the rules of its own markers and the refusal of every other
  request, each reconciler behaves as without access control, watches included, and the web
  UI does under the rules of both.\<close>

theorem rbac_covers_every_call:
  "PollReconcile (guarded Poll_rbac env) k s = PollReconcile env k s
   \<and> PollResponseReconcile (guarded PollResponse_rbac env) k s = PollResponseReconcile env k s
   \<and> requests (Poll_SetupWithManager (guarded Poll_rbac env)) obj s = requests (Poll_SetupWithManager env) obj s
   \<and> requests (PollResponse_SetupWithManager (guarded PollResponse_rbac env)) obj s
       = requests (PollResponse_SetupWithManager env) obj s
   \<and> routes (guarded (Poll_rbac @ PollResponse_rbac) env) req s = routes env req s"
  by (simp add: PollReconcile_guarded PollResponseReconcile_guarded maps_guarded routes_guarded
      del: requests_simps)

text \<open>The scheme knows every kind that the controllers and webhooks are set up for, and its lists.\<close>

theorem main_registers_kinds:
  assumes "scheme_library lib known"
    and "k \<in> {''Poll'', ''PollList'', ''PollResponse'', ''PollResponseList''}"
  shows "known (main_init lib) SchemeGroupVersion k"
  by (rule scheme_library.registered[OF assms])

end
