(* ===== verification/Cached_Loop.thy ===== *)
theory Cached_Loop
  imports Control_Loop
begin

text \<open>
  Both controllers at work behind informer caches. A reconcile reads the caches and writes to
  the API server; what it wrote, and what anybody else writes, travels to the cache as a
  sequence of versions per object and is delivered to the controllers only when it arrives.
  Patches are merge patches without a resource version, so a patch computed from an old version
  lands on whatever the server holds. The invariant says that an object outside the queues is
  settled as far as its cache can tell, or has a version on the way.
\<close>

section \<open>Versions on the way\<close>

type_synonym 'v watch = "NamespacedName \<Rightarrow> 'v option list"

record 's cached_system =
  cs_sys :: "'s system"
  cs_polls :: "Poll watch"
  cs_responses :: "PollResponse watch"

text \<open>A change of an object on the server is sent to the watchers.\<close>

definition notify :: "('s \<Rightarrow> NamespacedName \<Rightarrow> 'v option) \<Rightarrow> 's \<Rightarrow> 's \<Rightarrow> 'v watch \<Rightarrow> 'v watch" where
  "notify server s s' w = (\<lambda>k. w k @ (if server s' k \<noteq> server s k then [server s' k] else []))"

text \<open>
  A watch is coherent when the cached version and those on the way end in the server's, no two
  in a row being the same.
\<close>

definition coherent :: "'v option \<Rightarrow> 'v option list \<Rightarrow> 'v option \<Rightarrow> bool" where
  "coherent cached w server \<longleftrightarrow> last (cached # w) = server \<and> distinct_adj (cached # w)"

lemma coherent_Nil [simp]: "coherent cached [] server \<longleftrightarrow> cached = server"
  by (simp add: coherent_def)

lemma coherent_notify:
  assumes "coherent (cache k) (w k) (server s k)"
  shows "coherent (cache k) (notify server s s' w k) (server s' k)"
proof (cases "server s' k = server s k")
  case True
  then show ?thesis using assms by (simp add: notify_def)
next
  case False
  have "distinct_adj ((cache k # w k) @ [server s' k])"
    using assms False by (subst distinct_adj_append_iff) (simp add: coherent_def)
  then show ?thesis using False by (simp add: notify_def coherent_def)
qed

lemma coherent_catch_up:
  "coherent cached (v # w) server \<Longrightarrow> coherent v w server \<and> v \<noteq> cached"
  by (auto simp: coherent_def)

section \<open>Versions of a Poll\<close>

text \<open>
  Within the versions that are in use at a time the generation never falls, and one generation
  has one spec.
\<close>

fun version_le :: "Poll option \<Rightarrow> Poll option \<Rightarrow> bool" where
  "version_le (Some p) (Some q) \<longleftrightarrow> sint (m_generation (p_meta p)) \<le> sint (m_generation (p_meta q))
     \<and> (m_generation (p_meta p) = m_generation (p_meta q) \<longrightarrow> p_spec p = p_spec q)"
| "version_le _ _ \<longleftrightarrow> True"

text \<open>
  A stored version: admitted questions, one condition per type, and a Ready condition that is
  not ahead of the generation and reports a closed Poll only when it is closed.
\<close>

definition version_ok :: "gotime \<Rightarrow> Poll \<Rightarrow> bool" where
  "version_ok t p \<longleftrightarrow> wf_questions (ps_questions (p_spec p)) \<and> m_name (p_meta p) \<noteq> ''''
     \<and> distinct (map c_type (st_conditions (p_status p)))
     \<and> (\<forall>c. find_condition pollReadyCondition (st_conditions (p_status p)) = Some c \<longrightarrow>
          sint (c_observedGeneration c) \<le> sint (m_generation (p_meta p))
          \<and> (c_observedGeneration c = m_generation (p_meta p) \<longrightarrow> c_status c = ConditionFalse \<longrightarrow>
               pollClosed p t))"

definition response_ok :: "PollResponse \<Rightarrow> bool" where
  "response_ok r \<longleftrightarrow> distinct (map c_type (rst_conditions (r_status r)))"

text \<open>A version whose Ready condition the next reconcile is bound to replace.\<close>

definition behind :: "Poll \<Rightarrow> gotime \<Rightarrow> bool" where
  "behind p t \<longleftrightarrow> (\<forall>c. find_condition pollReadyCondition (st_conditions (p_status p)) = Some c \<longrightarrow>
     c_observedGeneration c = m_generation (p_meta p) \<longrightarrow>
     c_status c \<noteq> (if pollClosed p t then ConditionFalse else ConditionTrue))"

lemma version_ok_mono: "version_ok t p \<Longrightarrow> unixNano t \<le> unixNano t' \<Longrightarrow> version_ok t' p"
  unfolding version_ok_def using pollClosed_mono by blast

lemma behind_after_closing:
  assumes "version_ok t p" and "\<not> pollClosed p t" and "pollClosed p t'"
  shows "behind p t'"
  using assms by (auto simp: behind_def version_ok_def)

lemma behind_mono:
  assumes "behind p t" and "version_ok t p" and "unixNano t \<le> unixNano t'"
  shows "behind p t'"
proof (cases "pollClosed p t = pollClosed p t'")
  case True
  then show ?thesis using assms(1) by (simp add: behind_def)
next
  case False
  then show ?thesis using behind_after_closing[OF assms(2)] pollClosed_mono[OF _ assms(3)] by blast
qed

section \<open>Merge patches\<close>

text \<open>
  What a status patch leaves on the server: the conditions are those of the patch or the ones
  that were there, since a list is replaced as a whole; and applied to the object it was
  computed from, a patch yields the status that was asked for, up to the rounding of times.
\<close>

definition merged_poll_status :: "PollStatus \<Rightarrow> PollStatus \<Rightarrow> PollStatus \<Rightarrow> PollStatus \<Rightarrow> bool" where
  "merged_poll_status base new cur st \<longleftrightarrow>
     (map cond_core (st_conditions st) = map cond_core (st_conditions new) \<or> st_conditions st = st_conditions cur)
   \<and> (base = cur \<longrightarrow> same_poll_status new st)"

definition merged_response_status ::
    "PollResponseStatus \<Rightarrow> PollResponseStatus \<Rightarrow> PollResponseStatus \<Rightarrow> PollResponseStatus \<Rightarrow> bool" where
  "merged_response_status base new cur st \<longleftrightarrow>
     (map cond_core (rst_conditions st) = map cond_core (rst_conditions new)
      \<or> rst_conditions st = rst_conditions cur)
   \<and> (base = cur \<longrightarrow> same_response_status new st)"

definition poll_patched :: "Poll \<Rightarrow> Poll \<Rightarrow> (NamespacedName \<rightharpoonup> Poll) \<Rightarrow> (NamespacedName \<rightharpoonup> Poll) \<Rightarrow> bool" where
  "poll_patched base new ps ps' \<longleftrightarrow> (\<exists>q st. ps (poll_key base) = Some q
     \<and> ps' = ps(poll_key base \<mapsto> q\<lparr>p_status := st\<rparr>)
     \<and> merged_poll_status (p_status base) (p_status new) (p_status q) st)"

definition status_patched :: "PollResponse \<Rightarrow> PollResponse \<Rightarrow> (NamespacedName \<rightharpoonup> PollResponse) \<Rightarrow>
    (NamespacedName \<rightharpoonup> PollResponse) \<Rightarrow> bool" where
  "status_patched base new rs rs' \<longleftrightarrow> (\<exists>q st. rs (response_key base) = Some q
     \<and> rs' = rs(response_key base \<mapsto> q\<lparr>r_status := st\<rparr>)
     \<and> merged_response_status (r_status base) (r_status new) (r_status q) st)"

text \<open>The owner patch replaces the list of owners.\<close>

definition owners_patched :: "PollResponse \<Rightarrow> PollResponse \<Rightarrow> (NamespacedName \<rightharpoonup> PollResponse) \<Rightarrow>
    (NamespacedName \<rightharpoonup> PollResponse) \<Rightarrow> bool" where
  "owners_patched base new rs rs' \<longleftrightarrow> (\<exists>q. rs (response_key base) = Some q
     \<and> rs' = rs(response_key base \<mapsto>
         q\<lparr>r_meta := (r_meta q)\<lparr>m_ownerReferences := m_ownerReferences (r_meta new)\<rparr>\<rparr>))"

text \<open>A patch that is refused changes nothing; one that fails may have been applied.\<close>

definition outcome :: "(go_error + 'v) \<Rightarrow> bool \<Rightarrow> bool \<Rightarrow> bool" where
  "outcome res same applied \<longleftrightarrow> (case res of Inl _ \<Rightarrow> same \<or> applied | Inr _ \<Rightarrow> applied)"

lemma outcome_simps [simp]:
  "outcome (Inl e) same applied \<longleftrightarrow> same \<or> applied"
  "outcome (Inr v) same applied \<longleftrightarrow> applied"
  by (simp_all add: outcome_def)

section \<open>The contract of caches and server\<close>

definition same_views :: "'s poll_map \<Rightarrow> 's response_map \<Rightarrow> 's poll_map \<Rightarrow> 's response_map \<Rightarrow> 's \<Rightarrow> 's \<Rightarrow> bool" where
  "same_views cp cr sp sr s s' \<longleftrightarrow> cp s' = cp s \<and> cr s' = cr s \<and> sp s' = sp s \<and> sr s' = sr s"

text \<open>
  \<open>cp\<close> and \<open>cr\<close> are what the caches hold, \<open>sp\<close> and \<open>sr\<close> what the server holds. Reads come from the
  caches and writes go to the server.
\<close>

locale cached_plane = object_views env cp cr
  for env :: "gotime \<Rightarrow> 's kube_env" and cp :: "'s poll_map" and cr :: "'s response_map" +
  fixes sp :: "'s poll_map" and sr :: "'s response_map"
  assumes cached_poll: "case cp s k of
        None \<Rightarrow> \<exists>e. env_getPoll (env t) k s = (Inl e, s) \<and> IsNotFound e
      | Some p \<Rightarrow> env_getPoll (env t) k s = (Inr p, s)"
    and cached_response: "case cr s k of
        None \<Rightarrow> \<exists>e. env_getResponse (env t) k s = (Inl e, s) \<and> IsNotFound e
      | Some r \<Rightarrow> env_getResponse (env t) k s = (Inr r, s)"
    and clock: "env_now (env t) s = (u, s') \<Longrightarrow> u = t \<and> same_views cp cr sp sr s s'"
    and conditions: "status_condition_setter (env_setStatusCondition (env t))"
    and patch_poll: "env_patchPollStatus (env t) p p' s = (res, s') \<Longrightarrow>
      cp s' = cp s \<and> cr s' = cr s \<and> sr s' = sr s
      \<and> outcome res (sp s' = sp s) (poll_patched p p' (sp s) (sp s'))"
    and patch_status: "env_patchResponseStatus (env t) r r' s = (rres, s') \<Longrightarrow>
      cp s' = cp s \<and> cr s' = cr s \<and> sp s' = sp s
      \<and> outcome rres (sr s' = sr s) (status_patched r r' (sr s) (sr s'))"
    and patch_owners: "env_patchResponse (env t) r r' s = (rres, s') \<Longrightarrow>
      m_ownerReferences (r_meta r) \<noteq> m_ownerReferences (r_meta r') \<Longrightarrow>
      cp s' = cp s \<and> cr s' = cr s \<and> sp s' = sp s
      \<and> outcome rres (sr s' = sr s) (owners_patched r r' (sr s) (sr s'))
      \<and> (\<forall>q. rres = Inr q \<longrightarrow> response_key q = response_key r \<and> sr s' (response_key r) = Some q)"
    and set_controller: "env_setControllerReference (env t) p r = Inr r' \<Longrightarrow>
      owned_by p (m_ownerReferences (r_meta r'))"
begin

lemma read_cached_poll: "cp s k = Some p \<Longrightarrow> env_getPoll (env t) k s = (Inr p, s)"
  using cached_poll[where s = s and k = k and t = t] by simp

lemma read_cached_response: "cr s k = Some r \<Longrightarrow> env_getResponse (env t) k s = (Inr r, s)"
  using cached_response[where s = s and k = k and t = t] by simp

lemma reads_clock: obtains s' where "env_now (env t) s = (t, s')" "same_views cp cr sp sr s s'"
  using clock by (metis surj_pair)

lemma reading_clock: "env_now (env t) s = (u, s') \<Longrightarrow> u = t"
  "env_now (env t) s = (u, s') \<Longrightarrow> same_views cp cr sp sr s s'"
  using clock by blast+

lemma requeueAtClose_views:
  assumes "requeueAtClose (env t) phase p s = (res, s')"
  shows "same_views cp cr sp sr s s'"
  using assms reading_clock(2)
  by (auto simp: requeueAtClose_def same_views_def Let_def split: if_splits option.splits prod.splits)

lemma fst_clock: "fst (env_now (env t) s) = t"
  using reads_clock[of t s] by (metis fst_conv)

section \<open>Reconciling a Poll from the cache\<close>

text \<open>A comparison that lets the patch be skipped.\<close>

lemma skipped_is_current:
  assumes ok: "version_ok t p"
    and eq: "statusEqual (p_status p) (desiredPollStatus (env_setStatusCondition (env t)) p rs t t)"
  shows "\<not> behind p t"
proof -
  let ?d = "desiredPollStatus (env_setStatusCondition (env t)) p rs t t"
  have types: "distinct (map c_type (st_conditions (p_status p)))" using ok by (simp add: version_ok_def)
  have dd: "distinct (map c_type (st_conditions ?d))"
    by (rule status_condition_setter.desired_conditions_distinct[OF conditions types])
  have "set (map cond_core (st_conditions (p_status p))) = set (map cond_core (st_conditions ?d))"
    using statusEqual_fields(6)[OF eq] conditionsEqual_iff_set[OF types dd] by blast
  from find_core_cong[OF types dd this]
  have "map_option cond_core (find_condition pollReadyCondition (st_conditions (p_status p)))
    = map_option cond_core (find_condition pollReadyCondition (st_conditions ?d))" .
  then obtain c where "find_condition pollReadyCondition (st_conditions (p_status p)) = Some c"
    "c_observedGeneration c = m_generation (p_meta p)"
    "c_status c = (if pollClosed p t then ConditionFalse else ConditionTrue)"
    using status_condition_setter.desired_ready[OF conditions, of t p rs t t]
    by (auto simp: cond_core_eq_iff)
  then show ?thesis by (auto simp: behind_def)
qed

text \<open>A patch of the version it was computed from changes it.\<close>

lemma patch_changes_poll:
  assumes ok: "version_ok t p"
    and ne: "\<not> statusEqual (p_status p) (desiredPollStatus (env_setStatusCondition (env t)) p rs t t)"
    and same: "same_poll_status (desiredPollStatus (env_setStatusCondition (env t)) p rs t t) st"
  shows "st \<noteq> p_status p"
proof
  assume st: "st = p_status p"
  have wf: "wf_questions (ps_questions (p_spec p))" "distinct (map c_type (st_conditions (p_status p)))"
    using ok by (simp_all add: version_ok_def)
  have "p\<lparr>p_status := st\<rparr> = p" by (simp add: st)
  with status_condition_setter.written_fixed_point[OF conditions wf refl same, where t' = t] ne st
  show False by simp
qed

text \<open>The versions that a patch from an old version can make.\<close>

lemma patched_version_ok:
  assumes p: "version_ok t p" and q: "version_ok t q" and le: "version_le (Some p) (Some q)"
    and st: "merged_poll_status base (desiredPollStatus (env_setStatusCondition (env t)) p rs t t) (p_status q) st"
  shows "version_ok t (q\<lparr>p_status := st\<rparr>)"
proof -
  let ?d = "desiredPollStatus (env_setStatusCondition (env t)) p rs t t"
  consider (patch) "map cond_core (st_conditions st) = map cond_core (st_conditions ?d)"
    | (kept) "st_conditions st = st_conditions (p_status q)"
    using st by (auto simp: merged_poll_status_def)
  then show ?thesis
  proof cases
    case kept
    then show ?thesis using q by (simp add: version_ok_def)
  next
    case patch
    have types: "distinct (map c_type (st_conditions (p_status p)))" using p by (simp add: version_ok_def)
    have "distinct (map c_type (st_conditions ?d))"
      by (rule status_condition_setter.desired_conditions_distinct[OF conditions types])
    moreover have "map c_type (st_conditions st) = map c_type (st_conditions ?d)"
      using map_cond_core_types[of "st_conditions st"] map_cond_core_types[of "st_conditions ?d"] patch by metis
    ultimately have "distinct (map c_type (st_conditions st))" by simp
    moreover have "map_option cond_core (find_condition pollReadyCondition (st_conditions st))
        = map_option cond_core (find_condition pollReadyCondition (st_conditions ?d))"
      using patch by (simp flip: find_condition_map_core)
    then obtain c where c: "find_condition pollReadyCondition (st_conditions st) = Some c"
      "c_observedGeneration c = m_generation (p_meta p)"
      "c_status c = (if pollClosed p t then ConditionFalse else ConditionTrue)"
      using status_condition_setter.desired_ready[OF conditions, of t p rs t t]
      by (auto simp: cond_core_eq_iff)
    moreover have "pollClosed q t" if "m_generation (p_meta p) = m_generation (p_meta q)" "pollClosed p t"
      using le that by (simp add: pollClosed_def)
    ultimately show ?thesis using q le by (auto simp: version_ok_def split: if_splits)
  qed
qed

end

section \<open>What a reconcile does to the server\<close>

text \<open>Nothing but a status patch, computed from the cached version, of the object reconciled.\<close>

definition poll_effect :: "(gotime \<Rightarrow> 's kube_env) \<Rightarrow> 's poll_map \<Rightarrow> 's response_map \<Rightarrow> 's poll_map \<Rightarrow>
    's response_map \<Rightarrow> gotime \<Rightarrow> NamespacedName \<Rightarrow> 's \<Rightarrow> 's \<Rightarrow> bool" where
  "poll_effect env cp cr sp sr t k s s' \<longleftrightarrow> cp s' = cp s \<and> cr s' = cr s \<and> sr s' = sr s
     \<and> (sp s' = sp s \<or> (\<exists>p rs q st. cp s k = Some p \<and> sp s k = Some q
          \<and> sp s' = (sp s)(k \<mapsto> q\<lparr>p_status := st\<rparr>)
          \<and> merged_poll_status (p_status p)
              (desiredPollStatus (env_setStatusCondition (env t)) p rs t t) (p_status q) st))"

text \<open>
  A Poll that may leave its queue: it is settled, the next reconcile has nothing to replace, and a
  timer is set before it closes.
\<close>

definition finished_poll :: "'s poll_map \<Rightarrow> 's response_map \<Rightarrow> gotime \<Rightarrow> (NamespacedName \<times> int) set \<Rightarrow> 's \<Rightarrow>
    NamespacedName \<Rightarrow> bool" where
  "finished_poll cp cr t timers s k \<longleftrightarrow> settled_poll cp cr t s k
     \<and> (\<forall>p. cp s k = Some p \<longrightarrow> \<not> behind p t
          \<and> (\<forall>c. ps_closesAt (p_spec p) = Some c \<longrightarrow> \<not> pollClosed p t
               \<longrightarrow> (\<exists>i \<le> unixNano c. (k, i) \<in> timers)))"

context cached_plane
begin

text \<open>A reconcile that finds the status up to date.\<close>

lemma poll_unchanged_effect:
  assumes res: "requeueAtClose (env t) (fst (computePhase p (p_status p) t)) p s3 = (res, s')"
    and views: "same_views cp cr sp sr s s3" and p: "cp s k = Some p" "version_ok t p"
    and rs: "lists cr s (m_namespace (p_meta p)) rs"
    and equal: "statusEqual (p_status p) (desiredPollStatus (env_setStatusCondition (env t)) p rs t t)"
  shows "same_views cp cr sp sr s s' \<and> finished_poll cp cr t (timer_of k t res) s' k"
proof -
  have same: "cp s' = cp s" "cr s' = cr s" "sp s' = sp s" "sr s' = sr s"
    using requeueAtClose_views[OF res] views by (simp_all add: same_views_def)
  have "publishes p t xs" if "lists cr s' (m_namespace (p_meta p)) xs" for xs
  proof -
    have "set xs = set rs" "distinct xs" "distinct rs"
      using that rs same(2) by (auto simp: lists_def distinct_map)
    then have perm: "mset rs = mset xs" using set_eq_iff_mset_eq_distinct by metis
    have "wf_questions (ps_questions (p_spec p))" using p(2) by (simp add: version_ok_def)
    from published_status[OF this perm, of "env_setStatusCondition (env t)" t t "p_status p"] equal
    show ?thesis by (simp add: publishes_def clock_phase_def)
  qed
  then have settled: "settled_poll cp cr t s' k" by (simp add: settled_poll_def same(1) p(1))
  have "\<exists>i \<le> unixNano c. (k, i) \<in> timer_of k t res"
    if c: "ps_closesAt (p_spec p) = Some c" and op: "\<not> pollClosed p t" for c
  proof -
    have before: "time_Before t c" using c op by (auto simp: pollClosed_def time_Before_def)
    obtain s4 where n4: "env_now (env t) s3 = (t, s4)" by (rule reads_clock)
    show ?thesis
      using res requeueAtClose_open[OF c n4 before] op
      by (auto simp: computePhase_phase timer_of_def requeue_after_def)
  qed
  then have "finished_poll cp cr t (timer_of k t res) s' k"
    using settled skipped_is_current[OF p(2) equal] p(1) by (simp add: finished_poll_def same(1))
  then show ?thesis using same by (simp add: same_views_def)
qed

text \<open>A patch that has been applied.\<close>

lemma poll_patched_effect:
  assumes p: "cp s k = Some p" "version_ok t p"
    and ne: "\<not> statusEqual (p_status p) (desiredPollStatus (env_setStatusCondition (env t)) p rs t t)"
    and same: "cp s' = cp s" "cr s' = cr s" "sr s' = sr s"
    and applied: "poll_patched p (p\<lparr>p_status := desiredPollStatus (env_setStatusCondition (env t)) p rs t t\<rparr>)
      (sp s) (sp s')"
  shows "poll_effect env cp cr sp sr t k s s' \<and> (cp s k = sp s k \<longrightarrow> sp s' k \<noteq> sp s k)"
proof -
  let ?d = "desiredPollStatus (env_setStatusCondition (env t)) p rs t t"
  obtain q st where q: "sp s k = Some q" "sp s' = (sp s)(k \<mapsto> q\<lparr>p_status := st\<rparr>)"
    "merged_poll_status (p_status p) ?d (p_status q) st"
    using applied by (auto simp: poll_patched_def keys(1)[OF p(1)])
  have "st \<noteq> p_status q" if "q = p"
    using patch_changes_poll[OF p(2) ne] q(3) that by (simp add: merged_poll_status_def)
  then have "q\<lparr>p_status := st\<rparr> \<noteq> q" if "q = p"
    using that by (metis Poll.select_convs(3) Poll.surjective Poll.update_convs(3))
  then show ?thesis using q p(1) same by (auto simp: poll_effect_def)
qed

lemma poll_reconcile_effect:
  assumes run: "PollReconcile (env t) k s = (res, s')"
    and ok: "\<forall>p. cp s k = Some p \<longrightarrow> version_ok t p"
  shows "poll_effect env cp cr sp sr t k s s'
    \<and> (\<not> requeued res \<longrightarrow> cp s k = sp s k \<longrightarrow> sp s' k = sp s k \<longrightarrow> finished_poll cp cr t (timer_of k t res) s' k)"
proof (cases "cp s k")
  case None
  then obtain e where "env_getPoll (env t) k s = (Inl e, s)" "IsNotFound e"
    using cached_poll[where s = s and k = k and t = t] by auto
  then have "res = Inr empty_result" "s' = s"
    using run by (simp_all add: PollReconcile_get_error)
  then show ?thesis using None by (simp add: poll_effect_def finished_poll_def settled_poll_def)
next
  case (Some p)
  have p_ok: "version_ok t p" using ok Some by blast
  obtain s2 where n2: "env_now (env t) s = (t, s2)" "same_views cp cr sp sr s s2" by (rule reads_clock)
  obtain rs where rs: "env_listResponses (env t) (m_namespace (p_meta p)) s2 = (Inr rs, s2)"
    "lists cr s2 (m_namespace (p_meta p)) rs"
    by (rule listing)
  obtain s3 where n3: "env_now (env t) s2 = (t, s3)" "same_views cp cr sp sr s2 s3" by (rule reads_clock)
  have views: "same_views cp cr sp sr s s3" and listed: "lists cr s (m_namespace (p_meta p)) rs"
    using n2(2) n3(2) rs(2) by (simp_all add: same_views_def lists_def)
  let ?d = "desiredPollStatus (env_setStatusCondition (env t)) p rs t t"
    and ?ph = "fst (computePhase p (p_status p) t)"
  note reads = read_cached_poll[OF Some] n2(1) rs(1) n3(1)
  show ?thesis
  proof (cases "statusEqual (p_status p) ?d")
    case True
    have "requeueAtClose (env t) ?ph p s3 = (res, s')"
      using PollReconcile_unchanged[OF reads True] run by simp
    from poll_unchanged_effect[OF this views Some p_ok listed True] show ?thesis
      by (simp add: poll_effect_def same_views_def)
  next
    case False
    obtain out s4 where w: "env_patchPollStatus (env t) p (p\<lparr>p_status := ?d\<rparr>) s3 = (out, s4)" by fastforce
    have eff: "cp s4 = cp s" "cr s4 = cr s" "sr s4 = sr s"
      "outcome out (sp s4 = sp s) (poll_patched p (p\<lparr>p_status := ?d\<rparr>) (sp s) (sp s4))"
      using patch_poll[OF w] views by (simp_all add: same_views_def)
    note patched = poll_patched_effect[OF Some p_ok False eff(1-3)]
    show ?thesis
    proof (cases out)
      case (Inl err)
      then have "requeued res" "s' = s4"
        using run PollReconcile_patched[OF reads refl False w]
        by (auto simp: requeued_def requeue_now_def split: if_splits)
      then show ?thesis using eff patched Inl by (auto simp: poll_effect_def)
    next
      case (Inr q)
      then have res: "requeueAtClose (env t) ?ph q s4 = (res, s')"
        using run PollReconcile_patched[OF reads refl False w] by simp
      show ?thesis
        using requeueAtClose_views[OF res] patched eff(4) Inr by (auto simp: poll_effect_def same_views_def)
    qed
  qed
qed

end

section \<open>Reconciling a response from the cache\<close>

text \<open>What the two verdicts share: an acceptance time is kept, and so are distinct types.\<close>

definition verdict_from :: "PollResponse \<Rightarrow> PollResponseStatus \<Rightarrow> bool" where
  "verdict_from r d \<longleftrightarrow>
     (rst_acceptedAt d = None \<or> rst_acceptedAt (r_status r) = None \<or> rst_acceptedAt d = rst_acceptedAt (r_status r))
   \<and> (response_ok r \<longrightarrow> distinct (map c_type (rst_conditions d)))"

definition status_effect :: "'s response_map \<Rightarrow> PollResponse \<Rightarrow> PollResponseStatus \<Rightarrow> 's \<Rightarrow> 's \<Rightarrow> bool" where
  "status_effect sr r d s s' \<longleftrightarrow> (\<exists>q st. sr s (response_key r) = Some q
     \<and> sr s' = (sr s)(response_key r \<mapsto> q\<lparr>r_status := st\<rparr>)
     \<and> merged_response_status (r_status r) d (r_status q) st)"

lemma status_effect_ok:
  assumes "status_effect sr r d s s'" and "verdict_from r d" and "response_ok r"
    and "\<And>q. sr s (response_key r) = Some q \<Longrightarrow> response_ok q" and "sr s' (response_key r) = Some x"
  shows "response_ok x"
proof -
  obtain q st where q: "sr s (response_key r) = Some q" "x = q\<lparr>r_status := st\<rparr>"
    and st: "map cond_core (rst_conditions st) = map cond_core (rst_conditions d)
      \<or> rst_conditions st = rst_conditions (r_status q)"
    using assms(1,5) by (auto simp: status_effect_def merged_response_status_def)
  from st show ?thesis
  proof
    assume "map cond_core (rst_conditions st) = map cond_core (rst_conditions d)"
    then have "map c_type (rst_conditions st) = map c_type (rst_conditions d)"
      using map_cond_core_types[of "rst_conditions st"] map_cond_core_types[of "rst_conditions d"] by metis
    then show ?thesis using assms(2,3) by (simp add: q response_ok_def verdict_from_def)
  next
    assume "rst_conditions st = rst_conditions (r_status q)"
    then show ?thesis using assms(4)[OF q(1)] by (simp add: q(2) response_ok_def)
  qed
qed

text \<open>A needed patch of the version it was computed from changes it.\<close>

lemma patch_changes_response:
  assumes "status_effect sr r d s s'" and "verdict_from r d" and "response_ok r"
    and "\<not> responseStatusEqual (r_status r) d" and "sr s (response_key r) = Some r"
  shows "sr s' (response_key r) \<noteq> Some r"
proof
  assume "sr s' (response_key r) = Some r"
  then obtain st where st: "r\<lparr>r_status := st\<rparr> = r" "same_response_status d st"
    using assms(1,5) by (auto simp: status_effect_def merged_response_status_def)
  have "st = r_status r" using arg_cong[OF st(1), of r_status] by simp
  then have same: "same_response_status d (r_status r)" using st(2) by simp
  have "conditionsEqualIgnoringTransition (rst_conditions (r_status r)) (rst_conditions d)"
    using same assms(3) by (intro conditionsEqual_same_core) (simp_all add: response_ok_def same_response_status_def)
  moreover have "timePtrEqual (rst_acceptedAt (r_status r)) (rst_acceptedAt d)"
    using same assms(2)
    by (cases "rst_acceptedAt d") (auto simp: same_response_status_def verdict_from_def timePtrEqual_iff)
  ultimately show False
    using assms(4) same by (simp add: responseStatusEqual_def same_response_status_def)
qed

definition judged_effect :: "'s poll_map \<Rightarrow> 's response_map \<Rightarrow> 's poll_map \<Rightarrow> 's response_map \<Rightarrow>
    PollResponse \<Rightarrow> PollResponseStatus \<Rightarrow> wrapped_error + ctrl_result \<Rightarrow> 's \<Rightarrow> 's \<Rightarrow> bool" where
  "judged_effect cp cr sp sr r d res s s' \<longleftrightarrow> cp s' = cp s \<and> cr s' = cr s \<and> sp s' = sp s
     \<and> (sr s' = sr s \<or> status_effect sr r d s s')
     \<and> (\<not> requeued res \<longrightarrow> (if responseStatusEqual (r_status r) d then sr s' = sr s
          else status_effect sr r d s s'))"

lemma judged_effect_views:
  assumes "judged_effect cp cr sp sr r d res s2 s'" and "same_views cp cr sp sr s s2"
  shows "judged_effect cp cr sp sr r d res s s'"
proof -
  have "status_effect sr r d s2 s' = status_effect sr r d s s'"
    using assms(2) by (simp add: status_effect_def same_views_def)
  then show ?thesis
    using assms unfolding judged_effect_def same_views_def by (simp split: if_splits)
qed

lemma same_views_trans:
  "same_views cp cr sp sr s s1 \<Longrightarrow> same_views cp cr sp sr s1 s2 \<Longrightarrow> same_views cp cr sp sr s s2"
  by (simp add: same_views_def)

text \<open>What a reconcile of a response does: it only writes that response, and well.\<close>

definition response_effect :: "'s poll_map \<Rightarrow> 's response_map \<Rightarrow> 's poll_map \<Rightarrow> 's response_map \<Rightarrow>
    NamespacedName \<Rightarrow> 's \<Rightarrow> 's \<Rightarrow> bool" where
  "response_effect cp cr sp sr k s s' \<longleftrightarrow> cp s' = cp s \<and> cr s' = cr s \<and> sp s' = sp s
     \<and> (\<forall>x. x \<noteq> k \<longrightarrow> sr s' x = sr s x) \<and> (\<forall>r. sr s' k = Some r \<longrightarrow> response_ok r)"

lemma judged_response_effect:
  assumes "judged_effect cp cr sp sr r d res s s'" and "verdict_from r d" and "response_ok r"
    and "response_key r = k" and "\<And>q. sr s k = Some q \<Longrightarrow> response_ok q"
  shows "response_effect cp cr sp sr k s s'"
proof -
  have "response_ok x" if "sr s' k = Some x" for x
  proof (cases "sr s' = sr s")
    case True
    then show ?thesis using assms(5) that by simp
  next
    case False
    then have "status_effect sr r d s s'" using assms(1) by (simp add: judged_effect_def)
    from status_effect_ok[OF this assms(2,3)] show ?thesis using assms(4,5) that by simp
  qed
  moreover have "sr s' x = sr s x" if "x \<noteq> k" for x
    using assms(1,4) that by (auto simp: judged_effect_def status_effect_def)
  ultimately show ?thesis using assms(1) by (simp add: response_effect_def judged_effect_def)
qed

context cached_plane
begin

lemma persist_effect:
  assumes "persistResponseStatus (env t) r d s = (res, s')"
  shows "judged_effect cp cr sp sr r d res s s'"
proof (cases "responseStatusEqual (r_status r) d")
  case True
  then show ?thesis
    using assms by (simp add: persistResponseStatus_unchanged judged_effect_def)
next
  case False
  obtain out s2 where w: "env_patchResponseStatus (env t) r (r\<lparr>r_status := d\<rparr>) s = (out, s2)" by fastforce
  note eff = patch_status[OF w]
  have applied: "status_patched r (r\<lparr>r_status := d\<rparr>) (sr s) (sr s2) \<Longrightarrow> status_effect sr r d s s2"
    by (auto simp: status_patched_def status_effect_def)
  show ?thesis
  proof (cases out)
    case (Inl err)
    then have "s' = s2" "requeued res"
      using assms False w by (auto simp: persistResponseStatus_def requeued_def requeue_now_def split: if_splits)
    then show ?thesis using eff applied Inl by (auto simp: judged_effect_def)
  next
    case (Inr q)
    then have "s' = s2" using assms False w by (simp add: persistResponseStatus_def)
    then show ?thesis using eff applied Inr False by (simp add: judged_effect_def)
  qed
qed

lemma verdict_from_status:
  shows "verdict_from r (acceptedStatus (env_setStatusCondition (env t)) r g now t1 t2)"
    and "verdict_from r (rejectedStatus (env_setStatusCondition (env t)) r g reason msg t1 t2)"
  using status_condition_setter.sets_distinct[OF conditions]
  by (auto simp: verdict_from_def verdict_fields response_ok_def split: option.split)

lemma accept_effect:
  assumes "acceptResponse (env t) r g s = (res, s')"
  shows "judged_effect cp cr sp sr r (acceptedStatus (env_setStatusCondition (env t)) r g t t t) res s s'"
proof -
  obtain now s1 where n: "(case rst_acceptedAt (r_status r) of None \<Rightarrow> env_now (env t) s | Some u \<Rightarrow> (u, s))
      = (now, s1)"
    by fastforce
  have s1: "same_views cp cr sp sr s s1" and now: "rst_acceptedAt (r_status r) = None \<Longrightarrow> now = t"
    using n reading_clock by (auto simp: same_views_def split: option.splits)
  obtain s2 where s2: "env_now (env t) s1 = (t, s2)" "same_views cp cr sp sr s1 s2" by (rule reads_clock)
  obtain s3 where s3: "env_now (env t) s2 = (t, s3)" "same_views cp cr sp sr s2 s3" by (rule reads_clock)
  have views: "same_views cp cr sp sr s s3"
    using same_views_trans[OF same_views_trans[OF s1 s2(2)] s3(2)] .
  have "acceptedStatus ssc r g now t t = acceptedStatus ssc r g t t t" for ssc
    using now accepted_at_irrelevant[of r ssc g now t t t] by (cases "rst_acceptedAt (r_status r)") auto
  then have "persistResponseStatus (env t) r (acceptedStatus (env_setStatusCondition (env t)) r g t t t) s3
      = (res, s')"
    using assms by (simp add: acceptResponse_def n s2(1) s3(1))
  from judged_effect_views[OF persist_effect[OF this] views] show ?thesis .
qed

lemma reject_effect:
  assumes "rejectResponse (env t) r g reason msg s = (res, s')"
  shows "judged_effect cp cr sp sr r (rejectedStatus (env_setStatusCondition (env t)) r g reason msg t t) res s s'"
proof -
  obtain s2 where s2: "env_now (env t) s = (t, s2)" "same_views cp cr sp sr s s2" by (rule reads_clock)
  obtain s3 where s3: "env_now (env t) s2 = (t, s3)" "same_views cp cr sp sr s2 s3" by (rule reads_clock)
  have "persistResponseStatus (env t) r (rejectedStatus (env_setStatusCondition (env t)) r g reason msg t t) s3
      = (res, s')"
    using assms by (simp add: rejectResponse_def s2(1) s3(1))
  from judged_effect_views[OF persist_effect[OF this] same_views_trans[OF s2(2) s3(2)]] show ?thesis .
qed

text \<open>The verdict on a response, whichever way it goes.\<close>

lemma judge_effect:
  assumes "(case v of Some verr \<Rightarrow> rejectResponse (env t) r g (ve_reason verr) (ve_message verr) s
      | None \<Rightarrow> acceptResponse (env t) r g s) = (res, s')"
  obtains d where "judged_effect cp cr sp sr r d res s s'" "verdict_from r d"
    "rst_phase d = (if v = None then PollResponsePhaseAccepted else PollResponsePhaseRejected)"
proof (cases v)
  case None
  then have "acceptResponse (env t) r g s = (res, s')" using assms by simp
  from accept_effect[OF this] show thesis
    by (rule that[OF _ verdict_from_status(1)]) (simp add: None verdict_fields)
next
  case (Some verr)
  then have "rejectResponse (env t) r g (ve_reason verr) (ve_message verr) s = (res, s')" using assms by simp
  from reject_effect[OF this] show thesis
    by (rule that[OF _ verdict_from_status(2)]) (simp add: Some verdict_fields)
qed

lemma judged_settles:
  assumes "judged_effect cp cr sp sr r d res s s'" and "verdict_from r d" and "response_ok r"
    and "\<not> requeued res" and "sr s (response_key r) = Some r" and "sr s' (response_key r) = Some r"
  shows "rst_phase (r_status r) = rst_phase d"
proof (rule ccontr)
  assume "\<not> ?thesis"
  then have ne: "\<not> responseStatusEqual (r_status r) d" using responseStatusEqual_fields(1) by blast
  then have "status_effect sr r d s s'" using assms(1,4) by (simp add: judged_effect_def)
  from patch_changes_response[OF this assms(2,3) ne assms(5)] assms(6) show False by simp
qed

lemma owner_step:
  assumes run: "ensureOwnerReference (env t) r p s = (out, s3)"
    and ok: "\<And>q. sr s (response_key r) = Some q \<Longrightarrow> response_ok q"
    and new: "\<not> owned_by p (m_ownerReferences (r_meta r))"
  shows "response_effect cp cr sp sr (response_key r) s s3"
    and "out = Inr q \<Longrightarrow> response_key q = response_key r \<and> sr s3 (response_key r) = Some q
      \<and> owned_by p (m_ownerReferences (r_meta q))"
proof -
  have step: "ensureOwnerReference (env t) r p s = (case env_setControllerReference (env t) p r of
       Inl err \<Rightarrow> (Inl (Errorf ''set controller reference'' err), s)
     | Inr r1 \<Rightarrow> (case env_patchResponse (env t) r r1 s of
          (Inl err, s') \<Rightarrow> (Inl (Errorf ''patch owner reference'' err), s')
        | (Inr q, s') \<Rightarrow> (Inr q, s')))"
    using new by (simp add: ensureOwnerReference_def owned_by_def)
  have "response_effect cp cr sp sr (response_key r) s s3
      \<and> (\<forall>q. out = Inr q \<longrightarrow> response_key q = response_key r \<and> sr s3 (response_key r) = Some q
           \<and> owned_by p (m_ownerReferences (r_meta q)))"
  proof (cases "env_setControllerReference (env t) p r")
    case (Inl err)
    then show ?thesis using run step ok by (auto simp: response_effect_def)
  next
    case (Inr r1)
    have owned: "owned_by p (m_ownerReferences (r_meta r1))" by (rule set_controller[OF Inr])
    then have differ: "m_ownerReferences (r_meta r) \<noteq> m_ownerReferences (r_meta r1)" using new by auto
    obtain res s' where w: "env_patchResponse (env t) r r1 s = (res, s')" by fastforce
    note eff = patch_owners[OF w differ]
    have applied: "response_effect cp cr sp sr (response_key r) s s'
        \<and> (\<forall>q. sr s' (response_key r) = Some q \<longrightarrow> m_ownerReferences (r_meta q) = m_ownerReferences (r_meta r1))"
      if ap: "owners_patched r r1 (sr s) (sr s')"
    proof -
      obtain q0 where q0: "sr s (response_key r) = Some q0" "sr s' = (sr s)(response_key r \<mapsto>
          q0\<lparr>r_meta := (r_meta q0)\<lparr>m_ownerReferences := m_ownerReferences (r_meta r1)\<rparr>\<rparr>)"
        using ap unfolding owners_patched_def by blast
      have "response_ok q0" by (rule ok[OF q0(1)])
      then show ?thesis using eff by (simp add: q0(2) response_effect_def response_ok_def)
    qed
    show ?thesis
    proof (cases res)
      case (Inl err)
      then have out: "out = Inl (Errorf ''patch owner reference'' err)" "s3 = s'"
        using run step w Inr by simp_all
      have "sr s' = sr s \<or> owners_patched r r1 (sr s) (sr s')" using eff Inl by simp
      then have "response_effect cp cr sp sr (response_key r) s s'"
        using applied eff ok by (auto simp: response_effect_def)
      then show ?thesis using out by simp
    next
      case (Inr q)
      then have out: "out = Inr q" "s3 = s'"
        using run step w \<open>env_setControllerReference (env t) p r = Inr r1\<close> by simp_all
      have "owners_patched r r1 (sr s) (sr s')" "response_key q = response_key r" "sr s' (response_key r) = Some q"
        using eff Inr by simp_all
      then show ?thesis using applied owned out by auto
    qed
  qed
  then show "response_effect cp cr sp sr (response_key r) s s3"
    and "out = Inr q \<Longrightarrow> response_key q = response_key r \<and> sr s3 (response_key r) = Some q
      \<and> owned_by p (m_ownerReferences (r_meta q))"
    by blast+
qed

text \<open>A verdict on the cached object, which is written or agrees with what is there.\<close>

lemma response_judged_effect:
  assumes eff: "judged_effect cp cr sp sr r d res s s'" "verdict_from r d"
    and phase: "rst_phase d = (if deserves cp t s r then PollResponsePhaseAccepted else PollResponsePhaseRejected)"
    and r: "cr s k = Some r" and ok: "\<forall>r. cr s k = Some r \<or> sr s k = Some r \<longrightarrow> response_ok r"
  shows "response_effect cp cr sp sr k s s'
    \<and> (\<not> requeued res \<longrightarrow> cr s k = sr s k \<longrightarrow> sr s' k = sr s k \<longrightarrow> settled_response cp cr t s' k)"
proof -
  have key: "response_key r = k" by (rule keys(2)[OF r])
  have okr: "response_ok r" and oks: "\<And>q. sr s k = Some q \<Longrightarrow> response_ok q" using ok r by blast+
  have kept: "response_effect cp cr sp sr k s s'"
    by (rule judged_response_effect[OF eff okr key oks])
  have "settled_response cp cr t s' k" if "\<not> requeued res" "cr s k = sr s k" "sr s' k = sr s k"
  proof -
    have "rst_phase (r_status r) = rst_phase d"
      using that r by (intro judged_settles[OF eff okr]) (simp_all add: key)
    then show ?thesis
      using kept r phase by (simp add: settled_response_def response_effect_def deserves_def)
  qed
  with kept show ?thesis by blast
qed

text \<open>A response that gets its owner first: something is written in any case.\<close>

lemma response_adopted_effect:
  assumes run: "PollResponseReconcile (env t) k s = (res, s')"
    and r: "cr s k = Some r" "m_deletionTimestamp (r_meta r) = None" and p: "cp s (pollKeyOf r) = Some p"
    and new: "\<not> owned_by p (m_ownerReferences (r_meta r))" and ok: "\<And>q. sr s k = Some q \<Longrightarrow> response_ok q"
  shows "response_effect cp cr sp sr k s s' \<and> (\<not> requeued res \<longrightarrow> sr s' k \<noteq> Some r)"
proof -
  have key: "response_key r = k" by (rule keys(2)[OF r(1)])
  note live = PollResponseReconcile_live[OF read_cached_response[OF r(1)] r(2),
      unfolded read_cached_poll[OF p] prod.case sum.case]
  obtain out s3 where own: "ensureOwnerReference (env t) r p s = (out, s3)" by fastforce
  have ok': "response_ok q" if "sr s (response_key r) = Some q" for q using ok that key by simp
  have step: "response_effect cp cr sp sr k s s3" "\<And>q. out = Inr q \<Longrightarrow> response_key q = k
      \<and> sr s3 k = Some q \<and> owned_by p (m_ownerReferences (r_meta q))"
    using owner_step[OF own _ new] ok' unfolding key by blast+
  show ?thesis
  proof (cases out)
    case (Inl err)
    then have "res = Inl err" "s' = s3" using run live own by simp_all
    then have "requeued res" "s' = s3" by (simp_all add: requeued_def)
    then show ?thesis using step(1) by simp
  next
    case (Inr q)
    note q = step(2)[OF Inr]
    have q_ok: "response_ok q" using step(1) q by (simp add: response_effect_def)
    obtain s4 where n: "env_now (env t) s3 = (t, s4)" "same_views cp cr sp sr s3 s4" by (rule reads_clock)
    have "(case validateResponse (env_isPrint (env t)) p q t of
        Some verr \<Rightarrow> rejectResponse (env t) q (m_generation (p_meta p)) (ve_reason verr) (ve_message verr) s4
      | None \<Rightarrow> acceptResponse (env t) q (m_generation (p_meta p)) s4) = (res, s')"
      using run live by (simp add: own Inr n(1))
    then obtain d where d: "judged_effect cp cr sp sr q d res s4 s'" "verdict_from q d"
      by (rule judge_effect)
    note eff = judged_effect_views[OF d(1) n(2)]
    have key_q: "response_key q = k" using q by simp
    have "response_effect cp cr sp sr k s3 s'"
      using q_ok q by (intro judged_response_effect[OF eff d(2) q_ok key_q]) auto
    then have both: "response_effect cp cr sp sr k s s'"
      using step(1) by (simp add: response_effect_def)
    obtain x where "sr s' k = Some x" "m_ownerReferences (r_meta x) = m_ownerReferences (r_meta q)"
      using eff q key_q by (auto simp: judged_effect_def status_effect_def)
    then have "sr s' k \<noteq> Some r" using new q by auto
    with both show ?thesis by blast
  qed
qed

lemma response_reconcile_effect:
  assumes run: "PollResponseReconcile (env t) k s = (res, s')"
    and ok: "\<forall>r. cr s k = Some r \<or> sr s k = Some r \<longrightarrow> response_ok r"
  shows "response_effect cp cr sp sr k s s'
    \<and> (\<not> requeued res \<longrightarrow> cr s k = sr s k \<longrightarrow> sr s' k = sr s k \<longrightarrow> settled_response cp cr t s' k)"
proof (cases "\<exists>r. cr s k = Some r \<and> m_deletionTimestamp (r_meta r) = None")
  case False
  have "s' = s"
  proof (cases "cr s k")
    case None
    then obtain e where "env_getResponse (env t) k s = (Inl e, s)" "IsNotFound e"
      using cached_response[where s = s and k = k and t = t] by auto
    then show ?thesis using run by (simp add: PollResponseReconcile_get_error)
  next
    case (Some r)
    then have "m_deletionTimestamp (r_meta r) \<noteq> None" using False by simp
    from PollResponseReconcile_deleted[OF read_cached_response[OF Some] this] show ?thesis using run by simp
  qed
  then show ?thesis using False ok by (auto simp: response_effect_def settled_response_def)
next
  case True
  then obtain r where r: "cr s k = Some r" "m_deletionTimestamp (r_meta r) = None" by blast
  note get = read_cached_response[OF r(1)]
  show ?thesis
  proof (cases "cp s (pollKeyOf r)")
    case None
    then obtain e where e: "env_getPoll (env t) (pollKeyOf r) s = (Inl e, s)" "IsNotFound e"
      using cached_poll[where s = s and k = "pollKeyOf r" and t = t] by auto
    have "rejectResponse (env t) r 0 reasonPollNotFound
        (''Poll '' @ goQuote (env_isPrint (env t)) (ref_name (rs_pollRef (r_spec r)))
         @ '' not found in namespace '' @ goQuote (env_isPrint (env t)) (m_namespace (r_meta r))) s = (res, s')"
      using PollResponseReconcile_poll_missing[OF get r(2) e] run by simp
    from reject_effect[OF this] show ?thesis
      by (rule response_judged_effect[OF _ verdict_from_status(2) _ r(1) ok])
        (simp add: None deserves_def verdict_fields)
  next
    case (Some p)
    show ?thesis
    proof (cases "owned_by p (m_ownerReferences (r_meta r))")
      case True
      then have own: "ensureOwnerReference (env t) r p s = (Inr r, s)"
        by (intro ensureOwnerReference_owned) (auto simp: owned_by_def list_ex_iff)
      obtain s4 where n: "env_now (env t) s = (t, s4)" "same_views cp cr sp sr s s4" by (rule reads_clock)
      have "(case validateResponse (env_isPrint (env t)) p r t of
          Some verr \<Rightarrow> rejectResponse (env t) r (m_generation (p_meta p)) (ve_reason verr) (ve_message verr) s4
        | None \<Rightarrow> acceptResponse (env t) r (m_generation (p_meta p)) s4) = (res, s')"
        using run PollResponseReconcile_live[OF get r(2), unfolded read_cached_poll[OF Some] prod.case sum.case]
        by (simp add: own n(1))
      then obtain d where d: "judged_effect cp cr sp sr r d res s4 s'" "verdict_from r d"
        "rst_phase d = (if validateResponse (env_isPrint (env t)) p r t = None
           then PollResponsePhaseAccepted else PollResponsePhaseRejected)"
        by (rule judge_effect)
      show ?thesis
        using validateResponse_any_print[of "env_isPrint (env t)" p r t] d(3)
        by (intro response_judged_effect[OF judged_effect_views[OF d(1) n(2)] d(2) _ r(1) ok])
          (simp add: deserves_def Some)
    next
      case False
      have "response_ok q" if "sr s k = Some q" for q using ok that by blast
      from response_adopted_effect[OF run r Some False this] show ?thesis using r(1) by auto
    qed
  qed
qed

end

section \<open>The system behind its caches\<close>

text \<open>
  A write of somebody else to a Poll: a new object without status, or an update that keeps the
  status. Its generation fits the versions in use; in particular a Poll is not created again
  while a cache still holds the deleted one.
\<close>

definition poll_write :: "Poll option list \<Rightarrow> Poll option \<Rightarrow> Poll option \<Rightarrow> bool" where
  "poll_write versions old new \<longleftrightarrow> new = old
     \<or> (case new of None \<Rightarrow> True
        | Some p \<Rightarrow> wf_questions (ps_questions (p_spec p)) \<and> m_name (p_meta p) \<noteq> ''''
            \<and> (p_status p = fresh_status \<or> (\<exists>q. old = Some q \<and> p_status p = p_status q))
            \<and> (\<forall>v \<in> set versions. version_le v new))"

inductive cached_step :: "(gotime \<Rightarrow> 's kube_env) \<Rightarrow> 's poll_map \<Rightarrow> 's response_map \<Rightarrow> 's poll_map \<Rightarrow>
    's response_map \<Rightarrow> 's cached_system \<Rightarrow> 's cached_system \<Rightarrow> bool"
  for env cp cr sp sr where
  poll: "k \<in> sys_polls sys \<Longrightarrow>
    ctl_reconciler (Poll_SetupWithManager (env (sys_clock sys))) k (sys_store sys) = (res, s') \<Longrightarrow>
    cached_step env cp cr sp sr \<lparr>cs_sys = sys, cs_polls = wp, cs_responses = wr\<rparr>
      \<lparr>cs_sys = sys\<lparr>sys_store := s',
           sys_polls := (if requeued res then sys_polls sys else sys_polls sys - {k}),
           sys_timers := sys_timers sys \<union> timer_of k (sys_clock sys) res\<rparr>,
       cs_polls = notify sp (sys_store sys) s' wp, cs_responses = notify sr (sys_store sys) s' wr\<rparr>"
| response: "k \<in> sys_responses sys \<Longrightarrow>
    ctl_reconciler (PollResponse_SetupWithManager (env (sys_clock sys))) k (sys_store sys) = (res, s') \<Longrightarrow>
    cached_step env cp cr sp sr \<lparr>cs_sys = sys, cs_polls = wp, cs_responses = wr\<rparr>
      \<lparr>cs_sys = sys\<lparr>sys_store := s',
           sys_responses := (if requeued res then sys_responses sys else sys_responses sys - {k})\<rparr>,
       cs_polls = notify sp (sys_store sys) s' wp, cs_responses = notify sr (sys_store sys) s' wr\<rparr>"
| edit: "cp s' = cp (sys_store sys) \<Longrightarrow> cr s' = cr (sys_store sys) \<Longrightarrow>
    (\<forall>k. poll_write (cp s' k # wp k) (sp (sys_store sys) k) (sp s' k)) \<Longrightarrow>
    (\<forall>k r. sr s' k = Some r \<longrightarrow> response_ok r) \<Longrightarrow>
    cached_step env cp cr sp sr \<lparr>cs_sys = sys, cs_polls = wp, cs_responses = wr\<rparr>
      \<lparr>cs_sys = sys\<lparr>sys_store := s'\<rparr>,
       cs_polls = notify sp (sys_store sys) s' wp, cs_responses = notify sr (sys_store sys) s' wr\<rparr>"
| poll_arrives: "wp k = v # w \<Longrightarrow> cp s' = (cp (sys_store sys))(k := v) \<Longrightarrow>
    cr s' = cr (sys_store sys) \<Longrightarrow> sp s' = sp (sys_store sys) \<Longrightarrow> sr s' = sr (sys_store sys) \<Longrightarrow>
    cached_step env cp cr sp sr \<lparr>cs_sys = sys, cs_polls = wp, cs_responses = wr\<rparr>
      \<lparr>cs_sys = deliver env cp cr s' sys, cs_polls = wp(k := w), cs_responses = wr\<rparr>"
| response_arrives: "wr k = v # w \<Longrightarrow> cr s' = (cr (sys_store sys))(k := v) \<Longrightarrow>
    cp s' = cp (sys_store sys) \<Longrightarrow> sp s' = sp (sys_store sys) \<Longrightarrow> sr s' = sr (sys_store sys) \<Longrightarrow>
    cached_step env cp cr sp sr \<lparr>cs_sys = sys, cs_polls = wp, cs_responses = wr\<rparr>
      \<lparr>cs_sys = deliver env cp cr s' sys, cs_polls = wp, cs_responses = wr(k := w)\<rparr>"
| tick: "unixNano (sys_clock sys) \<le> unixNano t \<Longrightarrow>
    cached_step env cp cr sp sr \<lparr>cs_sys = sys, cs_polls = wp, cs_responses = wr\<rparr>
      \<lparr>cs_sys = sys\<lparr>sys_clock := t,
           sys_polls := sys_polls sys \<union> fst ` {x \<in> sys_timers sys. snd x \<le> unixNano t},
           sys_timers := {x \<in> sys_timers sys. \<not> snd x \<le> unixNano t}\<rparr>,
       cs_polls = wp, cs_responses = wr\<rparr>"

text \<open>The operator starts with caches that have been filled.\<close>

definition cached_start :: "'s poll_map \<Rightarrow> 's response_map \<Rightarrow> gotime \<Rightarrow> 's \<Rightarrow> 's cached_system" where
  "cached_start cp cr t s =
     \<lparr>cs_sys = started cp cr t s, cs_polls = (\<lambda>_. []), cs_responses = (\<lambda>_. [])\<rparr>"

definition cached_store_ok :: "'s poll_map \<Rightarrow> 's response_map \<Rightarrow> 's poll_map \<Rightarrow> 's response_map \<Rightarrow> gotime \<Rightarrow> 's \<Rightarrow> bool" where
  "cached_store_ok cp cr sp sr t s \<longleftrightarrow> sp s = cp s \<and> sr s = cr s
     \<and> (\<forall>k p. cp s k = Some p \<longrightarrow> version_ok t p) \<and> (\<forall>k r. cr s k = Some r \<longrightarrow> response_ok r)"

text \<open>Nothing waits in a queue and nothing is on its way to a cache.\<close>

definition quiet :: "'s cached_system \<Rightarrow> bool" where
  "quiet cs \<longleftrightarrow> at_rest (cs_sys cs) \<and> (\<forall>k. cs_polls cs k = []) \<and> (\<forall>k. cs_responses cs k = [])"

section \<open>The invariant\<close>

definition version_watch :: "gotime \<Rightarrow> Poll option \<Rightarrow> Poll option list \<Rightarrow> bool" where
  "version_watch t cached w \<longleftrightarrow> sorted_wrt version_le (cached # w)
     \<and> (\<forall>p. Some p \<in> set (cached # w) \<longrightarrow> version_ok t p)"

definition watches_ok :: "'s poll_map \<Rightarrow> 's response_map \<Rightarrow> 's poll_map \<Rightarrow> 's response_map \<Rightarrow> gotime \<Rightarrow> 's \<Rightarrow>
    Poll watch \<Rightarrow> PollResponse watch \<Rightarrow> bool" where
  "watches_ok cp cr sp sr t s wp wr \<longleftrightarrow>
     (\<forall>k. coherent (cp s k) (wp k) (sp s k) \<and> version_watch t (cp s k) (wp k))
   \<and> (\<forall>k. coherent (cr s k) (wr k) (sr s k) \<and> (\<forall>r. Some r \<in> set (cr s k # wr k) \<longrightarrow> response_ok r))"

definition waiting_ok :: "'s poll_map \<Rightarrow> 's response_map \<Rightarrow> 's system \<Rightarrow> Poll watch \<Rightarrow> PollResponse watch \<Rightarrow> bool" where
  "waiting_ok cp cr sys wp wr \<longleftrightarrow>
     (\<forall>k. k \<notin> sys_responses sys \<longrightarrow> wr k = [] \<longrightarrow>
        settled_response cp cr (sys_clock sys) (sys_store sys) k
        \<or> (\<exists>r. cr (sys_store sys) k = Some r \<and> (wp (pollKeyOf r) \<noteq> []
             \<or> (\<exists>p. cp (sys_store sys) (pollKeyOf r) = Some p \<and> behind p (sys_clock sys)
                  \<and> pollKeyOf r \<in> sys_polls sys))))
   \<and> (\<forall>k. k \<notin> sys_polls sys \<longrightarrow> wp k = [] \<longrightarrow>
        settled_poll cp cr (sys_clock sys) (sys_store sys) k
        \<and> (\<forall>p c. cp (sys_store sys) k = Some p \<longrightarrow> ps_closesAt (p_spec p) = Some c \<longrightarrow>
             \<not> pollClosed p (sys_clock sys) \<longrightarrow> (\<exists>i \<le> unixNano c. (k, i) \<in> sys_timers sys)))"

definition cached_inv :: "'s poll_map \<Rightarrow> 's response_map \<Rightarrow> 's poll_map \<Rightarrow> 's response_map \<Rightarrow>
    's cached_system \<Rightarrow> bool" where
  "cached_inv cp cr sp sr cs \<longleftrightarrow>
     watches_ok cp cr sp sr (sys_clock (cs_sys cs)) (sys_store (cs_sys cs)) (cs_polls cs) (cs_responses cs)
   \<and> waiting_ok cp cr (cs_sys cs) (cs_polls cs) (cs_responses cs)"

lemma cached_inv_start: "cached_store_ok cp cr sp sr t s \<Longrightarrow> cached_inv cp cr sp sr (cached_start cp cr t s)"
  by (auto simp: cached_inv_def cached_start_def cached_store_ok_def started_def watches_ok_def waiting_ok_def
      version_watch_def settled_response_def settled_poll_def domIff)

section \<open>The watches stay in order\<close>

lemma version_le_status [simp]: "version_le v (Some (q\<lparr>p_status := st\<rparr>)) = version_le v (Some q)"
  by (cases v) simp_all

lemma sorted_wrt_last: "sorted_wrt R xs \<Longrightarrow> v \<in> set xs \<Longrightarrow> v = last xs \<or> R v (last xs)"
  by (induction xs) auto

lemma version_le_last:
  assumes "sorted_wrt version_le (c # w)" and "v \<in> set (c # w)" and "last (c # w) = Some q"
  shows "version_le v (Some q)"
  using sorted_wrt_last[OF assms(1,2)] assms(3) by auto

lemma version_watch_mono: "version_watch t c w \<Longrightarrow> unixNano t \<le> unixNano t' \<Longrightarrow> version_watch t' c w"
  unfolding version_watch_def using version_ok_mono by blast

lemma version_watch_notify:
  assumes "version_watch t c (w k)"
    and "server s' k \<noteq> server s k \<Longrightarrow> (\<forall>v \<in> set (c # w k). version_le v (server s' k))
      \<and> (\<forall>p. server s' k = Some p \<longrightarrow> version_ok t p)"
  shows "version_watch t c (notify server s s' w k)"
proof (cases "server s' k = server s k")
  case True
  then show ?thesis using assms(1) by (simp add: notify_def)
next
  case False
  have "sorted_wrt version_le ((c # w k) @ [server s' k])"
    using assms False by (subst sorted_wrt_append) (auto simp: version_watch_def)
  then show ?thesis using assms False by (auto simp: version_watch_def notify_def)
qed

lemma poll_effect_watch:
  assumes eff: "poll_effect env cp cr sp sr t k s s'" and plane: "cached_plane env cp cr sp sr"
    and co: "coherent (cp s x) (wp x) (sp s x)" and vw: "version_watch t (cp s x) (wp x)"
  shows "version_watch t (cp s x) (notify sp s s' wp x)"
proof (rule version_watch_notify[where w = wp and k = x and c = "cp s x", OF vw])
  assume ne: "sp s' x \<noteq> sp s x"
  then obtain p rs q st where p: "cp s k = Some p" and q: "sp s k = Some q"
    and new: "sp s' = (sp s)(k \<mapsto> q\<lparr>p_status := st\<rparr>)"
    and st: "merged_poll_status (p_status p)
      (desiredPollStatus (env_setStatusCondition (env t)) p rs t t) (p_status q) st"
    using eff unfolding poll_effect_def by metis
  have x: "x = k" using ne new by (auto split: if_splits)
  have last: "last (cp s x # wp x) = Some q" using co q by (simp add: coherent_def x)
  then have mem: "Some q \<in> set (cp s x # wp x)" by (metis last_in_set list.distinct(1))
  have le: "version_le v (Some q)" if "v \<in> set (cp s x # wp x)" for v
    using version_le_last[OF _ that last] vw by (simp add: version_watch_def)
  have "version_ok t p" "version_ok t q"
    using vw mem p by (auto simp: version_watch_def x)
  moreover have "version_le (Some p) (Some q)" using le[of "Some p"] p by (simp add: x)
  ultimately have "version_ok t (q\<lparr>p_status := st\<rparr>)"
    by (rule cached_plane.patched_version_ok[OF plane _ _ _ st])
  then show "(\<forall>v \<in> set (cp s x # wp x). version_le v (sp s' x)) \<and> (\<forall>p. sp s' x = Some p \<longrightarrow> version_ok t p)"
    using le by (simp add: new x)
qed

text \<open>What somebody else writes is a version as well.\<close>

lemma version_ok_update:
  assumes q: "version_ok t q" and le: "version_le (Some q) (Some p)" and st: "p_status p = p_status q"
    and wf: "wf_questions (ps_questions (p_spec p))" "m_name (p_meta p) \<noteq> ''''"
  shows "version_ok t p"
proof -
  have "sint (c_observedGeneration c) \<le> sint (m_generation (p_meta p))
      \<and> (c_observedGeneration c = m_generation (p_meta p) \<longrightarrow> c_status c = ConditionFalse \<longrightarrow> pollClosed p t)"
    if c: "find_condition pollReadyCondition (st_conditions (p_status p)) = Some c" for c
  proof -
    have ahead: "sint (c_observedGeneration c) \<le> sint (m_generation (p_meta q))"
      and shut: "c_observedGeneration c = m_generation (p_meta q) \<Longrightarrow> c_status c = ConditionFalse
        \<Longrightarrow> pollClosed q t"
      using q c st by (auto simp: version_ok_def)
    have gens: "sint (m_generation (p_meta q)) \<le> sint (m_generation (p_meta p))"
      and spec: "m_generation (p_meta q) = m_generation (p_meta p) \<Longrightarrow> p_spec q = p_spec p"
      using le by simp_all
    have "m_generation (p_meta q) = m_generation (p_meta p)"
      if "c_observedGeneration c = m_generation (p_meta p)"
    proof -
      have "sint (m_generation (p_meta q)) = sint (m_generation (p_meta p))" using ahead gens that by simp
      then show ?thesis by (rule signed_word_eqI)
    qed
    then show ?thesis using ahead gens shut spec by (auto simp: pollClosed_def)
  qed
  then show ?thesis using q st wf by (simp add: version_ok_def)
qed

lemma poll_write_watch:
  assumes wr: "poll_write (c # w x) (server s x) (server s' x)" and co: "coherent c (w x) (server s x)"
    and vw: "version_watch t c (w x)"
  shows "version_watch t c (notify server s s' w x)"
proof (rule version_watch_notify[where w = w and k = x and c = c, OF vw])
  assume ne: "server s' x \<noteq> server s x"
  have "version_ok t p" if p: "server s' x = Some p" for p
  proof -
    have wf: "wf_questions (ps_questions (p_spec p))" "m_name (p_meta p) \<noteq> ''''"
      and status: "p_status p = fresh_status \<or> (\<exists>q. server s x = Some q \<and> p_status p = p_status q)"
      and le: "\<forall>v \<in> set (c # w x). version_le v (Some p)"
      using wr ne p by (auto simp: poll_write_def)
    show ?thesis
    proof (cases "p_status p = fresh_status")
      case True
      then show ?thesis using wf by (simp add: version_ok_def fresh_status_def)
    next
      case False
      then obtain q where q: "server s x = Some q" "p_status p = p_status q" using status by blast
      have "last (c # w x) = Some q" using co q(1) by (simp add: coherent_def)
      then have mem: "Some q \<in> set (c # w x)" by (metis last_in_set list.distinct(1))
      then have "version_ok t q" "version_le (Some q) (Some p)"
        using vw le by (auto simp: version_watch_def)
      then show ?thesis using version_ok_update q(2) wf by blast
    qed
  qed
  moreover have "\<forall>v \<in> set (c # w x). version_le v (server s' x)"
    using wr ne by (cases "server s' x") (auto simp: poll_write_def)
  ultimately show "(\<forall>v \<in> set (c # w x). version_le v (server s' x))
      \<and> (\<forall>p. server s' x = Some p \<longrightarrow> version_ok t p)"
    by blast
qed

lemma response_watch_notify:
  assumes "coherent (cr s x) (wr x) (sr s x) \<and> (\<forall>r. Some r \<in> set (cr s x # wr x) \<longrightarrow> response_ok r)"
    and "\<And>r. sr s' x \<noteq> sr s x \<Longrightarrow> sr s' x = Some r \<Longrightarrow> response_ok r"
  shows "coherent (cr s x) (notify sr s s' wr x) (sr s' x)
    \<and> (\<forall>r. Some r \<in> set (cr s x # notify sr s s' wr x) \<longrightarrow> response_ok r)"
  using assms coherent_notify[of "cr s" x wr sr s s'] by (auto simp: notify_def)

section \<open>What waits is enough\<close>

lemma settled_cong:
  assumes "cp s' = cp s" and "cr s' = cr s"
  shows "settled_response cp cr t s' k = settled_response cp cr t s k"
    and "settled_poll cp cr t s' k = settled_poll cp cr t s k"
  using assms by (simp_all add: settled_response_def settled_poll_def deserves_def lists_def)

text \<open>
  A step that leaves the caches alone. A key that leaves a queue is settled, or a version of its
  object is on the way.
\<close>

lemma waiting_work:
  assumes old: "waiting_ok cp cr sys wp wr"
    and same: "cp (sys_store sys') = cp (sys_store sys)" "cr (sys_store sys') = cr (sys_store sys)"
      "sys_clock sys' = sys_clock sys" "sys_timers sys \<subseteq> sys_timers sys'"
    and grow: "\<And>k. wp' k = [] \<Longrightarrow> wp k = []" "\<And>k. wr' k = [] \<Longrightarrow> wr k = []"
    and poll: "\<And>k. k \<in> sys_polls sys \<Longrightarrow> k \<notin> sys_polls sys' \<Longrightarrow> wp' k = [] \<Longrightarrow>
      finished_poll cp cr (sys_clock sys) (sys_timers sys') (sys_store sys') k"
    and response: "\<And>k. k \<in> sys_responses sys \<Longrightarrow> k \<notin> sys_responses sys' \<Longrightarrow> wr' k = [] \<Longrightarrow>
      settled_response cp cr (sys_clock sys) (sys_store sys') k"
  shows "waiting_ok cp cr sys' wp' wr'"
proof -
  let ?s = "sys_store sys" and ?t = "sys_clock sys"
  have fin: "settled_poll cp cr ?t (sys_store sys') k" "cp ?s k = Some p \<Longrightarrow> \<not> behind p ?t"
      "cp ?s k = Some p \<Longrightarrow> ps_closesAt (p_spec p) = Some c \<Longrightarrow> \<not> pollClosed p ?t
        \<Longrightarrow> \<exists>i \<le> unixNano c. (k, i) \<in> sys_timers sys'"
    if "k \<in> sys_polls sys" "k \<notin> sys_polls sys'" "wp' k = []" for k p c
    using poll[OF that] same(1) by (auto simp: finished_poll_def)
  have resp: "settled_response cp cr ?t (sys_store sys') k
      \<or> (\<exists>r. cr ?s k = Some r \<and> (wp' (pollKeyOf r) \<noteq> []
           \<or> (\<exists>p. cp ?s (pollKeyOf r) = Some p \<and> behind p ?t \<and> pollKeyOf r \<in> sys_polls sys')))"
    if k: "k \<notin> sys_responses sys'" "wr' k = []" for k
  proof (cases "k \<in> sys_responses sys")
    case True
    then show ?thesis using response k by blast
  next
    case False
    consider (settled) "settled_response cp cr ?t ?s k"
      | (coming) r where "cr ?s k = Some r" "wp (pollKeyOf r) \<noteq> []"
      | (behind) r p where "cr ?s k = Some r" "cp ?s (pollKeyOf r) = Some p" "behind p ?t"
          "pollKeyOf r \<in> sys_polls sys"
      using old False grow(2)[OF k(2)] unfolding waiting_ok_def by blast
    then show ?thesis
    proof cases
      case settled
      then show ?thesis using settled_cong(1)[where cp = cp and cr = cr, OF same(1,2)] by blast
    next
      case (coming r)
      then show ?thesis using grow(1) by blast
    next
      case (behind r p)
      then show ?thesis using fin(2)[OF behind(4)] by blast
    qed
  qed
  have pol: "settled_poll cp cr ?t (sys_store sys') k
      \<and> (\<forall>p c. cp ?s k = Some p \<longrightarrow> ps_closesAt (p_spec p) = Some c \<longrightarrow> \<not> pollClosed p ?t
           \<longrightarrow> (\<exists>i \<le> unixNano c. (k, i) \<in> sys_timers sys'))"
    if k: "k \<notin> sys_polls sys'" "wp' k = []" for k
  proof (cases "k \<in> sys_polls sys")
    case True
    then show ?thesis using fin(1,3) k by blast
  next
    case False
    then have "settled_poll cp cr ?t ?s k
      \<and> (\<forall>p c. cp ?s k = Some p \<longrightarrow> ps_closesAt (p_spec p) = Some c \<longrightarrow> \<not> pollClosed p ?t
           \<longrightarrow> (\<exists>i \<le> unixNano c. (k, i) \<in> sys_timers sys))"
      using old grow(1)[OF k(2)] unfolding waiting_ok_def by blast
    then show ?thesis using settled_cong(2)[where cp = cp and cr = cr, OF same(1,2)] same(4) by blast
  qed
  show ?thesis
    unfolding waiting_ok_def same using resp pol by blast
qed

context object_views
begin

text \<open>A version of a Poll arrives: its event enqueues the Poll and the responses that name it.\<close>

lemma waiting_poll_arrives:
  assumes old: "waiting_ok polls responses sys wp wr"
    and s': "polls s' = (polls (sys_store sys))(k := v)" "responses s' = responses (sys_store sys)"
    and new: "v \<noteq> polls (sys_store sys) k"
    and names: "\<And>x p. polls s' x = Some p \<Longrightarrow> m_name (p_meta p) \<noteq> ''''"
  shows "waiting_ok polls responses (deliver env polls responses s' sys) (wp(k := w)) wr"
proof -
  let ?d = "deliver env polls responses s' sys" and ?s = "sys_store sys" and ?t = "sys_clock sys"
  obtain p where p: "polls ?s k = Some p \<or> polls s' k = Some p"
    using new s'(1) by (cases "polls ?s k"; cases v) auto
  then have key: "poll_key p = k" using keys(1) by blast
  have event: "PollObject p \<in> changed polls responses ?s s'"
    using p new s'(1) by (intro changed_pollI[of polls ?s k s']) auto
  have enqueued: "x \<in> sys_responses ?d" if "responses s' x = Some r" "pollKeyOf r = k" for x r
    using poll_event(2)[OF event that(1)] that(2) key by simp
  have resp: "settled_response polls responses ?t s' x
      \<or> (\<exists>r. responses s' x = Some r \<and> ((wp(k := w)) (pollKeyOf r) \<noteq> []
           \<or> (\<exists>p. polls s' (pollKeyOf r) = Some p \<and> behind p ?t \<and> pollKeyOf r \<in> sys_polls ?d)))"
    if x: "x \<notin> sys_responses ?d" "wr x = []" for x
  proof -
    have "x \<notin> sys_responses sys" using x(1) deliver_fields(5) by blast
    then consider (settled) "settled_response polls responses ?t ?s x"
      | (coming) r where "responses ?s x = Some r" "wp (pollKeyOf r) \<noteq> []"
      | (behind) r p where "responses ?s x = Some r" "polls ?s (pollKeyOf r) = Some p" "behind p ?t"
          "pollKeyOf r \<in> sys_polls sys"
      using old x(2) unfolding waiting_ok_def by blast
    then show ?thesis
    proof cases
      case settled
      then show ?thesis using settled_response_quiet[OF x(1)] by blast
    next
      case (coming r)
      have r: "responses s' x = Some r" using coming(1) s'(2) by simp
      then have "pollKeyOf r \<noteq> k" using enqueued x(1) by blast
      then show ?thesis using coming(2) r by auto
    next
      case (behind r p)
      have r: "responses s' x = Some r" using behind(1) s'(2) by simp
      then have "pollKeyOf r \<noteq> k" using enqueued x(1) by blast
      then show ?thesis using behind r s'(1) deliver_fields(4)[OF behind(4)] by auto
    qed
  qed
  have pol: "settled_poll polls responses ?t s' x
      \<and> (\<forall>p c. polls s' x = Some p \<longrightarrow> ps_closesAt (p_spec p) = Some c \<longrightarrow> \<not> pollClosed p ?t
           \<longrightarrow> (\<exists>i \<le> unixNano c. (x, i) \<in> sys_timers sys))"
    if x: "x \<notin> sys_polls ?d" "(wp(k := w)) x = []" for x
  proof -
    have same: "polls s' x = polls ?s x" by (rule quiet_poll[OF x(1)])
    then have "x \<noteq> k" using new s'(1) by auto
    then have "wp x = []" "x \<notin> sys_polls sys" using x deliver_fields(4) by auto
    then have set: "settled_poll polls responses ?t ?s x"
        "\<forall>p c. polls ?s x = Some p \<longrightarrow> ps_closesAt (p_spec p) = Some c \<longrightarrow> \<not> pollClosed p ?t
           \<longrightarrow> (\<exists>i \<le> unixNano c. (x, i) \<in> sys_timers sys)"
      using old unfolding waiting_ok_def by blast+
    have "settled_poll polls responses ?t s' x"
      by (rule settled_poll_quiet[OF x(1) _ set(1)]) (rule names)
    then show ?thesis using set(2) same by simp
  qed
  show ?thesis
    unfolding waiting_ok_def deliver_fields(1-3) using resp pol by (intro conjI allI impI) simp_all
qed

text \<open>A version of a response arrives: its event enqueues the response and the Polls it names.\<close>

lemma waiting_response_arrives:
  assumes old: "waiting_ok polls responses sys wp wr"
    and s': "responses s' = (responses (sys_store sys))(k := v)" "polls s' = polls (sys_store sys)"
    and new: "v \<noteq> responses (sys_store sys) k"
    and names: "\<And>x p. polls s' x = Some p \<Longrightarrow> m_name (p_meta p) \<noteq> ''''"
  shows "waiting_ok polls responses (deliver env polls responses s' sys) wp (wr(k := w))"
proof -
  let ?d = "deliver env polls responses s' sys" and ?s = "sys_store sys" and ?t = "sys_clock sys"
  have resp: "settled_response polls responses ?t s' x
      \<or> (\<exists>r. responses s' x = Some r \<and> (wp (pollKeyOf r) \<noteq> []
           \<or> (\<exists>p. polls s' (pollKeyOf r) = Some p \<and> behind p ?t \<and> pollKeyOf r \<in> sys_polls ?d)))"
    if x: "x \<notin> sys_responses ?d" "(wr(k := w)) x = []" for x
  proof -
    have same: "responses s' x = responses ?s x" by (rule quiet_response(1)[OF x(1)])
    then have "x \<noteq> k" using new s'(1) by auto
    then have "wr x = []" "x \<notin> sys_responses sys" using x deliver_fields(5) by auto
    then consider (settled) "settled_response polls responses ?t ?s x"
      | (other) r where "responses ?s x = Some r" "wp (pollKeyOf r) \<noteq> []
           \<or> (\<exists>p. polls ?s (pollKeyOf r) = Some p \<and> behind p ?t \<and> pollKeyOf r \<in> sys_polls sys)"
      using old unfolding waiting_ok_def by blast
    then show ?thesis
    proof cases
      case settled
      then show ?thesis using settled_response_quiet[OF x(1)] by blast
    next
      case (other r)
      then show ?thesis using same s'(2) deliver_fields(4)[of "pollKeyOf r" sys s'] by auto
    qed
  qed
  have pol: "settled_poll polls responses ?t s' x
      \<and> (\<forall>p c. polls s' x = Some p \<longrightarrow> ps_closesAt (p_spec p) = Some c \<longrightarrow> \<not> pollClosed p ?t
           \<longrightarrow> (\<exists>i \<le> unixNano c. (x, i) \<in> sys_timers sys))"
    if x: "x \<notin> sys_polls ?d" "wp x = []" for x
  proof -
    have "x \<notin> sys_polls sys" using x(1) deliver_fields(4) by blast
    then have set: "settled_poll polls responses ?t ?s x"
        "\<forall>p c. polls ?s x = Some p \<longrightarrow> ps_closesAt (p_spec p) = Some c \<longrightarrow> \<not> pollClosed p ?t
           \<longrightarrow> (\<exists>i \<le> unixNano c. (x, i) \<in> sys_timers sys)"
      using old x(2) unfolding waiting_ok_def by blast+
    have "settled_poll polls responses ?t s' x"
      by (rule settled_poll_quiet[OF x(1) _ set(1)]) (rule names)
    then show ?thesis using set(2) s'(2) by simp
  qed
  show ?thesis
    unfolding waiting_ok_def deliver_fields(1-3) using resp pol by (intro conjI allI impI) simp_all
qed

end

text \<open>Time passes: what closes has been waited for by a timer.\<close>

lemma waiting_tick:
  assumes old: "waiting_ok cp cr sys wp wr" and le: "unixNano (sys_clock sys) \<le> unixNano t"
    and ok: "\<And>x p. cp (sys_store sys) x = Some p \<Longrightarrow> version_ok (sys_clock sys) p"
  shows "waiting_ok cp cr (sys\<lparr>sys_clock := t,
      sys_polls := sys_polls sys \<union> fst ` {x \<in> sys_timers sys. snd x \<le> unixNano t},
      sys_timers := {x \<in> sys_timers sys. \<not> snd x \<le> unixNano t}\<rparr>) wp wr"
    (is "waiting_ok cp cr ?sys wp wr")
proof -
  let ?s = "sys_store sys" and ?u = "sys_clock sys"
  have queued: "k \<in> sys_polls ?sys \<or> wp k \<noteq> []"
    if p: "cp ?s k = Some p" and op: "\<not> pollClosed p ?u" and cl: "pollClosed p t" for k p
  proof (cases "k \<in> sys_polls sys \<or> wp k \<noteq> []")
    case False
    obtain c where c: "ps_closesAt (p_spec p) = Some c" "unixNano c \<le> unixNano t"
      using cl by (auto simp: pollClosed_def split: option.splits)
    then obtain i where i: "i \<le> unixNano c" "(k, i) \<in> sys_timers sys"
      using old False p op unfolding waiting_ok_def by blast
    with c(2) have "(k, i) \<in> {x \<in> sys_timers sys. snd x \<le> unixNano t}" by simp
    then show ?thesis by (simp add: image_iff) force
  qed auto
  have closing: "\<not> pollClosed p ?u \<and> pollClosed p t" if "pollClosed p t \<noteq> pollClosed p ?u" for p
    using that pollClosed_mono[OF _ le] by blast
  have resp: "settled_response cp cr t ?s k
      \<or> (\<exists>r. cr ?s k = Some r \<and> (wp (pollKeyOf r) \<noteq> []
           \<or> (\<exists>p. cp ?s (pollKeyOf r) = Some p \<and> behind p t \<and> pollKeyOf r \<in> sys_polls ?sys)))"
    if k: "k \<notin> sys_responses sys" "wr k = []" for k
  proof -
    consider (settled) "settled_response cp cr ?u ?s k"
      | (coming) r where "cr ?s k = Some r" "wp (pollKeyOf r) \<noteq> []"
      | (behind) r p where "cr ?s k = Some r" "cp ?s (pollKeyOf r) = Some p" "behind p ?u"
          "pollKeyOf r \<in> sys_polls sys"
      using old k unfolding waiting_ok_def by blast
    then show ?thesis
    proof cases
      case settled
      show ?thesis
      proof (cases "\<exists>r p. cr ?s k = Some r \<and> cp ?s (pollKeyOf r) = Some p \<and> pollClosed p t \<noteq> pollClosed p ?u")
        case True
        then obtain r p where rp: "cr ?s k = Some r" "cp ?s (pollKeyOf r) = Some p"
          "pollClosed p t \<noteq> pollClosed p ?u" by blast
        note cl = closing[OF rp(3)]
        then have "behind p t" using behind_after_closing[OF ok[OF rp(2)]] by blast
        then show ?thesis using queued[OF rp(2)] cl rp(1,2) by blast
      next
        case False
        have "deserves cp t ?s r = deserves cp ?u ?s r" if r: "cr ?s k = Some r" for r
        proof (cases "cp ?s (pollKeyOf r)")
          case (Some p)
          then have "pollClosed p t = pollClosed p ?u" using False r by blast
          from validateResponse_clock[OF this] Some show ?thesis by (simp add: deserves_def)
        qed (simp add: deserves_def)
        then show ?thesis using settled by (simp add: settled_response_def)
      qed
    next
      case (coming r)
      then show ?thesis by blast
    next
      case (behind r p)
      then show ?thesis using behind_mono[OF behind(3) ok[OF behind(2)] le] by auto
    qed
  qed
  have pol: "settled_poll cp cr t ?s k
      \<and> (\<forall>p c. cp ?s k = Some p \<longrightarrow> ps_closesAt (p_spec p) = Some c \<longrightarrow> \<not> pollClosed p t
           \<longrightarrow> (\<exists>i \<le> unixNano c. (k, i) \<in> sys_timers ?sys))"
    if k: "k \<notin> sys_polls ?sys" "wp k = []" for k
  proof -
    have "k \<notin> sys_polls sys" using k(1) by simp
    then have set: "settled_poll cp cr ?u ?s k"
        "\<And>p c. cp ?s k = Some p \<Longrightarrow> ps_closesAt (p_spec p) = Some c \<Longrightarrow> \<not> pollClosed p ?u
           \<Longrightarrow> \<exists>i \<le> unixNano c. (k, i) \<in> sys_timers sys"
      using old k(2) unfolding waiting_ok_def by blast+
    have "clock_phase p t = clock_phase p ?u" if "cp ?s k = Some p" for p
      using queued[OF that] closing[of p] k unfolding clock_phase_def by metis
    then have settled: "settled_poll cp cr t ?s k" using set(1) by (simp add: settled_poll_def publishes_def)
    have "\<exists>i \<le> unixNano c. (k, i) \<in> sys_timers ?sys"
      if p: "cp ?s k = Some p" and c: "ps_closesAt (p_spec p) = Some c" and op: "\<not> pollClosed p t" for p c
    proof -
      have "\<not> pollClosed p ?u" using op pollClosed_mono[OF _ le] by blast
      then obtain i where i: "i \<le> unixNano c" "(k, i) \<in> sys_timers sys" using set(2) p c by blast
      have "\<not> i \<le> unixNano t"
      proof
        assume "i \<le> unixNano t"
        with i(2) have "k \<in> fst ` {x \<in> sys_timers sys. snd x \<le> unixNano t}" by force
        with k(1) show False by simp
      qed
      with i show ?thesis by auto
    qed
    with settled show ?thesis by blast
  qed
  have fields: "sys_clock ?sys = t" "sys_store ?sys = ?s" "sys_responses ?sys = sys_responses sys" by simp_all
  show ?thesis unfolding waiting_ok_def fields using resp pol by blast
qed

section \<open>Every step keeps the invariant\<close>

lemma notify_Nil_iff: "notify server s s' w k = [] \<longleftrightarrow> w k = [] \<and> server s' k = server s k"
  by (simp add: notify_def)

lemma watches_ok_poll: "watches_ok cp cr sp sr t s wp wr \<Longrightarrow> cp s x = Some p \<Longrightarrow> version_ok t p"
  unfolding watches_ok_def version_watch_def by (metis list.set_intros(1))

lemma watches_ok_response:
  assumes "watches_ok cp cr sp sr t s wp wr" and "cr s x = Some r \<or> sr s x = Some r"
  shows "response_ok r"
proof -
  have "sr s x = last (cr s x # wr x)" using assms(1) by (simp add: watches_ok_def coherent_def)
  then have "sr s x \<in> set (cr s x # wr x)" by (metis last_in_set list.distinct(1))
  then show ?thesis using assms unfolding watches_ok_def by (metis list.set_intros(1))
qed

lemma watches_ok_caught_up:
  "watches_ok cp cr sp sr t s wp wr \<Longrightarrow> wp x = [] \<Longrightarrow> cp s x = sp s x"
  "watches_ok cp cr sp sr t s wp wr \<Longrightarrow> wr x = [] \<Longrightarrow> cr s x = sr s x"
  unfolding watches_ok_def by (metis coherent_Nil)+

lemma version_watch_catch_up: "version_watch t c (v # w) \<Longrightarrow> version_watch t v w"
  by (auto simp: version_watch_def)

context cached_plane
begin

text \<open>A reconcile of a Poll.\<close>

lemma cached_poll_inv:
  assumes step1: "k \<in> sys_polls sys"
    and step2: "ctl_reconciler (Poll_SetupWithManager (env (sys_clock sys))) k (sys_store sys) = (res, s')"
    and inv: "cached_inv cp cr sp sr \<lparr>cs_sys = sys, cs_polls = wp, cs_responses = wr\<rparr>"
  shows "cached_inv cp cr sp sr
      \<lparr>cs_sys = sys\<lparr>sys_store := s',
       sys_polls := (if requeued res then sys_polls sys else sys_polls sys - {k}),
       sys_timers := sys_timers sys \<union> timer_of k (sys_clock sys) res\<rparr>,
       cs_polls = notify sp (sys_store sys) s' wp, cs_responses = notify sr (sys_store sys) s' wr\<rparr>"
proof -
  let ?s = "sys_store sys" and ?t = "sys_clock sys"
  have w: "watches_ok cp cr sp sr ?t ?s wp wr" and q: "waiting_ok cp cr sys wp wr"
    using inv by (simp_all add: cached_inv_def)
  have ok: "\<forall>p. cp ?s k = Some p \<longrightarrow> version_ok ?t p" using watches_ok_poll[OF w] by blast
  note eff = poll_reconcile_effect[OF step2[unfolded reconcilers] ok]
  have views: "cp s' = cp ?s" "cr s' = cr ?s" "sr s' = sr ?s"
    and pe: "poll_effect env cp cr sp sr ?t k ?s s'"
    using eff by (auto simp: poll_effect_def)
  have "watches_ok cp cr sp sr ?t s' (notify sp ?s s' wp) (notify sr ?s s' wr)"
    unfolding watches_ok_def views
  proof (intro conjI allI)
    fix x
    show "coherent (cp ?s x) (notify sp ?s s' wp x) (sp s' x)"
      using w by (intro coherent_notify) (simp add: watches_ok_def)
    show "version_watch ?t (cp ?s x) (notify sp ?s s' wp x)"
      using w by (intro poll_effect_watch[OF pe cached_plane_axioms]) (simp_all add: watches_ok_def)
  qed (use w in \<open>auto simp: watches_ok_def notify_def views\<close>)
  moreover have "waiting_ok cp cr (sys\<lparr>sys_store := s',
      sys_polls := (if requeued res then sys_polls sys else sys_polls sys - {k}),
      sys_timers := sys_timers sys \<union> timer_of k ?t res\<rparr>) (notify sp ?s s' wp) (notify sr ?s s' wr)"
  proof (rule waiting_work[OF q])
    fix x
    assume x: "x \<in> sys_polls sys" "x \<notin> sys_polls (sys\<lparr>sys_store := s',
      sys_polls := (if requeued res then sys_polls sys else sys_polls sys - {k}),
      sys_timers := sys_timers sys \<union> timer_of k ?t res\<rparr>)" "notify sp ?s s' wp x = []"
    then have k: "x = k" "\<not> requeued res" by (simp_all split: if_splits)
    have "cp ?s k = sp ?s k" "sp s' k = sp ?s k"
      using x(3) watches_ok_caught_up(1)[OF w, of k] unfolding k(1) notify_Nil_iff by simp_all
    then have "finished_poll cp cr ?t (timer_of k ?t res) s' k" using eff k by blast
    then show "finished_poll cp cr ?t (sys_timers (sys\<lparr>sys_store := s',
        sys_polls := (if requeued res then sys_polls sys else sys_polls sys - {k}),
        sys_timers := sys_timers sys \<union> timer_of k ?t res\<rparr>)) (sys_store (sys\<lparr>sys_store := s',
        sys_polls := (if requeued res then sys_polls sys else sys_polls sys - {k}),
        sys_timers := sys_timers sys \<union> timer_of k ?t res\<rparr>)) x"
      unfolding k(1) by (simp add: finished_poll_def) blast
  qed (simp_all add: views notify_Nil_iff)
  ultimately show ?thesis by (simp add: cached_inv_def)
qed

text \<open>A reconcile of a response.\<close>

lemma cached_response_inv:
  assumes step1: "k \<in> sys_responses sys"
    and step2: "ctl_reconciler (PollResponse_SetupWithManager (env (sys_clock sys))) k (sys_store sys) = (res, s')"
    and inv: "cached_inv cp cr sp sr \<lparr>cs_sys = sys, cs_polls = wp, cs_responses = wr\<rparr>"
  shows "cached_inv cp cr sp sr
      \<lparr>cs_sys = sys\<lparr>sys_store := s',
       sys_responses := (if requeued res then sys_responses sys else sys_responses sys - {k})\<rparr>,
       cs_polls = notify sp (sys_store sys) s' wp, cs_responses = notify sr (sys_store sys) s' wr\<rparr>"
proof -
  let ?s = "sys_store sys" and ?t = "sys_clock sys"
  have w: "watches_ok cp cr sp sr ?t ?s wp wr" and q: "waiting_ok cp cr sys wp wr"
    using inv by (simp_all add: cached_inv_def)
  have ok: "\<forall>r. cr ?s k = Some r \<or> sr ?s k = Some r \<longrightarrow> response_ok r"
    using watches_ok_response[OF w] by blast
  note eff = response_reconcile_effect[OF step2[unfolded reconcilers] ok]
  have views: "cp s' = cp ?s" "cr s' = cr ?s" "sp s' = sp ?s"
    and re: "\<And>x. x \<noteq> k \<Longrightarrow> sr s' x = sr ?s x" "\<And>r. sr s' k = Some r \<Longrightarrow> response_ok r"
    using eff by (auto simp: response_effect_def)
  have "watches_ok cp cr sp sr ?t s' (notify sp ?s s' wp) (notify sr ?s s' wr)"
    unfolding watches_ok_def views
  proof (rule conjI; rule allI)
    fix x
    show "coherent (cp ?s x) (notify sp ?s s' wp x) (sp ?s x) \<and> version_watch ?t (cp ?s x) (notify sp ?s s' wp x)"
      using w by (simp add: watches_ok_def notify_def views)
    show "coherent (cr ?s x) (notify sr ?s s' wr x) (sr s' x)
        \<and> (\<forall>r. Some r \<in> set (cr ?s x # notify sr ?s s' wr x) \<longrightarrow> response_ok r)"
    proof (rule response_watch_notify)
      show "coherent (cr ?s x) (wr x) (sr ?s x) \<and> (\<forall>r. Some r \<in> set (cr ?s x # wr x) \<longrightarrow> response_ok r)"
        using w unfolding watches_ok_def by blast
      show "response_ok r" if "sr s' x \<noteq> sr ?s x" "sr s' x = Some r" for r
        using that re by metis
    qed
  qed
  moreover have "waiting_ok cp cr (sys\<lparr>sys_store := s',
      sys_responses := (if requeued res then sys_responses sys else sys_responses sys - {k})\<rparr>)
    (notify sp ?s s' wp) (notify sr ?s s' wr)"
  proof (rule waiting_work[OF q])
    fix x
    assume x: "x \<in> sys_responses sys" "x \<notin> sys_responses (sys\<lparr>sys_store := s',
      sys_responses := (if requeued res then sys_responses sys else sys_responses sys - {k})\<rparr>)"
      "notify sr ?s s' wr x = []"
    then have k: "x = k" "\<not> requeued res" by (simp_all split: if_splits)
    have "cr ?s k = sr ?s k" "sr s' k = sr ?s k"
      using x(3) watches_ok_caught_up(2)[OF w, of k] unfolding k(1) notify_Nil_iff by simp_all
    then show "settled_response cp cr ?t (sys_store (sys\<lparr>sys_store := s',
        sys_responses := (if requeued res then sys_responses sys else sys_responses sys - {k})\<rparr>)) x"
      using eff k by auto
  qed (simp_all add: views notify_Nil_iff)
  ultimately show ?thesis by (simp add: cached_inv_def)
qed

text \<open>A write by somebody else.\<close>

lemma cached_edit_inv:
  assumes step1: "cp s' = cp (sys_store sys)"
    and step2: "cr s' = cr (sys_store sys)"
    and step3: "(\<forall>k. poll_write (cp s' k # wp k) (sp (sys_store sys) k) (sp s' k))"
    and step4: "(\<forall>k r. sr s' k = Some r \<longrightarrow> response_ok r)"
    and inv: "cached_inv cp cr sp sr \<lparr>cs_sys = sys, cs_polls = wp, cs_responses = wr\<rparr>"
  shows "cached_inv cp cr sp sr
      \<lparr>cs_sys = sys\<lparr>sys_store := s'\<rparr>,
       cs_polls = notify sp (sys_store sys) s' wp, cs_responses = notify sr (sys_store sys) s' wr\<rparr>"
proof -
  let ?s = "sys_store sys" and ?t = "sys_clock sys"
  have w: "watches_ok cp cr sp sr ?t ?s wp wr" and q: "waiting_ok cp cr sys wp wr"
    using inv by (simp_all add: cached_inv_def)
  note views = step1 step2
  have "watches_ok cp cr sp sr ?t s' (notify sp ?s s' wp) (notify sr ?s s' wr)"
    unfolding watches_ok_def views
  proof (rule conjI; rule allI)
    fix x
    have co: "coherent (cp ?s x) (wp x) (sp ?s x)" and vw: "version_watch ?t (cp ?s x) (wp x)"
      using w by (simp_all add: watches_ok_def)
    have wr: "poll_write (cp ?s x # wp x) (sp ?s x) (sp s' x)" using step3 by (simp add: views)
    show "coherent (cp ?s x) (notify sp ?s s' wp x) (sp s' x) \<and> version_watch ?t (cp ?s x) (notify sp ?s s' wp x)"
      using coherent_notify[of "cp ?s" x wp sp ?s s', OF co] poll_write_watch[where w = wp and server = sp and x = x, OF wr co vw] by blast
    show "coherent (cr ?s x) (notify sr ?s s' wr x) (sr s' x)
        \<and> (\<forall>r. Some r \<in> set (cr ?s x # notify sr ?s s' wr x) \<longrightarrow> response_ok r)"
    proof (rule response_watch_notify)
      show "coherent (cr ?s x) (wr x) (sr ?s x) \<and> (\<forall>r. Some r \<in> set (cr ?s x # wr x) \<longrightarrow> response_ok r)"
        using w unfolding watches_ok_def by blast
      show "response_ok r" if "sr s' x \<noteq> sr ?s x" "sr s' x = Some r" for r
        using step4 that by blast
    qed
  qed
  moreover have "waiting_ok cp cr (sys\<lparr>sys_store := s'\<rparr>) (notify sp ?s s' wp) (notify sr ?s s' wr)"
    by (rule waiting_work[OF q]) (simp_all add: views notify_Nil_iff)
  ultimately show ?thesis by (simp add: cached_inv_def)
qed

text \<open>A version of a Poll reaches the cache.\<close>

lemma cached_poll_arrives_inv:
  assumes step1: "wp k = v # w"
    and step2: "cp s' = (cp (sys_store sys))(k := v)"
    and step3: "cr s' = cr (sys_store sys)"
    and step4: "sp s' = sp (sys_store sys)"
    and step5: "sr s' = sr (sys_store sys)"
    and inv: "cached_inv cp cr sp sr \<lparr>cs_sys = sys, cs_polls = wp, cs_responses = wr\<rparr>"
  shows "cached_inv cp cr sp sr
      \<lparr>cs_sys = deliver env cp cr s' sys, cs_polls = wp(k := w), cs_responses = wr\<rparr>"
proof -
  let ?s = "sys_store sys" and ?t = "sys_clock sys"
  have ws: "watches_ok cp cr sp sr ?t ?s wp wr" and q: "waiting_ok cp cr sys wp wr"
    using inv by (simp_all add: cached_inv_def)
  note views = step2 step3 step4 step5
  have k: "coherent (cp ?s k) (v # w) (sp ?s k)" "version_watch ?t (cp ?s k) (v # w)"
    using ws step1 unfolding watches_ok_def by metis+
  note co = coherent_catch_up[OF k(1)] and vw = version_watch_catch_up[OF k(2)]
  have new: "watches_ok cp cr sp sr ?t s' (wp(k := w)) wr"
    using ws co vw by (simp add: watches_ok_def views)
  have "waiting_ok cp cr (deliver env cp cr s' sys) (wp(k := w)) wr"
    using co watches_ok_poll[OF new] by (intro waiting_poll_arrives[OF q views(1,2)]) (auto simp: version_ok_def)
  with new show ?thesis by (simp add: cached_inv_def)
qed

text \<open>A version of a response reaches the cache.\<close>

lemma cached_response_arrives_inv:
  assumes step1: "wr k = v # w"
    and step2: "cr s' = (cr (sys_store sys))(k := v)"
    and step3: "cp s' = cp (sys_store sys)"
    and step4: "sp s' = sp (sys_store sys)"
    and step5: "sr s' = sr (sys_store sys)"
    and inv: "cached_inv cp cr sp sr \<lparr>cs_sys = sys, cs_polls = wp, cs_responses = wr\<rparr>"
  shows "cached_inv cp cr sp sr
      \<lparr>cs_sys = deliver env cp cr s' sys, cs_polls = wp, cs_responses = wr(k := w)\<rparr>"
proof -
  let ?s = "sys_store sys" and ?t = "sys_clock sys"
  have ws: "watches_ok cp cr sp sr ?t ?s wp wr" and q: "waiting_ok cp cr sys wp wr"
    using inv by (simp_all add: cached_inv_def)
  note views = step2 step3 step4 step5
  have k: "coherent (cr ?s k) (v # w) (sr ?s k)" "\<forall>r. Some r \<in> set (cr ?s k # v # w) \<longrightarrow> response_ok r"
    using ws step1 unfolding watches_ok_def by metis+
  note co = coherent_catch_up[OF k(1)]
  have new: "watches_ok cp cr sp sr ?t s' wp (wr(k := w))"
    using ws co k(2) by (simp add: watches_ok_def views)
  have "waiting_ok cp cr (deliver env cp cr s' sys) wp (wr(k := w))"
    using co watches_ok_poll[OF new] by (intro waiting_response_arrives[OF q views(1,2)]) (auto simp: version_ok_def)
  with new show ?thesis by (simp add: cached_inv_def)
qed

text \<open>Time passes.\<close>

lemma cached_tick_inv:
  assumes step1: "unixNano (sys_clock sys) \<le> unixNano t"
    and inv: "cached_inv cp cr sp sr \<lparr>cs_sys = sys, cs_polls = wp, cs_responses = wr\<rparr>"
  shows "cached_inv cp cr sp sr
      \<lparr>cs_sys = sys\<lparr>sys_clock := t,
       sys_polls := sys_polls sys \<union> fst ` {x \<in> sys_timers sys. snd x \<le> unixNano t},
       sys_timers := {x \<in> sys_timers sys. \<not> snd x \<le> unixNano t}\<rparr>,
       cs_polls = wp, cs_responses = wr\<rparr>"
proof -
  let ?s = "sys_store sys" and ?t = "sys_clock sys"
  have ws: "watches_ok cp cr sp sr ?t ?s wp wr" and q: "waiting_ok cp cr sys wp wr"
    using inv by (simp_all add: cached_inv_def)
  have "watches_ok cp cr sp sr t ?s wp wr"
    using ws version_watch_mono[OF _ step1] by (simp add: watches_ok_def)
  moreover note waiting_tick[OF q step1 watches_ok_poll[OF ws]]
  ultimately show ?thesis by (simp add: cached_inv_def)
qed

text \<open>So every step does.\<close>

lemma cached_step_inv:
  assumes "cached_step env cp cr sp sr cs cs'" and "cached_inv cp cr sp sr cs"
  shows "cached_inv cp cr sp sr cs'"
  using assms
  by (induction rule: cached_step.induct)
    (rule cached_poll_inv cached_response_inv cached_edit_inv cached_poll_arrives_inv cached_response_arrives_inv cached_tick_inv; assumption)+

text \<open>So it holds of whatever the system reaches.\<close>

lemma cached_reachable_inv:
  assumes "cached_store_ok cp cr sp sr t s"
    and "(cached_step env cp cr sp sr)\<^sup>*\<^sup>* (cached_start cp cr t s) cs"
  shows "cached_inv cp cr sp sr cs"
  using assms(2) by induction (auto intro: cached_inv_start[OF assms(1)] cached_step_inv)

text \<open>
  When it is quiet, the caches hold what the server holds, and every Poll there shows the phase
  of the clock and the tally of the valid responses there.
\<close>

lemma quiet_results:
  assumes inv: "cached_inv cp cr sp sr cs" and quiet: "quiet cs"
    and p: "sp (sys_store (cs_sys cs)) k = Some p"
    and rs: "lists sr (sys_store (cs_sys cs)) (m_namespace (p_meta p)) rs"
    and live: "\<And>r. r \<in> set rs \<Longrightarrow> names_poll p r \<Longrightarrow> m_deletionTimestamp (r_meta r) = None"
  shows "st_phase (p_status p) = (if pollClosed p (sys_clock (cs_sys cs)) then PollPhaseClosed else PollPhaseOpen)
    \<and> st_totalResponses (p_status p) = of_nat (length (filter (valid_for pr p (sys_clock (cs_sys cs))) rs))
    \<and> shows_results (p_status p) (ps_questions (p_spec p)) (validAnswers pr p (sys_clock (cs_sys cs)) rs)"
proof -
  let ?s = "sys_store (cs_sys cs)" and ?t = "sys_clock (cs_sys cs)"
  have empty: "\<And>x. cs_polls cs x = []" "\<And>x. cs_responses cs x = []"
      "sys_polls (cs_sys cs) = {}" "sys_responses (cs_sys cs) = {}"
    using quiet by (simp_all add: quiet_def at_rest_def)
  have same: "cp ?s x = sp ?s x" "cr ?s x = sr ?s x" for x
    using inv watches_ok_caught_up empty unfolding cached_inv_def by metis+
  have "settled_poll cp cr ?t ?s x" "settled_response cp cr ?t ?s x" for x
    using inv empty by (simp_all add: cached_inv_def waiting_ok_def)
  then show ?thesis
    using settled_results[of ?t ?s k p rs pr] p rs live by (simp add: same lists_def)
qed

end

end
