(* ===== verification/Cached_Store.thy ===== *)
theory Cached_Store
  imports Cached_Loop Memory_Store Stale_Cache
begin

text \<open>
  Two stores in memory that meet the contract \<open>cached_plane\<close>: the caches, from which a reconcile
  reads, and the server, to which it writes merge patches. A patch replaces the fields in which
  the new object differs from the one it was made from, and lists as a whole, as RFC 7386 has it.
\<close>

section \<open>The two stores\<close>

record cached_memory =
  cm_cache :: memory
  cm_server :: memory

definition cache_poll :: "cached_memory \<Rightarrow> NamespacedName \<Rightarrow> Poll option" where
  "cache_poll s = mem_poll (cm_cache s)"

definition cache_response :: "cached_memory \<Rightarrow> NamespacedName \<Rightarrow> PollResponse option" where
  "cache_response s = mem_response (cm_cache s)"

definition server_poll :: "cached_memory \<Rightarrow> NamespacedName \<Rightarrow> Poll option" where
  "server_poll s = mem_poll (cm_server s)"

definition server_response :: "cached_memory \<Rightarrow> NamespacedName \<Rightarrow> PollResponse option" where
  "server_response s = mem_response (cm_server s)"

lemmas cached_maps = cache_poll_def cache_response_def server_poll_def server_response_def

section \<open>Merge patches\<close>

text \<open>One field of a merge patch.\<close>

definition merged_field :: "'a \<Rightarrow> 'a \<Rightarrow> 'a \<Rightarrow> 'a" where
  "merged_field base new cur = (if base = new then cur else new)"

lemma merged_field_same [simp]: "merged_field cur new cur = new"
  by (simp add: merged_field_def)

definition json_merge_poll :: "PollStatus \<Rightarrow> PollStatus \<Rightarrow> PollStatus \<Rightarrow> PollStatus" where
  "json_merge_poll base new cur =
     \<lparr>st_conditions = merged_field (st_conditions base) (st_conditions new) (st_conditions cur),
      st_phase = merged_field (st_phase base) (st_phase new) (st_phase cur),
      st_openedAt = merged_field (st_openedAt base) (st_openedAt new) (st_openedAt cur),
      st_closedAt = merged_field (st_closedAt base) (st_closedAt new) (st_closedAt cur),
      st_results = merged_field (st_results base) (st_results new) (st_results cur),
      st_totalResponses = merged_field (st_totalResponses base) (st_totalResponses new) (st_totalResponses cur)\<rparr>"

definition patched_poll :: "Poll \<Rightarrow> Poll \<Rightarrow> Poll \<Rightarrow> Poll" where
  "patched_poll base new q = q\<lparr>p_status := json_merge_poll (p_status base) (p_status new) (p_status q)\<rparr>"

definition patched_response :: "PollResponse \<Rightarrow> PollResponse \<Rightarrow> PollResponse \<Rightarrow> PollResponse" where
  "patched_response base new q =
     q\<lparr>r_status := json_merge (r_status base) (r_status new) (r_status q)\<rparr>"

definition patched_owners :: "PollResponse \<Rightarrow> PollResponse \<Rightarrow> PollResponse \<Rightarrow> PollResponse" where
  "patched_owners base new q = q\<lparr>r_meta := (r_meta q)\<lparr>m_ownerReferences :=
     merged_field (m_ownerReferences (r_meta base)) (m_ownerReferences (r_meta new))
       (m_ownerReferences (r_meta q))\<rparr>\<rparr>"

section \<open>The environment\<close>

definition server_patchPoll :: "Poll \<Rightarrow> Poll \<Rightarrow> cached_memory \<Rightarrow> (go_error + Poll) \<times> cached_memory" where
  "server_patchPoll base new s =
     (case server_poll s (poll_key base) of
        None \<Rightarrow> (Inl not_found, s)
      | Some q \<Rightarrow> let q' = patched_poll base new q
          in (Inr q', s\<lparr>cm_server := (cm_server s)\<lparr>mem_polls :=
                replace poll_key q' (mem_polls (cm_server s))\<rparr>\<rparr>))"

definition server_patchResponse ::
    "(PollResponse \<Rightarrow> PollResponse \<Rightarrow> PollResponse \<Rightarrow> PollResponse) \<Rightarrow> PollResponse \<Rightarrow> PollResponse \<Rightarrow>
     cached_memory \<Rightarrow> (go_error + PollResponse) \<times> cached_memory" where
  "server_patchResponse patched base new s =
     (case server_response s (response_key base) of
        None \<Rightarrow> (Inl not_found, s)
      | Some q \<Rightarrow> let q' = patched base new q
          in (Inr q', s\<lparr>cm_server := (cm_server s)\<lparr>mem_responses :=
                replace response_key q' (mem_responses (cm_server s))\<rparr>\<rparr>))"

definition cached_env :: "(nat \<Rightarrow> bool) \<Rightarrow> gotime \<Rightarrow> cached_memory kube_env" where
  "cached_env pr clock =
     \<lparr>env_isPrint = pr,
      env_now = (\<lambda>s. (clock, s)),
      env_getPoll = (\<lambda>k s. (read_or_not_found (cache_poll s k), s)),
      env_listPolls = (\<lambda>s. (Inr (mem_polls (cm_cache s)), s)),
      env_patchPollStatus = server_patchPoll,
      env_getResponse = (\<lambda>k s. (read_or_not_found (cache_response s k), s)),
      env_listResponses = (\<lambda>ns s. (Inr (mem_list ns (cm_cache s)), s)),
      env_patchResponse = server_patchResponse patched_owners,
      env_patchResponseStatus = server_patchResponse patched_response,
      env_createResponse = (\<lambda>r s. case mem_create r (cm_server s) of
         (res, server) \<Rightarrow> (res, s\<lparr>cm_server := server\<rparr>)),
      env_setControllerReference = mem_setControllerReference,
      env_setStatusCondition = documented_SetStatusCondition\<rparr>"

lemma cached_env_simps [simp]:
  "env_isPrint (cached_env pr clock) = pr"
  "env_now (cached_env pr clock) s = (clock, s)"
  "env_getPoll (cached_env pr clock) k s = (read_or_not_found (cache_poll s k), s)"
  "env_patchPollStatus (cached_env pr clock) = server_patchPoll"
  "env_getResponse (cached_env pr clock) k s = (read_or_not_found (cache_response s k), s)"
  "env_listResponses (cached_env pr clock) ns s = (Inr (mem_list ns (cm_cache s)), s)"
  "env_patchResponse (cached_env pr clock) = server_patchResponse patched_owners"
  "env_patchResponseStatus (cached_env pr clock) = server_patchResponse patched_response"
  "env_setControllerReference (cached_env pr clock) = mem_setControllerReference"
  "env_setStatusCondition (cached_env pr clock) = documented_SetStatusCondition"
  by (simp_all add: cached_env_def)

section \<open>They meet the contract\<close>

lemma patched_keys [simp]:
  "poll_key (patched_poll p p' q) = poll_key q"
  "response_key (patched_response r r' x) = response_key x"
  "response_key (patched_owners r r' x) = response_key x"
  by (simp_all add: patched_poll_def patched_response_def patched_owners_def response_key_def)

lemma lookup_replaced:
  assumes "lookup key (key y) xs = Some x"
  shows "(\<lambda>k. lookup key k (replace key y xs)) = (\<lambda>k. lookup key k xs)(key y \<mapsto> y)"
  using assms by (auto simp: lookup_replace fun_eq_iff)

lemma server_patchPoll_cases:
  assumes "server_patchPoll base new s = (res, s')"
  shows "cm_cache s' = cm_cache s \<and> server_response s' = server_response s"
    and "(\<exists>e. res = Inl e \<and> s' = s) \<or> (\<exists>q. server_poll s (poll_key base) = Some q
      \<and> res = Inr (patched_poll base new q)
      \<and> server_poll s' = (server_poll s)(poll_key base \<mapsto> patched_poll base new q))"
proof -
  show "cm_cache s' = cm_cache s \<and> server_response s' = server_response s"
    using assms by (auto simp: server_patchPoll_def Let_def cached_maps mem_response_def[abs_def] split: option.splits)
  show "(\<exists>e. res = Inl e \<and> s' = s) \<or> (\<exists>q. server_poll s (poll_key base) = Some q
      \<and> res = Inr (patched_poll base new q)
      \<and> server_poll s' = (server_poll s)(poll_key base \<mapsto> patched_poll base new q))"
  proof (cases "server_poll s (poll_key base)")
    case None
    then show ?thesis using assms by (auto simp: server_patchPoll_def)
  next
    case (Some q)
    then have found: "lookup poll_key (poll_key base) (mem_polls (cm_server s)) = Some q"
      by (simp add: cached_maps mem_poll_def)
    then have key: "poll_key q = poll_key base" by (rule lookup_SomeD[THEN conjunct2])
    then have "lookup poll_key (poll_key (patched_poll base new q)) (mem_polls (cm_server s)) = Some q"
      using found by simp
    from lookup_replaced[OF this] show ?thesis
      using assms Some key by (auto simp: server_patchPoll_def Let_def cached_maps mem_poll_def[abs_def])
  qed
qed

lemma server_patchResponse_cases:
  assumes "server_patchResponse patched base new s = (res, s')"
    and kept: "\<And>q. response_key (patched base new q) = response_key q"
  shows "cm_cache s' = cm_cache s \<and> server_poll s' = server_poll s"
    and "(\<exists>e. res = Inl e \<and> s' = s) \<or> (\<exists>q. server_response s (response_key base) = Some q
      \<and> response_key q = response_key base \<and> res = Inr (patched base new q)
      \<and> server_response s' = (server_response s)(response_key base \<mapsto> patched base new q))"
proof -
  show "cm_cache s' = cm_cache s \<and> server_poll s' = server_poll s"
    using assms(1) by (auto simp: server_patchResponse_def Let_def cached_maps mem_poll_def[abs_def] split: option.splits)
  show "(\<exists>e. res = Inl e \<and> s' = s) \<or> (\<exists>q. server_response s (response_key base) = Some q
      \<and> response_key q = response_key base \<and> res = Inr (patched base new q)
      \<and> server_response s' = (server_response s)(response_key base \<mapsto> patched base new q))"
  proof (cases "server_response s (response_key base)")
    case None
    then show ?thesis using assms(1) by (auto simp: server_patchResponse_def)
  next
    case (Some q)
    then have found: "lookup response_key (response_key base) (mem_responses (cm_server s)) = Some q"
      by (simp add: cached_maps mem_response_def)
    then have key: "response_key q = response_key base" by (rule lookup_SomeD[THEN conjunct2])
    then have "lookup response_key (response_key (patched base new q)) (mem_responses (cm_server s)) = Some q"
      using found kept by simp
    from lookup_replaced[OF this] show ?thesis
      using assms(1) Some key kept
      by (auto simp: server_patchResponse_def Let_def cached_maps mem_response_def[abs_def])
  qed
qed

lemma merged_poll_status_json: "merged_poll_status base new cur (json_merge_poll base new cur)"
  by (cases new) (auto simp: merged_poll_status_def json_merge_poll_def merged_field_def)

lemma merged_response_status_json: "merged_response_status base new cur (json_merge base new cur)"
  by (cases new) (auto simp: merged_response_status_def json_merge_def)

lemma server_patch_effects:
  "server_patchPoll p p' s = (res, s') \<Longrightarrow>
     outcome res (server_poll s' = server_poll s) (poll_patched p p' (server_poll s) (server_poll s'))"
  "server_patchResponse patched_response r r' s = (rres, s') \<Longrightarrow>
     outcome rres (server_response s' = server_response s)
       (status_patched r r' (server_response s) (server_response s'))"
  "server_patchResponse patched_owners r r' s = (rres, s') \<Longrightarrow>
     m_ownerReferences (r_meta r) \<noteq> m_ownerReferences (r_meta r') \<Longrightarrow>
     outcome rres (server_response s' = server_response s)
       (owners_patched r r' (server_response s) (server_response s'))
     \<and> (\<forall>q. rres = Inr q \<longrightarrow> response_key q = response_key r \<and> server_response s' (response_key r) = Some q)"
proof -
  assume "server_patchPoll p p' s = (res, s')"
  from server_patchPoll_cases(2)[OF this] show
    "outcome res (server_poll s' = server_poll s) (poll_patched p p' (server_poll s) (server_poll s'))"
    unfolding poll_patched_def patched_poll_def using merged_poll_status_json by fastforce
next
  assume "server_patchResponse patched_response r r' s = (rres, s')"
  from server_patchResponse_cases(2)[OF this] show
    "outcome rres (server_response s' = server_response s)
       (status_patched r r' (server_response s) (server_response s'))"
    unfolding status_patched_def using merged_response_status_json
    by (fastforce simp: patched_response_def response_key_def)
next
  assume run: "server_patchResponse patched_owners r r' s = (rres, s')"
    and differ: "m_ownerReferences (r_meta r) \<noteq> m_ownerReferences (r_meta r')"
  have owners: "patched_owners r r' q
      = q\<lparr>r_meta := (r_meta q)\<lparr>m_ownerReferences := m_ownerReferences (r_meta r')\<rparr>\<rparr>" for q
    using differ by (simp add: patched_owners_def merged_field_def)
  from server_patchResponse_cases(2)[OF run] show
    "outcome rres (server_response s' = server_response s)
       (owners_patched r r' (server_response s) (server_response s'))
     \<and> (\<forall>q. rres = Inr q \<longrightarrow> response_key q = response_key r \<and> server_response s' (response_key r) = Some q)"
    unfolding owners_patched_def owners by (fastforce simp: response_key_def)
qed

interpretation cached: cached_plane "cached_env pr" cache_poll cache_response server_poll server_response for pr
proof (intro cached_plane.intro object_views.intro cached_plane_axioms.intro)
  fix s k p assume "cache_poll s k = Some p"
  then show "poll_key p = k" unfolding cached_maps mem_poll_def by (rule lookup_SomeD[THEN conjunct2])
next
  fix s k r assume "cache_response s k = Some r"
  then show "response_key r = k" unfolding cached_maps mem_response_def by (rule lookup_SomeD[THEN conjunct2])
next
  fix t ns s
  show "\<exists>rs. env_listResponses (cached_env pr t) ns s = (Inr rs, s) \<and> lists cache_response s ns rs"
    by (auto simp: lists_def mem_list_def cached_maps mem_response_def set_visible
        intro!: distinct_map_filter_key distinct_visible)
next
  fix s k t
  show "case cache_poll s k of
        None \<Rightarrow> \<exists>e. env_getPoll (cached_env pr t) k s = (Inl e, s) \<and> IsNotFound e
      | Some p \<Rightarrow> env_getPoll (cached_env pr t) k s = (Inr p, s)"
    by (simp add: read_or_not_found_def not_found_def IsNotFound_def split: option.split)
  show "case cache_response s k of
        None \<Rightarrow> \<exists>e. env_getResponse (cached_env pr t) k s = (Inl e, s) \<and> IsNotFound e
      | Some r \<Rightarrow> env_getResponse (cached_env pr t) k s = (Inr r, s)"
    by (simp add: read_or_not_found_def not_found_def IsNotFound_def split: option.split)
next
  fix t s u s' assume "env_now (cached_env pr t) s = (u, s')"
  then show "u = t \<and> same_views cache_poll cache_response server_poll server_response s s'"
    by (simp add: same_views_def)
next
  fix t show "status_condition_setter (env_setStatusCondition (cached_env pr t))"
    by (simp add: documented.status_condition_setter_axioms)
next
  fix t p p' s res s' assume "env_patchPollStatus (cached_env pr t) p p' s = (res, s')"
  then have run: "server_patchPoll p p' s = (res, s')" by simp
  show "cache_poll s' = cache_poll s \<and> cache_response s' = cache_response s
      \<and> server_response s' = server_response s
      \<and> outcome res (server_poll s' = server_poll s) (poll_patched p p' (server_poll s) (server_poll s'))"
    using server_patchPoll_cases(1)[OF run] server_patch_effects(1)[OF run] by (simp add: cached_maps)
next
  fix t r r' s rres s' assume "env_patchResponseStatus (cached_env pr t) r r' s = (rres, s')"
  then have run: "server_patchResponse patched_response r r' s = (rres, s')" by simp
  show "cache_poll s' = cache_poll s \<and> cache_response s' = cache_response s \<and> server_poll s' = server_poll s
      \<and> outcome rres (server_response s' = server_response s)
          (status_patched r r' (server_response s) (server_response s'))"
    using server_patchResponse_cases(1)[OF run] server_patch_effects(2)[OF run] by (simp add: cached_maps)
next
  fix t r r' s rres s' assume "env_patchResponse (cached_env pr t) r r' s = (rres, s')"
    and differ: "m_ownerReferences (r_meta r) \<noteq> m_ownerReferences (r_meta r')"
  then have run: "server_patchResponse patched_owners r r' s = (rres, s')" by simp
  show "cache_poll s' = cache_poll s \<and> cache_response s' = cache_response s \<and> server_poll s' = server_poll s
      \<and> outcome rres (server_response s' = server_response s)
          (owners_patched r r' (server_response s) (server_response s'))
      \<and> (\<forall>q. rres = Inr q \<longrightarrow> response_key q = response_key r \<and> server_response s' (response_key r) = Some q)"
    using server_patchResponse_cases(1)[OF run] server_patch_effects(3)[OF run differ] by (simp add: cached_maps)
next
  fix t p r r' assume "env_setControllerReference (cached_env pr t) p r = Inr r'"
  then show "owned_by p (m_ownerReferences (r_meta r'))"
    by (auto simp: mem_setControllerReference_def owned_by_def split: if_splits)
qed

end
