(* ===== verification/Cached_Properties.thy ===== *)
theory Cached_Properties
  imports Cached_Store Samples
begin

text \<open>
  What the operator guarantees behind its caches, and a run in which a status patch reaches the
  server, comes back through the cache and is found to be current.
\<close>

section \<open>A run\<close>

definition sampleCached :: "Poll \<Rightarrow> Poll \<Rightarrow> cached_memory" where
  "sampleCached cached stored =
     \<lparr>cm_cache = \<lparr>mem_polls = [cached], mem_responses = []\<rparr>,
      cm_server = \<lparr>mem_polls = [stored], mem_responses = []\<rparr>\<rparr>"

definition closedStatus :: PollStatus where
  "closedStatus = desiredPollStatus documented_SetStatusCondition samplePoll [] (utc 100) (utc 100)"

definition closedPoll :: Poll where
  "closedPoll = samplePoll\<lparr>p_status := closedStatus\<rparr>"

lemma closed_facts:
  "st_phase closedStatus = PollPhaseClosed" "poll_key closedPoll = poll_key samplePoll"
  "p_spec closedPoll = p_spec samplePoll" "p_meta closedPoll = p_meta samplePoll"
  using sample_clock[of 100]
  by (simp_all add: closedStatus_def closedPoll_def computePhase_phase desiredPollStatus_fields(1))

lemma sample_differs: "closedPoll \<noteq> samplePoll"
proof
  assume "closedPoll = samplePoll"
  from arg_cong[OF this, of "\<lambda>p. st_phase (p_status p)"] show False
    using closed_facts(1)
    by (simp add: closedPoll_def) (simp add: samplePoll_def fresh_status_def PollPhaseClosed_def)
qed

lemma sampleCached_maps [simp]:
  "cache_poll (sampleCached p q) = [poll_key p \<mapsto> p]" "server_poll (sampleCached p q) = [poll_key q \<mapsto> q]"
  "cache_response (sampleCached p q) = Map.empty" "server_response (sampleCached p q) = Map.empty"
  by (auto simp: sampleCached_def cached_maps mem_poll_def mem_response_def fun_eq_iff)

lemma sampleCached_lists [simp]: "mem_list ns (cm_cache (sampleCached p q)) = []"
  by (simp add: sampleCached_def mem_list_def visible_def)

abbreviation sample_plane :: "gotime \<Rightarrow> cached_memory kube_env" where
  "sample_plane \<equiv> cached_env (\<lambda>_. False)"

lemma sample_cached_ok:
  "cached_store_ok cache_poll cache_response server_poll server_response t (sampleCached samplePoll samplePoll)"
proof -
  have "version_ok t samplePoll"
    using sample_wf(1) by (simp add: version_ok_def) (simp add: sample_defs)
  then show ?thesis by (auto simp: cached_store_ok_def split: if_splits)
qed

lemma closing_result: "requeueAtClose e PollPhaseClosed p s = (Inr empty_result, s)"
  by (simp add: requeueAtClose_def PollPhaseOpen_def PollPhaseClosed_def)

lemma sample_computed: "fst (computePhase p st (utc 100)) = PollPhaseClosed" if "p_spec p = p_spec samplePoll"
  using that sample_clock[of 100] by (simp add: computePhase_phase pollClosed_def)

lemma sample_patches:
  "PollReconcile (sample_plane (utc 100)) (poll_key samplePoll) (sampleCached samplePoll samplePoll)
    = (Inr empty_result, sampleCached samplePoll closedPoll)"
proof -
  let ?e = "sample_plane (utc 100)" and ?s = "sampleCached samplePoll samplePoll"
  have patched: "patched_poll samplePoll closedPoll samplePoll = closedPoll"
    by (simp add: patched_poll_def closedPoll_def json_merge_poll_def)
  have d: "closedStatus = desiredPollStatus (env_setStatusCondition ?e) samplePoll [] (utc 100) (utc 100)"
    by (simp add: closedStatus_def)
  have ne: "\<not> statusEqual (p_status samplePoll) closedStatus"
    using statusEqual_fields(1)[of "p_status samplePoll" closedStatus]
    by (auto simp: closed_facts samplePoll_def fresh_status_def PollPhaseClosed_def)
  have w: "env_patchPollStatus ?e samplePoll (samplePoll\<lparr>p_status := closedStatus\<rparr>) ?s
      = (Inr closedPoll, sampleCached samplePoll closedPoll)"
    using patched
    by (simp add: server_patchPoll_def Let_def closed_facts flip: closedPoll_def)
      (simp add: sampleCached_def replace_def closed_facts)
  have reads: "env_getPoll ?e (poll_key samplePoll) ?s = (Inr samplePoll, ?s)"
      "env_now ?e ?s = (utc 100, ?s)"
      "env_listResponses ?e (m_namespace (p_meta samplePoll)) ?s = (Inr [], ?s)"
    by (simp_all add: read_or_not_found_def)
  show ?thesis
    unfolding PollReconcile_patched[OF reads(1,2,3,2) d ne w]
    by (simp only: sum.case sample_computed closing_result)
qed

lemma sample_current:
  "PollReconcile (sample_plane (utc 100)) (poll_key samplePoll) (sampleCached closedPoll closedPoll)
    = (Inr empty_result, sampleCached closedPoll closedPoll)"
proof -
  let ?e = "sample_plane (utc 100)" and ?s = "sampleCached closedPoll closedPoll"
  have "statusEqual closedStatus (desiredPollStatus documented_SetStatusCondition
      (samplePoll\<lparr>p_status := closedStatus\<rparr>) [] (utc 100) (utc 100))"
    by (rule documented.written_fixed_point[where now = "utc 100" and t = "utc 100"])
      (simp_all add: closedStatus_def, simp add: samplePoll_def fresh_status_def)
  then have equal: "statusEqual (p_status closedPoll) (desiredPollStatus (env_setStatusCondition ?e) closedPoll []
      (utc 100) (utc 100))"
    by (simp add: closedPoll_def)
  have reads: "env_getPoll ?e (poll_key samplePoll) ?s = (Inr closedPoll, ?s)"
      "env_now ?e ?s = (utc 100, ?s)"
      "env_listResponses ?e (m_namespace (p_meta closedPoll)) ?s = (Inr [], ?s)"
    by (simp_all add: read_or_not_found_def closed_facts)
  show ?thesis
    unfolding PollReconcile_unchanged[OF reads(1,2,3,2) equal]
    by (simp only: sample_computed[OF closed_facts(3)] closing_result)
qed

lemma sample_arrival:
  fixes sys :: "cached_memory system"
  assumes "sys_store sys = sampleCached samplePoll closedPoll" and "sys_polls sys = {}" and "sys_responses sys = {}"
  shows "sys_polls (deliver sample_plane cache_poll cache_response (sampleCached closedPoll closedPoll) sys)
      = {poll_key samplePoll}"
    and "sys_responses (deliver sample_plane cache_poll cache_response (sampleCached closedPoll closedPoll) sys) = {}"
proof -
  let ?s = "sampleCached samplePoll closedPoll" and ?s' = "sampleCached closedPoll closedPoll"
  have "changed cache_poll cache_response ?s ?s' = {PollObject samplePoll, PollObject closedPoll}"
    using sample_differs by (auto simp: changed_def closed_facts)
  then show "sys_polls (deliver sample_plane cache_poll cache_response ?s' sys) = {poll_key samplePoll}"
    and "sys_responses (deliver sample_plane cache_poll cache_response ?s' sys) = {}"
    using assms by (simp_all add: deliver_def Let_def closed_facts mapPollToResponses_def)
qed

lemma sample_cached_run:
  obtains cs where
    "(cached_step sample_plane cache_poll cache_response server_poll server_response)\<^sup>*\<^sup>*
       (cached_start cache_poll cache_response (utc 100) (sampleCached samplePoll samplePoll)) cs"
    "quiet cs" "sys_store (cs_sys cs) = sampleCached closedPoll closedPoll" "sys_clock (cs_sys cs) = utc 100"
proof -
  let ?step = "cached_step sample_plane cache_poll cache_response server_poll server_response"
    and ?k = "poll_key samplePoll" and ?w = "(\<lambda>_. [])(poll_key samplePoll := [Some closedPoll])"
  define sys0 where "sys0 = started cache_poll cache_response (utc 100) (sampleCached samplePoll samplePoll)"
  define sys1 where "sys1 = sys0\<lparr>sys_store := sampleCached samplePoll closedPoll, sys_polls := {}, sys_timers := {}\<rparr>"
  define sys2 where "sys2 = deliver sample_plane cache_poll cache_response (sampleCached closedPoll closedPoll) sys1"
  define sys3 where "sys3 = sys2\<lparr>sys_polls := {}\<rparr>"
  have f0: "sys_store sys0 = sampleCached samplePoll samplePoll" "sys_clock sys0 = utc 100" "sys_polls sys0 = {?k}"
      "sys_responses sys0 = {}" "sys_timers sys0 = {}"
    by (simp_all add: sys0_def started_def)
  have f1: "sys_store sys1 = sampleCached samplePoll closedPoll" "sys_clock sys1 = utc 100" "sys_polls sys1 = {}"
      "sys_responses sys1 = {}" "sys_timers sys1 = {}"
    by (simp_all add: sys1_def f0)
  have f2: "sys_store sys2 = sampleCached closedPoll closedPoll" "sys_clock sys2 = utc 100" "sys_polls sys2 = {?k}"
      "sys_responses sys2 = {}" "sys_timers sys2 = {}"
    using sample_arrival[OF f1(1,3,4)] by (simp_all add: sys2_def f1 cached.deliver_fields)
  have idle: "\<not> requeued (Inr empty_result)" "timer_of k u (Inr empty_result) = {}" for k u
    by (simp_all add: requeued_def timer_of_def empty_result_def)
  have "?step \<lparr>cs_sys = sys0, cs_polls = \<lambda>_. [], cs_responses = \<lambda>_. []\<rparr>
      \<lparr>cs_sys = sys1, cs_polls = ?w, cs_responses = \<lambda>_. []\<rparr>"
  proof (rule back_subst[of "?step _", OF cached_step.poll[of ?k sys0]])
    show "ctl_reconciler (Poll_SetupWithManager (sample_plane (sys_clock sys0))) ?k (sys_store sys0)
        = (Inr empty_result, sampleCached samplePoll closedPoll)"
      by (simp add: reconcilers f0 sample_patches)
  qed (use sample_differs in \<open>auto simp: f0 idle sys1_def notify_def fun_eq_iff closed_facts\<close>)
  moreover have "?step \<lparr>cs_sys = sys1, cs_polls = ?w, cs_responses = \<lambda>_. []\<rparr>
      \<lparr>cs_sys = sys2, cs_polls = \<lambda>_. [], cs_responses = \<lambda>_. []\<rparr>"
    by (rule back_subst[of "?step _", OF cached_step.poll_arrives[of ?w ?k "Some closedPoll" "[]"
          cache_poll "sampleCached closedPoll closedPoll"]])
      (auto simp: f1 closed_facts sys2_def fun_eq_iff)
  moreover have "?step \<lparr>cs_sys = sys2, cs_polls = \<lambda>_. [], cs_responses = \<lambda>_. []\<rparr>
      \<lparr>cs_sys = sys3, cs_polls = \<lambda>_. [], cs_responses = \<lambda>_. []\<rparr>"
  proof (rule back_subst[of "?step _", OF cached_step.poll[of ?k sys2]])
    show "ctl_reconciler (Poll_SetupWithManager (sample_plane (sys_clock sys2))) ?k (sys_store sys2)
        = (Inr empty_result, sampleCached closedPoll closedPoll)"
      by (simp add: reconcilers f2 sample_current)
  qed (auto simp: f2 idle sys3_def notify_def)
  ultimately have "?step\<^sup>*\<^sup>* \<lparr>cs_sys = sys0, cs_polls = \<lambda>_. [], cs_responses = \<lambda>_. []\<rparr>
      \<lparr>cs_sys = sys3, cs_polls = \<lambda>_. [], cs_responses = \<lambda>_. []\<rparr>"
    by (meson converse_rtranclp_into_rtranclp rtranclp.rtrancl_refl)
  then show thesis
    by (intro that[of "\<lparr>cs_sys = sys3, cs_polls = \<lambda>_. [], cs_responses = \<lambda>_. []\<rparr>"])
      (simp_all add: cached_start_def sys0_def quiet_def at_rest_def sys3_def f2)
qed

section \<open>Behind the caches\<close>

text \<open>C2: the operator reads its caches and writes to the API server. However reconciles, other
  writers, the clock and the arrival of changes at the caches interleave after the start, and
  whichever patches fail or lose their replies: whenever both queues are empty and nothing is on
  its way to a cache, every Poll on the server whose responses are not being deleted publishes
  the phase of the clock, the number of the responses on the server that are valid now, and
  exactly their votes, although every patch may have been computed from versions long replaced.\<close>

theorem caught_up_system_publishes_valid_votes:
  assumes "cached_plane env cp cr sp sr" and "cached_store_ok cp cr sp sr t s"
    and "(cached_step env cp cr sp sr)\<^sup>*\<^sup>* (cached_start cp cr t s) cs" and "quiet cs"
    and "sp (sys_store (cs_sys cs)) k = Some p" and "lists sr (sys_store (cs_sys cs)) (m_namespace (p_meta p)) rs"
    and "\<forall>r \<in> set rs. names_poll p r \<longrightarrow> m_deletionTimestamp (r_meta r) = None"
  shows "st_phase (p_status p) = (if pollClosed p (sys_clock (cs_sys cs)) then PollPhaseClosed else PollPhaseOpen)
    \<and> st_totalResponses (p_status p) = of_nat (length (filter (valid_for pr p (sys_clock (cs_sys cs))) rs))
    \<and> shows_results (p_status p) (ps_questions (p_spec p)) (validAnswers pr p (sys_clock (cs_sys cs)) rs)"
  using cached_plane.quiet_results[OF assms(1) cached_plane.cached_reachable_inv[OF assms(1-3)] assms(4-6)]
    assms(7)
  by blast

theorem caught_up_system_publishes_valid_votes_witness:
  "\<exists>cs. (cached_step sample_plane cache_poll cache_response server_poll server_response)\<^sup>*\<^sup>*
        (cached_start cache_poll cache_response (utc 100) (sampleCached samplePoll samplePoll)) cs
     \<and> quiet cs \<and> server_poll (sys_store (cs_sys cs)) (poll_key samplePoll) = Some closedPoll
     \<and> shows_results (p_status closedPoll) (ps_questions (p_spec closedPoll)) []"
proof (rule sample_cached_run)
  fix cs
  assume run: "(cached_step sample_plane cache_poll cache_response server_poll server_response)\<^sup>*\<^sup>*
       (cached_start cache_poll cache_response (utc 100) (sampleCached samplePoll samplePoll)) cs"
    and quiet: "quiet cs" and store: "sys_store (cs_sys cs) = sampleCached closedPoll closedPoll"
      "sys_clock (cs_sys cs) = utc 100"
  have p: "server_poll (sys_store (cs_sys cs)) (poll_key samplePoll) = Some closedPoll"
    and rs: "lists server_response (sys_store (cs_sys cs)) (m_namespace (p_meta closedPoll)) []"
    by (simp_all add: store closed_facts lists_def)
  from caught_up_system_publishes_valid_votes[OF cached.cached_plane_axioms sample_cached_ok run quiet p rs] run quiet p
  show ?thesis by (auto simp: validAnswers_def)
qed

end
