(* ===== verification/Spec2Isabelle.thy ===== *)
theory Spec2Isabelle
  imports Poll_Properties Response_Properties Admission_Properties Ui_Properties Runtime_Properties
    Schema_Properties Copy_Properties Page_Properties Voting_Loop Loop_Properties Cached_Properties
begin

text \<open>
  A model of poll-operator, a Kubernetes operator for polls, and what it guarantees.

  The program. A Poll (\<open>api/v1/poll_types.go\<close>) asks questions; a PollResponse
  (\<open>api/v1/pollresponse_types.go\<close>) answers them. Validating webhooks
  (\<open>internal/webhook/v1\<close>) check the structure of both kinds before they are stored. Two
  reconcilers (\<open>internal/controller\<close>) run whenever an object changes: the one of
  PollResponse validates a response against its Poll and records the verdict in its status,
  the one of Poll derives the phase from the clock and tallies the accepted responses into
  the status. Each watches the other's kind. A web UI (\<open>internal/ui\<close>) lists Polls, shows the
  results and turns a submitted form into a PollResponse. \<open>cmd/main.go\<close> wires it together.

  The theories, in the order in which they build on each other:
  \<^item> \<^verbatim>\<open>Poll_Prelude\<close>: the loop that indexes a slice by key, updates through positions, counting,
    32-bit counters.
  \<^item> \<^verbatim>\<open>Go_Runtime\<close>: what the program uses of Go's standard library: times and RFC 3339, \<open>%q\<close>
    and \<open>%d\<close>, UTF-8 decoding, \<open>strings.TrimSpace\<close> and \<open>strings.Compare\<close>. Strings are byte
    sequences.
  \<^item> \<^verbatim>\<open>Poll_Types\<close>: the API types as records, with a prefix per type on the field names (\<open>ps_\<close>
    for PollSpec, \<open>rst_\<close> for PollResponseStatus, ...); names of objects in their linear order.
  \<^item> \<^verbatim>\<open>Kube_Api\<close>: the boundary to controller-runtime. The record \<open>kube_env\<close> holds the client
    calls, the clock and the library functions as functions on an abstract state, so other
    actors may do anything between two calls. \<open>status_condition_setter\<close> is the documented
    contract of \<open>meta.SetStatusCondition\<close>.
  \<^item> \<^verbatim>\<open>Status_Compare\<close>: \<open>timePtrEqual\<close>, \<open>conditionsEqualIgnoringTransition\<close>; the contract
    \<open>status_writer\<close> (a desired status that asks for nothing new once written) and its
    consequence, at most one patch in a world that stands still.
  \<^item> \<^verbatim>\<open>Admission\<close>, \<^verbatim>\<open>Poll_Webhook\<close>, \<^verbatim>\<open>Response_Webhook\<close>: the two validators with their exact field
    errors, as instances of the contract \<open>custom_validator\<close>.
  \<^item> \<^verbatim>\<open>Poll_Tally\<close>: \<open>aggregateResults\<close> with its two indices of pointers into the result slice
    (pairs of positions), against the declarative \<open>specResult\<close>.
  \<^item> \<^verbatim>\<open>Poll_Lifecycle\<close>: \<open>computePhase\<close>, and the step relation of a Poll's status under
    reconciliation with its invariant.
  \<^item> \<^verbatim>\<open>Poll_Status\<close>: the Ready condition, \<open>statusEqual\<close>, the desired status as a fixed point.
  \<^item> \<^verbatim>\<open>Poll_Reconciler\<close>: \<open>PollReconciler.Reconcile\<close> call by call, its paths and failures.
  \<^item> \<^verbatim>\<open>Response_Validation\<close>, \<^verbatim>\<open>Response_Reconciler\<close>: \<open>validateResponse\<close> with reasons and messages;
    \<open>accept\<close>, \<open>reject\<close>, \<open>ensureOwnerReference\<close> and \<open>PollResponseReconciler.Reconcile\<close>.
  \<^item> \<^verbatim>\<open>Cluster_Store\<close>: the contract \<open>api_store\<close> of an API server that does what it is asked, one
    reconcile against it, and the round of reconciles that follows an event on a Poll;
    \<^verbatim>\<open>Memory_Store\<close> meets the contract; \<^verbatim>\<open>Voting\<close> adds the creation of a response.
  \<^item> \<^verbatim>\<open>Stale_Cache\<close>: one response under a cache that lags behind the server, whose merge patches
    have no resource version.
  \<^item> \<^verbatim>\<open>Controller_Setup\<close>: the two \<open>SetupWithManager\<close> functions and what an event enqueues.
    \<^verbatim>\<open>Control_Loop\<close>: both controllers on one store, with queues, timers, a clock and other
    writers, and the invariant that what is not queued is settled. \<^verbatim>\<open>Control_Faults\<close>: the same
    when calls fail or lose their replies. \<^verbatim>\<open>Control_Drain\<close>: the queues drain, and what users
    wrote stays. \<^verbatim>\<open>Voting_Loop\<close>: a vote in the running system. \<^verbatim>\<open>Cached_Loop\<close>: the loop when
    reconciles read caches that lag behind and their merge patches land on newer versions, with
    the versions on their way to a cache as part of the state; \<^verbatim>\<open>Cached_Store\<close> meets its contract.
  \<^item> \<^verbatim>\<open>Registration\<close>: the scheme and the webhooks with their markers; \<^verbatim>\<open>Access_Rules\<close>: the rbac
    markers, the generated role, and calls under them.
  \<^item> \<^verbatim>\<open>Go_Heap\<close>, \<^verbatim>\<open>Heap_Types\<close>, \<^verbatim>\<open>Deep_Copy\<close>, \<^verbatim>\<open>Deep_Copy_Laws\<close>: the generated deep copies over a
    heap of typed cells, with the contract \<open>deep_copier\<close> (an equal value, no shared memory).
  \<^item> \<^verbatim>\<open>Crd_Schema\<close>: what the markers on the API types make the API server check.
  \<^item> \<^verbatim>\<open>Ui_Http\<close>, \<^verbatim>\<open>Ui_Answers\<close>, \<^verbatim>\<open>Ui_Views\<close>, \<^verbatim>\<open>Ui_Server\<close>: requests and the calls on the response
    writer, building answers and voting, pages and routes, the threads of \<open>Start\<close>;
    \<^verbatim>\<open>Ui_Roundtrip\<close>: the rendered form and the redirect after a vote, there and back.
    \<^verbatim>\<open>Ui_Html\<close>: trees of elements, what \<open>html/template\<close> writes for one, and a browser that reads,
    follows links and submits forms; \<^verbatim>\<open>Ui_Templates\<close>: the template files as functions to trees.
  \<^item> \<^verbatim>\<open>Command_Line\<close>, \<^verbatim>\<open>Manager_Startup\<close>: the flags and how they are parsed, options, the set-up
    steps of \<open>main\<close>, and the manager they leave.
  \<^item> \<^verbatim>\<open>Samples\<close>: concrete objects for the witnesses. The \<^verbatim>\<open>..._Properties\<close> theories (Loop, Cached, Poll,
    Response, Admission, Schema, Copy, Ui, Page, Runtime) and this one state the properties,
    numbered C1 to C40 by importance.

  How state and effects are modelled. A handler is a function of the environment record and
  the current state of the world that returns its result and the next state; the calls
  appear in the order of the code, and each reading of the clock is a call. Errors are values:
  \<open>Errorf "prefix" err\<close> for \<open>fmt.Errorf("prefix: %w", err)\<close>, a verdict \<open>validationError
  option\<close>, lists of field errors. Go maps are partial functions, pointers options, counters
  32-bit words; \<open>sint\<close> and explicit bounds appear where an overflow would matter. Every
  recursion is structural or has a decreasing length, so no fuel is needed. What runs
  concurrently is a step relation: the threads of \<open>Start\<close>, bounded by the measure \<open>remaining\<close>,
  and the two controllers with everybody else, where the steps of the workers decrease
  \<open>drain_measure\<close>.

  What the lemmas show. Component lemmas characterise each operation by an equivalence
  (\<open>..._Nil_iff\<close>, \<open>..._None_iff\<close>) or an equation with a declarative function (\<open>..._eq\<close>); the
  path lemmas (\<open>PollReconcile_...\<close>, \<open>PollResponseReconcile_...\<close>) reduce a reconcile to the
  calls it makes; the locales carry what both webhooks, both reconcilers and the pages
  have in common. The properties here compose them: from admission over validation to the
  published tally. Two of them (\<open>closing_rejects_accepted_responses\<close>,
  \<open>closed_poll_at_rest_reports_nothing\<close>) describe a defect: validation compares \<open>closesAt\<close> with the
  time of the reconcile instead of the time of submission.

  Hypotheses about code outside the repository are the locale predicates
  \<open>status_condition_setter\<close>, \<open>api_store\<close> with its extensions \<open>voting_store\<close>, \<open>control_plane\<close> and \<open>voting_plane\<close>,
  \<open>cached_plane\<close>, \<open>merge_patch\<close>, \<open>metav1_copies\<close> and \<open>scheme_library\<close>, discharged by \<open>documented_SetStatusCondition\<close>,
  \<open>memory_env\<close> and the other documented instances in the witnesses, and the uniqueness of
  question ids (\<open>stored_poll\<close>), which the list-map key of the CRD guarantees. \<open>api_store\<close> lets the
  server round times when it stores a status. \<open>control_plane\<close> has one reading of the clock per
  reconcile and current caches; other writers are restricted by \<open>poll_edit\<close> (which the webhook
  enforces, \<open>reviewed_writes_are_expected\<close>) and \<open>responses_stored_ok\<close> (nobody but its Poll
  controls a response). \<open>cached_plane\<close> drops the current caches: reads come from two views that
  follow the server version by version, a write is a merge patch against the cached object, and
  a patch that fails may have been applied. There a reconcile is one step, so its reads see one
  state of the caches, and other writers are restricted by \<open>poll_write\<close>: the generation of a
  Poll does not fall and names one spec among the versions in use, so a deleted Poll is created
  again only when the caches have seen the deletion.

  Not modelled: logging, the style sheet and the white space of the templates, whether
  \<open>http.Server\<close> keeps its time-outs, defaulting and the date-time format of the CRDs, leader
  election, metrics, and the test utilities. These are calls into libraries or data without
  behaviour of the program. The abbreviation of a time zone and the flags of imported packages
  are parameters. A watch event whose handler fails to list is described
  (\<open>failed_list_drops_event\<close>), but not part of \<open>control_plane\<close> and \<open>cached_plane\<close>: the controllers
  rely on being told of a change. That the queues drain is proved for current caches only.
\<close>

section \<open>Both reconcilers together\<close>


lemma sample_live:
  "\<forall>r \<in> set sampleResponses. names_poll samplePoll r \<longrightarrow> live samplePoll r"
  by (simp add: sample_defs live_def names_poll_def ownable_def)

lemma sample_store: "api_store (sampleEnv t) mem_poll mem_response"
  unfolding sampleEnv_def by (rule memory.api_store_axioms)

lemma sample_time: "\<forall>s. pollClosed samplePoll (fst (env_now (sampleEnv t) s)) = pollClosed samplePoll (utc t)"
  by (simp add: sampleEnv_def)


section \<open>A vote from the form to the tally\<close>

text \<open>In a single round: a vote cast with the rendered form of an open Poll is answered by the confirmation, and after
  the round of reconciles that its creation triggers the published status counts exactly one
  more response, with the answers of the form added to those of the valid responses before.\<close>

theorem vote_is_counted:
  assumes "voting_store env polls responses" and "polls s (poll_key poll) = Some poll"
    and "admitted (Poll_ValidateCreate pr poll)" and "schema_poll_spec (p_spec poll)"
    and "list_all trimmedOptions (ps_questions (p_spec poll))"
    and "list_all (\<lambda>q. formSends q (form_values form (''q.'' @ q_id q))) (ps_questions (p_spec poll))"
    and "rq_postForm req = Inr form" and "buildAnswers poll form = Inr answers"
    and "length_within 0 253 (TrimSpace (PostFormValue form ''respondent''))"
    and "length_within 1 253 (m_name (p_meta poll))"
    and "env_listResponses env (m_namespace (p_meta poll)) s = (Inr rs, s)"
    and "\<forall>r \<in> set rs. names_poll poll r \<longrightarrow> live poll r"
    and "\<forall>s. pollClosed poll (fst (env_now env s)) = pollClosed poll t" and "\<not> pollClosed poll t"
    and "handleVote env (m_namespace (p_meta poll)) (m_name (p_meta poll)) req s = (effects, s1)"
    and "ks = fst (mapPollToResponses env poll s1)"
  shows "(\<exists>resp. effects = flashAndRedirect (m_namespace (p_meta poll)) (m_name (p_meta poll)) (thanksMessage resp))
    \<and> (\<exists>res s' st. PollReconcile env (poll_key poll) (reconcileResponses env ks s1) = (Inr res, s')
      \<and> polls s' (poll_key poll) = Some (poll\<lparr>p_status := st\<rparr>)
      \<and> st_phase st = PollPhaseOpen
      \<and> st_totalResponses st = of_nat (Suc (length (filter (valid_for (env_isPrint env) poll t) rs)))
      \<and> shows_results st (ps_questions (p_spec poll)) (answers @ validAnswers (env_isPrint env) poll t rs))"
  using assms(12,13)
  by (intro voting_store.vote_counted[OF assms(1-11) _ _ assms(14-16)]) simp_all

lemma sample_voting_store: "voting_store (sampleEnv t) mem_poll mem_response"
  unfolding sampleEnv_def by (rule memory.voting_store_axioms)

lemma sample_respondent: "length_within 0 253 (TrimSpace (PostFormValue sampleForm ''respondent''))"
  using length_TrimSpace_le[of "''''"]
  by (simp add: sampleForm_def PostFormValue_def form_values_def length_within_le)

lemma sample_name: "length_within 1 253 (m_name (p_meta samplePoll))"
  by (simp add: samplePoll_def sampleMeta_def literal_within)


theorem vote_is_counted_witness:
  "\<exists>(effects :: page http_effect list) s1 res s' st.
     handleVote (sampleEnv 0) ''ns'' ''lunch'' (sampleRequest ''POST'' []) sampleStore = (effects, s1)
     \<and> PollReconcile (sampleEnv 0) (poll_key samplePoll)
        (reconcileResponses (sampleEnv 0) (fst (mapPollToResponses (sampleEnv 0) samplePoll s1)) s1)
          = (Inr res, s')
     \<and> mem_poll s' (poll_key samplePoll) = Some (samplePoll\<lparr>p_status := st\<rparr>)
     \<and> st_totalResponses st = 2"
proof -
  let ?req = "sampleRequest ''POST'' []"
  have form: "rq_postForm ?req = Inr sampleForm" by (simp add: sampleRequest_def)
  have names: "m_namespace (p_meta samplePoll) = ''ns''" "m_name (p_meta samplePoll) = ''lunch''"
    by (simp_all add: samplePoll_def sampleMeta_def)
  have not_closed: "\<not> pollClosed samplePoll (utc 0)" by simp
  have pr: "env_isPrint (sampleEnv 0) = (\<lambda>_. False)" by (simp add: sampleEnv_def)
  obtain effects :: "page http_effect list" and s1 where vote: "handleVote (sampleEnv 0) (m_namespace (p_meta samplePoll))
      (m_name (p_meta samplePoll)) ?req sampleStore = (effects, s1)" by fastforce
  from vote_is_counted[OF sample_voting_store, OF sample_reads(1) sample_admitted sample_schema(1) sample_trimmed
      sample_sends form sample_answers sample_respondent sample_name sample_reads(2) sample_live sample_time[of 0]
      not_closed vote refl]
  have "\<exists>res s' st. PollReconcile (sampleEnv 0) (poll_key samplePoll)
      (reconcileResponses (sampleEnv 0) (fst (mapPollToResponses (sampleEnv 0) samplePoll s1)) s1) = (Inr res, s')
    \<and> mem_poll s' (poll_key samplePoll) = Some (samplePoll\<lparr>p_status := st\<rparr>)
    \<and> st_totalResponses st = of_nat (Suc (length [sampleResponse ''r1'' goodAnswers ''Accepted'']))"
    unfolding pr sample_valid_responses by blast
  then show ?thesis using vote unfolding names by simp
qed




section \<open>Closing a Poll\<close>

text \<open>C11: once \<open>closesAt\<close> has passed, the next reconcile of a response rejects it even when it was
  submitted and accepted while the Poll was open.\<close>

theorem closing_rejects_accepted_responses:
  assumes "api_store env polls responses" and "responses s k = Some r"
    and "polls s (poll_key poll) = Some poll" and "live poll r"
    and "\<forall>s. pollClosed poll (fst (env_now env s))"
    and "rst_phase (r_status r) = PollResponsePhaseAccepted"
  shows "\<exists>r' s'. PollResponseReconcile env k s = (Inr empty_result, s')
    \<and> responses s' k = Some r' \<and> r_spec r' = r_spec r
    \<and> rst_phase (r_status r') = PollResponsePhaseRejected"
proof -
  have closed: "pollClosed poll (fst (env_now env s))" using assms(5) by blast
  then have invalid: "validateResponse (env_isPrint env) poll r (fst (env_now env s)) \<noteq> None"
    by (simp add: validateResponse_None)
  show ?thesis
    using api_store.reconcile_response[OF assms(1-4), of "fst (env_now env s)"] assms(5) closed invalid
    by (auto simp: judged_def)
qed

theorem closing_rejects_accepted_responses_witness:
  "\<exists>r' s'. PollResponseReconcile (sampleEnv 100) (NamespacedName ''ns'' ''r1'') sampleStore
        = (Inr empty_result, s')
     \<and> mem_response s' (NamespacedName ''ns'' ''r1'') = Some r'
     \<and> rst_phase (r_status r') = PollResponsePhaseRejected"
proof -
  let ?r = "sampleResponse ''r1'' goodAnswers ''Accepted''"
  have stored: "mem_response sampleStore (NamespacedName ''ns'' ''r1'') = Some ?r"
    by (simp add: mem_response_def sample_defs response_key_def)
  have live: "live samplePoll ?r"
    by (simp add: live_def names_poll_def ownable_def sample_defs)
  have closed: "\<forall>s. pollClosed samplePoll (fst (env_now (sampleEnv 100) s))"
    by (simp add: sampleEnv_def)
  have "rst_phase (r_status ?r) = PollResponsePhaseAccepted"
    by (simp add: sampleResponse_def phase_defs)
  from closing_rejects_accepted_responses[OF sample_store, OF stored sample_reads(1) live closed this]
  show ?thesis by blast
qed

text \<open>An event on a Poll whose \<open>closesAt\<close> has passed empties its published results: after the
  round the Poll is Closed with no responses and no votes, whatever it had reported before.\<close>

theorem closed_poll_reports_nothing:
  assumes "api_store env polls responses" and "polls s (poll_key poll) = Some poll"
    and "wf_questions (ps_questions (p_spec poll))"
    and "env_listResponses env (m_namespace (p_meta poll)) s = (Inr rs, s)"
    and "\<forall>r \<in> set rs. names_poll poll r \<longrightarrow> live poll r"
    and "\<forall>s. pollClosed poll (fst (env_now env s))"
    and "ks = fst (mapPollToResponses env poll s)"
  shows "\<exists>res s' st. PollReconcile env (poll_key poll) (reconcileResponses env ks s) = (Inr res, s')
    \<and> polls s' (poll_key poll) = Some (poll\<lparr>p_status := st\<rparr>)
    \<and> st_phase st = PollPhaseClosed \<and> st_totalResponses st = 0
    \<and> shows_results st (ps_questions (p_spec poll)) []"
proof -
  let ?t = "fst (env_now env s)"
  have closed: "pollClosed poll ?t" using assms(6) by blast
  then have none: "filter (valid_for (env_isPrint env) poll ?t) rs = []"
    by (simp add: valid_for_def validateResponse_None filter_empty_conv)
  show ?thesis
    using api_store.round_results[OF assms(1-4) _ _ assms(7), of ?t] assms(5,6) closed none
    by (auto simp: validAnswers_def)
qed

theorem closed_poll_reports_nothing_witness:
  "\<exists>res s' st. PollReconcile (sampleEnv 100) (poll_key samplePoll)
        (reconcileResponses (sampleEnv 100) (fst (mapPollToResponses (sampleEnv 100) samplePoll sampleStore))
           sampleStore) = (Inr res, s')
     \<and> mem_poll s' (poll_key samplePoll) = Some (samplePoll\<lparr>p_status := st\<rparr>)
     \<and> st_phase st = PollPhaseClosed \<and> st_totalResponses st = 0"
proof -
  have "\<forall>s. pollClosed samplePoll (fst (env_now (sampleEnv 100) s))"
    by (simp add: sampleEnv_def)
  from closed_poll_reports_nothing[OF sample_store, OF sample_reads(1) sample_wf(1) sample_reads(2)
      sample_live this refl]
  show ?thesis by blast
qed

section \<open>From admission to the tally\<close>

lemma valid_answer_fits:
  assumes "distinct (map q_id (ps_questions (p_spec poll)))" and "q \<in> set (ps_questions (p_spec poll))"
    and "validateResponse pr poll r t = None" and "a \<in> set (rs_answers (r_spec r))"
    and "a_questionID a = q_id q"
  shows "answer_ok q a"
proof -
  obtain q' where "q' \<in> set (ps_questions (p_spec poll))" "q_id q' = a_questionID a" "answer_ok q' a"
    using assms(3,4) by (auto simp: validateResponse_None_iff[OF assms(1)])
  with distinct_key_unique[OF assms(1) this(1) assms(2)] assms(5) show ?thesis by simp
qed

text \<open>C10: for a Poll that passed admission, when the counted responses are valid, no selection of a
  Choice question is lost: the votes of its row add up to the number of options selected in
  the counted answers, and for a single-choice question to the number of its answers.\<close>

theorem no_vote_is_lost:
  assumes "admitted (Poll_ValidateCreate pr poll)" and "stored_poll poll"
    and "q \<in> set (ps_questions (p_spec poll))" and "q_type q = QuestionTypeChoice"
    and "q_choice q = Some c"
    and "\<forall>r \<in> set responses. counted poll r \<longrightarrow> validateResponse pr poll r t = None"
  shows "\<exists>row \<in> set (fst (aggregateResults poll responses)). qr_questionID row = q_id q
    \<and> sum_list (map opt_votes (qr_options row))
        = of_nat (length (selectionsFor (q_id q) (countedAnswers poll responses)))
    \<and> (\<not> cq_allowMultipleChoices c \<longrightarrow> sum_list (map opt_votes (qr_options row)) = qr_responses row)"
proof -
  let ?as = "countedAnswers poll responses"
  have wf: "wf_questions (ps_questions (p_spec poll))" by (rule admitted_poll_wf[OF assms(1,2)])
  have ids: "distinct (map q_id (ps_questions (p_spec poll)))"
    using wf by (simp add: wf_questions_def)
  have ok: "answer_ok q a" if "a \<in> set (answersTo (q_id q) ?as)" for a
    using that assms(6) valid_answer_fits[OF ids assms(3)]
    by (auto simp: answersTo_countedAnswers)
  have opts: "talliedOptions q = cq_options c"
    by (simp add: talliedOptions_def assms(4,5))
  have "set (selectionsFor (q_id q) ?as) \<subseteq> set (cq_options c)"
    using ok assms(4,5) by (intro set_selections_subset) (auto simp: answer_ok_def)
  moreover have "distinct (cq_options c)"
    using wf assms(3,5) by (auto simp: wf_questions_def question_options_def list_all_iff)
  ultimately have sum: "sum_list (map opt_votes (qr_options (specResult ?as q)))
      = of_nat (length (selectionsFor (q_id q) ?as))"
    using sum_votes_selections[of "cq_options c" "selectionsFor (q_id q) ?as"]
    by (simp add: specResult_def opts comp_def)
  have single: "length (selectionsFor (q_id q) ?as) = length (answersTo (q_id q) ?as)"
    if "\<not> cq_allowMultipleChoices c"
    using ok assms(4,5) that by (intro length_selections_single) (auto simp: answer_ok_def)
  show ?thesis
    using sum single assms(3)
    by (intro bexI[of _ "specResult ?as q"]) (auto simp: specResult_def aggregateResults_eq[OF wf])
qed

theorem no_vote_is_lost_witness:
  "\<exists>row \<in> set (fst (aggregateResults samplePoll sampleResponses)). qr_questionID row = ''q1''
     \<and> sum_list (map opt_votes (qr_options row)) = qr_responses row"
proof -
  let ?q = "hd sampleQuestions"
  let ?c = "\<lparr>cq_options = [''tea'', ''coffee''], cq_allowMultipleChoices = False\<rparr>"
  have q: "?q \<in> set (ps_questions (p_spec samplePoll))" "q_type ?q = QuestionTypeChoice"
    "q_choice ?q = Some ?c" "q_id ?q = ''q1''"
    by (simp_all add: samplePoll_def sampleQuestions_def question_type_defs)
  have "\<not> counted samplePoll (sampleResponse ''r2'' badAnswers '''')"
    by (simp add: counted_def sampleResponse_def phase_defs)
  then have "\<forall>r \<in> set sampleResponses. counted samplePoll r
      \<longrightarrow> validateResponse (\<lambda>_. False) samplePoll r (utc 0) = None"
    by (simp add: sampleResponses_def)
  from no_vote_is_lost[OF sample_admitted sample_wf(4) q(1-3) this] q(4) show ?thesis by auto
qed

section \<open>The watches\<close>

text \<open>The two watch handlers agree: among the responses of a namespace, an event on a Poll
  there enqueues exactly those whose own events enqueue that Poll.\<close>

theorem watches_agree:
  assumes "env_listResponses env (m_namespace (p_meta poll)) s = (Inr rs, s')"
    and "distinct (map response_key rs)" and "r \<in> set rs"
    and "m_namespace (r_meta r) = m_namespace (p_meta poll)" and "m_name (p_meta poll) \<noteq> ''''"
  shows "response_key r \<in> set (fst (mapPollToResponses env poll s))
    \<longleftrightarrow> poll_key poll \<in> set (mapResponseToPoll r)"
proof -
  have "response_key r \<in> response_key ` {x \<in> set rs. names_poll poll x} \<longleftrightarrow> names_poll poll r"
  proof
    assume "response_key r \<in> response_key ` {x \<in> set rs. names_poll poll x}"
    then obtain x where x: "x \<in> set rs" "names_poll poll x" "response_key x = response_key r" by force
    show "names_poll poll r"
      using x(2) unfolding distinct_key_unique[OF assms(2) x(1) assms(3) x(3)] .
  next
    assume "names_poll poll r"
    with assms(3) show "response_key r \<in> response_key ` {x \<in> set rs. names_poll poll x}" by blast
  qed
  moreover have "poll_key poll \<in> set (mapResponseToPoll r) \<longleftrightarrow> names_poll poll r"
    using assms(4,5) by (auto simp: mapResponseToPoll_def poll_key_def names_poll_def)
  ultimately show ?thesis
    by (simp add: mapPollToResponses_def assms(1) names_poll_def[abs_def] image_def)
qed

theorem watches_agree_witness:
  "NamespacedName ''ns'' ''r2'' \<in> set (fst (mapPollToResponses (sampleEnv 0) samplePoll sampleStore))"
proof -
  let ?r = "sampleResponse ''r2'' badAnswers ''''"
  have facts: "distinct (map response_key sampleResponses)" "?r \<in> set sampleResponses"
    "m_namespace (r_meta ?r) = m_namespace (p_meta samplePoll)" "m_name (p_meta samplePoll) \<noteq> ''''"
    and key: "response_key ?r = NamespacedName ''ns'' ''r2''"
    by (simp_all add: sample_defs response_key_def)
  have "poll_key samplePoll \<in> set (mapResponseToPoll ?r)"
    by (simp add: mapResponseToPoll_def poll_key_def sample_defs)
  with watches_agree[OF sample_reads(2) facts, of 0] show ?thesis by (simp only: key)
qed

end
